(* ===== verification/Prelude.thy ===== *)
theory Prelude
  imports Main "HOL-Library.AList" "HOL-Library.Multiset" "HOL-Library.Word"
begin

text \<open>
  Shared vocabulary of the development: how a failed run-time check of the source is a
  value, how a component that reacts to events is run over a list of them, and the two
  interfaces every event-driven component is an instance of. The generic lemmas on
  association lists and words that several components use are collected here too.
\<close>

named_theorems component_defs \<open>definitions a component unfolds to compute its steps\<close>

section \<open>Failed checks are values\<close>

text \<open>
  \<open>CHECK\<close>, \<open>DCHECK\<close>, \<open>SkASSERT\<close>, \<open>tor_assert\<close> and \<open>NOTREACHED\<close> stop the program. The model
  returns the name of the check that failed in the left summand instead.
\<close>

datatype check_failure = DCheckFailed string | CheckFailed string | NotReached string

type_synonym 'a checked = "check_failure + 'a"

definition bindE :: "'a checked \<Rightarrow> ('a \<Rightarrow> 'b checked) \<Rightarrow> 'b checked" where
  "bindE m f = (case m of Inl x \<Rightarrow> Inl x | Inr a \<Rightarrow> f a)"

definition dcheck :: "bool \<Rightarrow> string \<Rightarrow> 'a checked \<Rightarrow> 'a checked" where
  "dcheck b what k = (if b then k else Inl (DCheckFailed what))"

definition check :: "bool \<Rightarrow> string \<Rightarrow> 'a checked \<Rightarrow> 'a checked" where
  "check b what k = (if b then k else Inl (CheckFailed what))"

lemma bindE_simps [simp]:
  "bindE (Inl x) f = Inl x"
  "bindE (Inr a) f = f a"
  by (simp_all add: bindE_def)

lemma bindE_Inr_iff: "bindE m f = Inr b \<longleftrightarrow> (\<exists>a. m = Inr a \<and> f a = Inr b)"
  by (cases m) auto

lemma dcheck_simps [simp]:
  "dcheck True what k = k"
  "dcheck False what k = Inl (DCheckFailed what)"
  by (simp_all add: dcheck_def)

lemma check_simps [simp]:
  "check True what k = k"
  "check False what k = Inl (CheckFailed what)"
  by (simp_all add: check_def)

lemma dcheck_Inr_iff: "dcheck b what k = Inr a \<longleftrightarrow> b \<and> k = Inr a"
  by (simp add: dcheck_def)

lemma check_Inr_iff: "check b what k = Inr a \<longleftrightarrow> b \<and> k = Inr a"
  by (simp add: check_def)

lemmas checked_iffs = bindE_Inr_iff dcheck_Inr_iff check_Inr_iff

section \<open>Unsigned words next to their successor and predecessor\<close>

lemma word_le_pred_iff: "w \<noteq> 0 \<Longrightarrow> x \<le> w - 1 \<longleftrightarrow> x < (w :: 'a::len word)"
  by unat_arith

lemma word_less_succ_iff: "w + 1 \<noteq> 0 \<Longrightarrow> x < w + 1 \<longleftrightarrow> x \<le> (w :: 'a::len word)"
  by unat_arith

lemma word_pred_less: "w \<noteq> 0 \<Longrightarrow> w - 1 < (w :: 'a::len word)"
  by unat_arith

section \<open>Components driven by events\<close>

text \<open>
  A component is a step function from a state and an event to a failed check or the next
  state with the calls it makes on its surroundings, in order. \<open>run\<close> feeds it a list of
  events; \<open>admissible\<close> says that each event respects what the surroundings promise when it
  is delivered; \<open>reach\<close> are the states some admissible sequence leads to.
\<close>

fun run :: "('s \<Rightarrow> 'e \<Rightarrow> ('s \<times> 'o list) checked) \<Rightarrow> 's \<Rightarrow> 'e list \<Rightarrow> ('s \<times> 'o list) checked" where
  "run step s [] = Inr (s, [])"
| "run step s (e # es) =
     bindE (step s e) (\<lambda>(s', out). bindE (run step s' es) (\<lambda>(s'', out'). Inr (s'', out @ out')))"

fun admissible ::
    "('s \<Rightarrow> 'e \<Rightarrow> ('s \<times> 'o list) checked) \<Rightarrow> ('s \<Rightarrow> 'e \<Rightarrow> bool) \<Rightarrow> 's \<Rightarrow> 'e list \<Rightarrow> bool" where
  "admissible step en s [] = True"
| "admissible step en s (e # es) =
     (en s e \<and> (case step s e of Inl _ \<Rightarrow> True | Inr (s', _) \<Rightarrow> admissible step en s' es))"

inductive reach ::
    "('s \<Rightarrow> 'e \<Rightarrow> ('s \<times> 'o list) checked) \<Rightarrow> ('s \<Rightarrow> 'e \<Rightarrow> bool) \<Rightarrow> 's \<Rightarrow> 's \<Rightarrow> bool"
  for step en s0 where
  reach_init: "reach step en s0 s0"
| reach_step: "reach step en s0 s \<Longrightarrow> en s e \<Longrightarrow> step s e = Inr (s', out) \<Longrightarrow> reach step en s0 s'"

lemma run_Cons_Inr:
  "run step s (e # es) = Inr (t, out) \<longleftrightarrow>
     (\<exists>s' out1 out2. step s e = Inr (s', out1) \<and> run step s' es = Inr (t, out2) \<and> out = out1 @ out2)"
  by (auto simp: bindE_Inr_iff split: prod.splits)

lemma run_append:
  "run step s (es @ fs) =
     bindE (run step s es) (\<lambda>(s', out). bindE (run step s' fs) (\<lambda>(s'', out'). Inr (s'', out @ out')))"
proof (induction es arbitrary: s)
  case Nil
  show ?case by (cases "run step s fs") auto
next
  case (Cons e es)
  show ?case
    by (cases "step s e") (auto simp: Cons bindE_def split: sum.splits)
qed

lemma admissible_run_reach:
  assumes "admissible step en s es" and "run step s es = Inr (t, out)" and "reach step en s0 s"
  shows "reach step en s0 t"
  using assms
proof (induction es arbitrary: s out)
  case Nil
  then show ?case by simp
next
  case (Cons e es)
  from Cons.prems(2) obtain s' o1 o2 where st: "step s e = Inr (s', o1)"
    and rest: "run step s' es = Inr (t, o2)"
    unfolding run_Cons_Inr by blast
  from Cons.prems(1) st have "en s e" and adm: "admissible step en s' es" by auto
  with Cons.prems(3) st have "reach step en s0 s'" by (blast intro: reach_step)
  with adm rest show ?case by (rule Cons.IH)
qed

lemma admissible_append:
  "admissible step en s (es @ fs) \<longleftrightarrow> admissible step en s es \<and>
     (case run step s es of Inl _ \<Rightarrow> True | Inr (t, _) \<Rightarrow> admissible step en t fs)"
proof (induction es arbitrary: s)
  case Nil
  show ?case by simp
next
  case (Cons e es)
  show ?case
    by (cases "step s e") (auto simp: Cons bindE_def split: sum.splits)
qed

text \<open>
  The first interface: an invariant under which no check fails and which every enabled
  step keeps. A client gets the whole run from it.
\<close>

locale safe_machine =
  fixes step :: "'s \<Rightarrow> 'e \<Rightarrow> ('s \<times> 'o list) checked"
    and en :: "'s \<Rightarrow> 'e \<Rightarrow> bool"
    and inv :: "'s \<Rightarrow> bool"
  assumes step_safe: "inv s \<Longrightarrow> en s e \<Longrightarrow> \<exists>s' out. step s e = Inr (s', out) \<and> inv s'"
begin

lemma run_safe:
  "inv s \<Longrightarrow> admissible step en s es \<Longrightarrow> \<exists>t out. run step s es = Inr (t, out) \<and> inv t"
proof (induction es arbitrary: s)
  case Nil
  then show ?case by simp
next
  case (Cons e es)
  from Cons.prems have "en s e" by simp
  with Cons.prems(1) obtain s' out where st: "step s e = Inr (s', out)" and "inv s'"
    using step_safe by blast
  moreover from Cons.prems(2) st have "admissible step en s' es" by simp
  ultimately obtain t out' where "run step s' es = Inr (t, out')" "inv t"
    using Cons.IH by blast
  with st show ?case by simp
qed

lemma step_inv: "inv s \<Longrightarrow> en s e \<Longrightarrow> step s e = Inr (s', out) \<Longrightarrow> inv s'"
  using step_safe by fastforce

lemma reach_inv: "reach step en s0 s \<Longrightarrow> inv s0 \<Longrightarrow> inv s"
  by (induction rule: reach.induct) (auto intro: step_inv)

lemma reach_no_failure: "reach step en s0 s \<Longrightarrow> inv s0 \<Longrightarrow> en s e \<Longrightarrow> step s e \<noteq> Inl x"
  using reach_inv step_safe by fastforce

end

text \<open>
  The second interface, for a component that holds on to work items: what it held plus what
  an event brings is, in order, what the step puts out followed by what it still holds. Over
  a run nothing is lost, duplicated or reordered.
\<close>

locale fifo_machine = safe_machine step en inv
  for step :: "'s \<Rightarrow> 'e \<Rightarrow> ('s \<times> 'o list) checked"
    and en :: "'s \<Rightarrow> 'e \<Rightarrow> bool"
    and inv :: "'s \<Rightarrow> bool" +
  fixes held :: "'s \<Rightarrow> 'x list"
    and brought :: "'e \<Rightarrow> 'x list"
    and released :: "'o list \<Rightarrow> 'x list"
  assumes released_Nil: "released [] = []"
    and released_append: "released (o1 @ o2) = released o1 @ released o2"
    and step_fifo: "inv s \<Longrightarrow> en s e \<Longrightarrow> step s e = Inr (s', out) \<Longrightarrow>
      held s @ brought e = released out @ held s'"
begin

lemma run_fifo:
  "inv s \<Longrightarrow> admissible step en s es \<Longrightarrow> run step s es = Inr (t, out) \<Longrightarrow>
     held s @ concat (map brought es) = released out @ held t"
proof (induction es arbitrary: s out)
  case Nil
  then show ?case by (simp add: released_Nil)
next
  case (Cons e es)
  from Cons.prems(3) obtain s' o1 o2 where st: "step s e = Inr (s', o1)"
    and rest: "run step s' es = Inr (t, o2)" and out: "out = o1 @ o2"
    unfolding run_Cons_Inr by blast
  from Cons.prems(2) st have en: "en s e" and adm: "admissible step en s' es" by auto
  have "inv s'" using Cons.prems(1) en st by (rule step_inv)
  then have tail: "held s' @ concat (map brought es) = released o2 @ held t"
    using adm rest by (rule Cons.IH)
  have "held s @ brought e = released o1 @ held s'"
    using Cons.prems(1) en st by (rule step_fifo)
  with tail show ?case by (simp add: out released_append flip: append_assoc) (metis append_assoc)
qed

end

text \<open>
  The third interface, for resources whose order does not matter: what a component owned, plus
  what an event hands over and what the step acquires, is what the step gives up plus what the
  component owns afterwards.
\<close>

locale balanced_machine = safe_machine step en inv
  for step :: "'s \<Rightarrow> 'e \<Rightarrow> ('s \<times> 'o list) checked"
    and en :: "'s \<Rightarrow> 'e \<Rightarrow> bool"
    and inv :: "'s \<Rightarrow> bool" +
  fixes owned :: "'s \<Rightarrow> 'x multiset"
    and handed :: "'e \<Rightarrow> 'x multiset"
    and acquired :: "'o list \<Rightarrow> 'x multiset"
    and given_up :: "'o list \<Rightarrow> 'x multiset"
  assumes acquired_additive: "acquired (o1 @ o2) = acquired o1 + acquired o2" "acquired [] = {#}"
    and given_up_additive: "given_up (o1 @ o2) = given_up o1 + given_up o2" "given_up [] = {#}"
    and step_balance: "inv s \<Longrightarrow> en s e \<Longrightarrow> step s e = Inr (s', out) \<Longrightarrow>
      owned s + handed e + acquired out = given_up out + owned s'"
begin

lemma run_balance:
  "inv s \<Longrightarrow> admissible step en s es \<Longrightarrow> run step s es = Inr (t, out) \<Longrightarrow>
     owned s + sum_list (map handed es) + acquired out = given_up out + owned t"
proof (induction es arbitrary: s out)
  case Nil
  then show ?case by (simp add: acquired_additive given_up_additive)
next
  case (Cons e es)
  from Cons.prems(3) obtain s' o1 o2 where st: "step s e = Inr (s', o1)"
    and rest: "run step s' es = Inr (t, o2)" and out: "out = o1 @ o2"
    unfolding run_Cons_Inr by blast
  from Cons.prems(2) st have en: "en s e" and adm: "admissible step en s' es" by auto
  have "inv s'" using Cons.prems(1) en st by (rule step_inv)
  then have tail: "owned s' + sum_list (map handed es) + acquired o2 = given_up o2 + owned t"
    using adm rest by (rule Cons.IH)
  have "owned s + handed e + acquired o1 = given_up o1 + owned s'"
    using Cons.prems(1) en st by (rule step_balance)
  from arg_cong2 [where f = "(+)", OF this tail] show ?case
    by (simp add: out acquired_additive given_up_additive ac_simps)
qed

end

end
