(* ===== verification/Net_Error.thy ===== *)
theory Net_Error
  imports Prelude
begin

text \<open>
  The network error codes the sources name. \<open>net/base/net_errors.h\<close> is not part of the
  repository: its codes are distinct integers, of which the sources compare and return the
  ones below; \<open>ERR_OTHER\<close> stands for every other code.
\<close>

datatype net_error =
    NET_OK
  | ERR_IO_PENDING
  | ERR_UNKNOWN_URL_SCHEME
  | ERR_SSL_PROTOCOL_ERROR
  | ERR_INVALID_AUTH_CREDENTIALS
  | ERR_HTTP_RESPONSE_CODE_FAILURE
  | ERR_BLOCKED_BY_LOCAL_NETWORK_ACCESS_CHECKS
  | ERR_NETWORK_ACCESS_REVOKED
  | ERR_INTERNET_DISCONNECTED
  | ERR_NAME_NOT_RESOLVED
  | ERR_DNS_NAME_HTTPS_ONLY
  | ERR_INSUFFICIENT_RESOURCES
  | ERR_INVALID_ARGUMENT
  | ERR_NOT_IMPLEMENTED
  | ERR_NETWORK_CHANGED
  | ERR_OTHER int

section \<open>Time spans\<close>

text \<open>
  \<open>base::TimeDelta\<close> counts microseconds; the constructors \<open>base::Seconds\<close> and
  \<open>base::Minutes\<close> the sources call scale their argument. Spans are ordered by length.
\<close>

datatype time_delta = Microseconds (microseconds: int)

definition Seconds :: "int \<Rightarrow> time_delta" where
  "Seconds n = Microseconds (n * 1000000)"

definition Minutes :: "int \<Rightarrow> time_delta" where
  "Minutes n = Seconds (n * 60)"

instantiation time_delta :: linorder
begin

definition less_eq_time_delta :: "time_delta \<Rightarrow> time_delta \<Rightarrow> bool" where
  "a \<le> b \<longleftrightarrow> microseconds a \<le> microseconds b"

definition less_time_delta :: "time_delta \<Rightarrow> time_delta \<Rightarrow> bool" where
  "a < b \<longleftrightarrow> microseconds a < microseconds b"

instance
  by standard (auto simp: less_eq_time_delta_def less_time_delta_def time_delta.expand)

end

lemma Seconds_le [simp]: "Seconds a \<le> Seconds b \<longleftrightarrow> a \<le> b"
  by (simp add: Seconds_def less_eq_time_delta_def)

lemma Seconds_less [simp]: "Seconds a < Seconds b \<longleftrightarrow> a < b"
  by (simp add: Seconds_def less_time_delta_def)

lemma Seconds_eq [simp]: "Seconds a = Seconds b \<longleftrightarrow> a = b"
  by (simp add: Seconds_def)

lemma Minutes_Seconds: "Minutes n = Seconds (n * 60)"
  by (simp add: Minutes_def)

end
