(* ===== verification/Auto_Reloader.thy ===== *)
theory Auto_Reloader
  imports Net_Error "HOL-Library.Word"
begin

text \<open>
  \<open>src/muim/error_loader.cpp\<close>: \<open>NetErrorAutoReloader\<close> reloads a tab that shows a network
  error page, with growing delays, while the tab is visible and the machine online, and
  suppresses an error page that would repeat the one on screen.

  The class is the record \<open>reloader\<close>; the tab it observes (its visibility, the throttles
  attached to its navigations) is the record \<open>tab\<close> around it. Every observer method is a
  definition of its name, and \<open>tab_step\<close> delivers one notification of the content layer to
  the method that handles it. The one-shot timer keeps its \<open>optional\<close> engaged after it has
  fired, as in the code. The number of reloads is a 64-bit \<open>size_t\<close>, which wraps. What the content
  layer knows (error classes, URL schemes, the connection when a reloader is constructed) is
  the parameter \<open>net_classes\<close>.
\<close>

section \<open>Data\<close>

type_synonym size_t = "64 word"

datatype visibility = HIDDEN | OCCLUDED | VISIBLE

datatype connection_type = CONNECTION_NONE | CONNECTION_OTHER nat

datatype reload_type = RELOAD_NONE | RELOAD_OTHER nat

record nav_handle =
  handle_id :: nat
  is_in_primary_main_frame :: bool
  has_committed :: bool
  net_error_code :: net_error
  is_error_page :: bool
  is_post :: bool
  handle_url :: string
  is_secure_network_error :: bool
  get_reload_type :: reload_type

record net_classes =
  is_certificate_error :: "net_error \<Rightarrow> bool"
  is_client_certificate_error :: "net_error \<Rightarrow> bool"
  is_request_blocked_error :: "net_error \<Rightarrow> bool"
  scheme_is_http_or_https :: "string \<Rightarrow> bool"
  initially_online :: bool
  known_connection :: "connection_type option"

record error_page_info =
  info_url :: string
  info_error :: net_error

datatype timer = TimerRunning time_delta | TimerFired

record reloader =
  pending_navigations :: "(nat \<times> bool) list"
  current_info :: "error_page_info option"
  next_reload_timer :: "timer option"
  num_reloads :: size_t
  auto_reload_in_progress :: bool
  is_online :: bool
  connection_tracker :: bool

datatype throttle_action = PROCEED | CANCEL

datatype throttle = Armed | Consumed

record tab =
  visibility_of :: visibility
  observer :: reloader
  throttles :: "(nat \<times> throttle) list"

datatype call =
    Reload
  | AddObserver
  | RemoveObserver
  | AddThrottle nat
  | ThrottleResult nat throttle_action

datatype notification =
    DidStart nav_handle
  | DidFinish nav_handle
  | Stopped
  | VisibilityChanged visibility
  | ConnectionChanged connection_type
  | InitialConnectionType connection_type
  | TimerFires
  | RegisterThrottles nav_handle
  | RequestFails nav_handle
  | DisableObservation

section \<open>Which errors are reloaded, and when\<close>

definition ShouldAutoReload :: "net_classes \<Rightarrow> nav_handle \<Rightarrow> bool checked" where
  "ShouldAutoReload E h =
     dcheck (has_committed h) ''HasCommitted''
       (let e = net_error_code h in
        Inr (is_error_page h
             \<and> e \<noteq> NET_OK \<and> \<not> is_post h
             \<and> e \<noteq> ERR_UNKNOWN_URL_SCHEME
             \<and> \<not> is_certificate_error E e
             \<and> \<not> is_client_certificate_error E e
             \<and> e \<noteq> ERR_SSL_PROTOCOL_ERROR
             \<and> \<not> is_request_blocked_error E e
             \<and> e \<noteq> ERR_INVALID_AUTH_CREDENTIALS
             \<and> scheme_is_http_or_https E (handle_url h)
             \<and> \<not> is_secure_network_error h
             \<and> e \<noteq> ERR_HTTP_RESPONSE_CODE_FAILURE
             \<and> e \<noteq> ERR_BLOCKED_BY_LOCAL_NETWORK_ACCESS_CHECKS
             \<and> e \<noteq> ERR_NETWORK_ACCESS_REVOKED))"

definition kDelays :: "time_delta list" where
  "kDelays = [Seconds 1, Seconds 5, Seconds 30, Minutes 1, Minutes 5, Minutes 10, Minutes 30]"

definition GetNextReloadDelay :: "size_t \<Rightarrow> time_delta" where
  "GetNextReloadDelay reload_count = kDelays ! unat (min reload_count (word_of_nat (length kDelays) - 1))"

section \<open>The methods of the class\<close>

definition IsWebContentsVisible :: "visibility \<Rightarrow> bool" where
  "IsWebContentsVisible v \<longleftrightarrow> v \<noteq> HIDDEN"

definition Reset :: "reloader \<Rightarrow> reloader" where
  "Reset s = s\<lparr>next_reload_timer := None, num_reloads := 0,
               auto_reload_in_progress := False, current_info := None\<rparr>"

definition PauseAutoReloadTimerIfRunning :: "reloader \<Rightarrow> reloader" where
  "PauseAutoReloadTimerIfRunning s = s\<lparr>next_reload_timer := None\<rparr>"

definition ScheduleNextAutoReload :: "visibility \<Rightarrow> reloader \<Rightarrow> reloader checked" where
  "ScheduleNextAutoReload v s =
     dcheck (current_info s \<noteq> None) ''current_reloadable_error_page_info_''
       (if \<not> is_online s \<or> \<not> IsWebContentsVisible v then Inr s
        else Inr (s\<lparr>next_reload_timer := Some (TimerRunning (GetNextReloadDelay (num_reloads s)))\<rparr>))"

definition ResumeAutoReloadIfPaused :: "visibility \<Rightarrow> reloader \<Rightarrow> reloader checked" where
  "ResumeAutoReloadIfPaused v s =
     (if current_info s \<noteq> None \<and> next_reload_timer s = None
      then ScheduleNextAutoReload v s else Inr s)"

definition ReloadMainFrame :: "visibility \<Rightarrow> reloader \<Rightarrow> (reloader \<times> call list) checked" where
  "ReloadMainFrame v s =
     dcheck (current_info s \<noteq> None) ''current_reloadable_error_page_info_''
       (if \<not> is_online s \<or> \<not> IsWebContentsVisible v then Inr (s, [])
        else Inr (s\<lparr>num_reloads := num_reloads s + 1, auto_reload_in_progress := True\<rparr>, [Reload]))"

definition DidStartNavigation :: "reloader \<Rightarrow> nav_handle \<Rightarrow> reloader" where
  "DidStartNavigation s h =
     (if \<not> is_in_primary_main_frame h then s
      else let s1 = PauseAutoReloadTimerIfRunning s in
        (if map_of (pending_navigations s1) (handle_id h) = None
         then s1\<lparr>pending_navigations := (handle_id h, False) # pending_navigations s1\<rparr>
         else s1))"

definition DidFinishNavigation ::
    "net_classes \<Rightarrow> visibility \<Rightarrow> reloader \<Rightarrow> nav_handle \<Rightarrow> reloader checked" where
  "DidFinishNavigation E v s h =
     (if \<not> is_in_primary_main_frame h then Inr s
      else
        let suppressed = (map_of (pending_navigations s) (handle_id h) = Some True);
            s1 = s\<lparr>pending_navigations := AList.delete (handle_id h) (pending_navigations s)\<rparr>
        in if \<not> has_committed h then
             (if pending_navigations s1 \<noteq> [] \<or> current_info s1 = None then Inr s1
              else let s2 = s1\<lparr>auto_reload_in_progress := False\<rparr> in
                if suppressed then ScheduleNextAutoReload v s2 else Inr s2)
           else bindE (ShouldAutoReload E h) (\<lambda>should.
             if \<not> should then Inr (Reset s1)
             else
               let err = net_error_code h;
                   fresh = (get_reload_type h = RELOAD_NONE \<or>
                     (case current_info s1 of None \<Rightarrow> True | Some i \<Rightarrow> err \<noteq> info_error i));
                   s2 = (if fresh
                         then (Reset s1)\<lparr>current_info :=
                                Some \<lparr>info_url = handle_url h, info_error = err\<rparr>\<rparr>
                         else s1)
               in if pending_navigations s2 = [] then ScheduleNextAutoReload v s2 else Inr s2))"

definition NavigationStopped :: "reloader \<Rightarrow> reloader" where
  "NavigationStopped s = Reset s"

definition OnVisibilityChanged :: "visibility \<Rightarrow> reloader \<Rightarrow> reloader checked" where
  "OnVisibilityChanged v s =
     (if \<not> IsWebContentsVisible v then Inr (PauseAutoReloadTimerIfRunning s)
      else if pending_navigations s = [] then ResumeAutoReloadIfPaused v s
      else Inr s)"

definition OnConnectionChanged :: "visibility \<Rightarrow> reloader \<Rightarrow> connection_type \<Rightarrow> reloader checked" where
  "OnConnectionChanged v s c =
     (let s1 = s\<lparr>is_online := (c \<noteq> CONNECTION_NONE)\<rparr> in
      if \<not> is_online s1 then Inr (PauseAutoReloadTimerIfRunning s1)
      else if pending_navigations s1 = [] then ResumeAutoReloadIfPaused v s1
      else Inr s1)"

definition SetInitialConnectionType ::
    "visibility \<Rightarrow> reloader \<Rightarrow> connection_type \<Rightarrow> reloader checked" where
  "SetInitialConnectionType v s c =
     (if connection_tracker s then OnConnectionChanged v s c else Inr s)"

definition DisableConnectionChangeObservationForTesting :: "reloader \<Rightarrow> reloader \<times> call list" where
  "DisableConnectionChangeObservationForTesting s =
     (if connection_tracker s then (s\<lparr>connection_tracker := False\<rparr>, [RemoveObserver]) else (s, []))"

definition ShouldSuppressErrorPage :: "reloader \<Rightarrow> nav_handle \<Rightarrow> (reloader \<times> bool) checked" where
  "ShouldSuppressErrorPage s h =
     dcheck (map_of (pending_navigations s) (handle_id h) \<noteq> None) ''pending_navigations_.contains''
       (case current_info s of
          None \<Rightarrow> Inr (s, False)
        | Some i \<Rightarrow>
            (if info_url i \<noteq> handle_url h \<or> info_error i \<noteq> net_error_code h then Inr (s, False)
             else Inr (s\<lparr>pending_navigations :=
                         AList.update (handle_id h) True (pending_navigations s)\<rparr>, True)))"

definition MaybeCreateAndAdd :: "reloader \<Rightarrow> nav_handle \<Rightarrow> bool checked" where
  "MaybeCreateAndAdd s h =
     dcheck (is_in_primary_main_frame h) ''IsInPrimaryMainFrame''
       (case current_info s of
          None \<Rightarrow> Inr False
        | Some i \<Rightarrow> Inr (info_url i = handle_url h \<and> auto_reload_in_progress s))"

text \<open>
  Constructor and destructor. The header's initialiser of \<open>is_online_\<close> is the parameter
  \<open>online0\<close>; \<open>conn\<close> is the connection type when the tracker knows it at once.
\<close>

definition new_reloader ::
    "bool \<Rightarrow> visibility \<Rightarrow> connection_type option \<Rightarrow> (reloader \<times> call list) checked" where
  "new_reloader online0 v conn =
     (let s = \<lparr>pending_navigations = [], current_info = None, next_reload_timer = None,
               num_reloads = 0, auto_reload_in_progress = False, is_online = online0,
               connection_tracker = True\<rparr>
      in bindE (case conn of None \<Rightarrow> Inr s | Some c \<Rightarrow> SetInitialConnectionType v s c)
           (\<lambda>s'. Inr (s', [AddObserver])))"

definition delete_reloader :: "reloader \<Rightarrow> call list" where
  "delete_reloader s = (if connection_tracker s then [RemoveObserver] else [])"

text \<open>
  \<open>CreateForWebContents\<close> is the content library's: as its documentation has it, it constructs the
  reloader of a tab that has none, with the class's own constructor, and does nothing to a tab
  that has one.
\<close>

definition CreateForWebContents ::
    "net_classes \<Rightarrow> visibility \<Rightarrow> reloader option \<Rightarrow> (reloader \<times> call list) checked" where
  "CreateForWebContents E v so =
     (case so of Some s \<Rightarrow> Inr (s, []) | None \<Rightarrow> new_reloader (initially_online E) v (known_connection E))"

definition MaybeCreateAndAddNavigationThrottle ::
    "net_classes \<Rightarrow> visibility \<Rightarrow> reloader option \<Rightarrow> nav_handle \<Rightarrow>
     (reloader option \<times> call list) checked" where
  "MaybeCreateAndAddNavigationThrottle E v so h =
     (if \<not> is_in_primary_main_frame h then Inr (so, [])
      else bindE (CreateForWebContents E v so) (\<lambda>(s, out).
        bindE (MaybeCreateAndAdd s h) (\<lambda>add.
          Inr (Some s, out @ (if add then [AddThrottle (handle_id h)] else [])))))"

text \<open>\<open>IgnoreDuplicateErrorThrottle\<close>: its callback runs once and is gone afterwards.\<close>

definition WillFailRequest ::
    "throttle \<Rightarrow> reloader \<Rightarrow> nav_handle \<Rightarrow> (throttle \<times> reloader \<times> throttle_action) checked" where
  "WillFailRequest t s h =
     dcheck (t = Armed) ''should_suppress_''
       (bindE (ShouldSuppressErrorPage s h) (\<lambda>(s', b).
          Inr (Consumed, s', if b then CANCEL else PROCEED)))"

section \<open>The tab: one notification at a time\<close>

definition set_observer :: "tab \<Rightarrow> reloader \<Rightarrow> tab" where
  "set_observer w s = w\<lparr>observer := s\<rparr>"

fun tab_step :: "net_classes \<Rightarrow> tab \<Rightarrow> notification \<Rightarrow> (tab \<times> call list) checked" where
  "tab_step E w (DidStart h) = Inr (set_observer w (DidStartNavigation (observer w) h), [])"
| "tab_step E w (DidFinish h) =
     bindE (DidFinishNavigation E (visibility_of w) (observer w) h) (\<lambda>s.
       Inr ((set_observer w s)\<lparr>throttles := AList.delete (handle_id h) (throttles w)\<rparr>, []))"
| "tab_step E w Stopped = Inr (set_observer w (NavigationStopped (observer w)), [])"
| "tab_step E w (VisibilityChanged v) =
     bindE (OnVisibilityChanged v (observer w)) (\<lambda>s.
       Inr ((set_observer w s)\<lparr>visibility_of := v\<rparr>, []))"
| "tab_step E w (ConnectionChanged c) =
     bindE (OnConnectionChanged (visibility_of w) (observer w) c) (\<lambda>s. Inr (set_observer w s, []))"
| "tab_step E w (InitialConnectionType c) =
     bindE (SetInitialConnectionType (visibility_of w) (observer w) c) (\<lambda>s.
       Inr (set_observer w s, []))"
| "tab_step E w TimerFires =
     bindE (ReloadMainFrame (visibility_of w) ((observer w)\<lparr>next_reload_timer := Some TimerFired\<rparr>))
       (\<lambda>(s, out). Inr (set_observer w s, out))"
| "tab_step E w (RegisterThrottles h) =
     bindE (MaybeCreateAndAddNavigationThrottle E (visibility_of w) (Some (observer w)) h) (\<lambda>(so, out).
       Inr ((case so of Some s \<Rightarrow> set_observer w s | None \<Rightarrow> w)\<lparr>throttles :=
              (if AddThrottle (handle_id h) \<in> set out then [(handle_id h, Armed)] else []) @ throttles w\<rparr>,
            out))"
| "tab_step E w (RequestFails h) =
     (case map_of (throttles w) (handle_id h) of
        None \<Rightarrow> Inr (w, [])
      | Some t \<Rightarrow>
          bindE (WillFailRequest t (observer w) h) (\<lambda>(t', s, act).
            Inr ((set_observer w s)\<lparr>throttles := AList.update (handle_id h) t' (throttles w)\<rparr>,
                 [ThrottleResult (handle_id h) act])))"
| "tab_step E w DisableObservation =
     (case DisableConnectionChangeObservationForTesting (observer w) of
        (s, out) \<Rightarrow> Inr (set_observer w s, out))"

text \<open>Registering throttles on a tab that has its reloader only adds the throttle it calls for.\<close>

lemma set_observer_same [simp]: "set_observer w (observer w) = w"
  by (simp add: set_observer_def)

lemma register_step:
  "tab_step E w (RegisterThrottles h) =
     bindE (if is_in_primary_main_frame h then MaybeCreateAndAdd (observer w) h else Inr False) (\<lambda>add.
       Inr (if add then (w\<lparr>throttles := (handle_id h, Armed) # throttles w\<rparr>, [AddThrottle (handle_id h)])
            else (w, [])))"
  by (cases "MaybeCreateAndAdd (observer w) h")
    (simp_all add: MaybeCreateAndAddNavigationThrottle_def CreateForWebContents_def)

declare tab_step.simps(8) [simp del] register_step [simp]

text \<open>
  What the content layer promises: a navigation starts once, its throttles are registered
  and asked at most once while it is pending, the timer fires only while it runs, and
  connection changes reach registered observers only.
\<close>

fun tab_enabled :: "tab \<Rightarrow> notification \<Rightarrow> bool" where
  "tab_enabled w (DidStart h) \<longleftrightarrow> handle_id h \<notin> fst ` set (pending_navigations (observer w))"
| "tab_enabled w TimerFires \<longleftrightarrow>
     (case next_reload_timer (observer w) of Some (TimerRunning _) \<Rightarrow> True | _ \<Rightarrow> False)"
| "tab_enabled w (RegisterThrottles h) \<longleftrightarrow>
     handle_id h \<notin> fst ` set (throttles w) \<and>
     (is_in_primary_main_frame h \<longrightarrow> handle_id h \<in> fst ` set (pending_navigations (observer w)))"
| "tab_enabled w (RequestFails h) \<longleftrightarrow> map_of (throttles w) (handle_id h) \<noteq> Some Consumed"
| "tab_enabled w (ConnectionChanged c) \<longleftrightarrow> connection_tracker (observer w)"
| "tab_enabled w _ \<longleftrightarrow> True"

definition new_tab :: "visibility \<Rightarrow> reloader \<Rightarrow> tab" where
  "new_tab v s = \<lparr>visibility_of = v, observer = s, throttles = []\<rparr>"


section \<open>The delays\<close>

lemma kDelays_length: "length kDelays = 7"
  by (simp add: kDelays_def)

lemma kDelays_sorted: "sorted kDelays"
  by (simp add: kDelays_def Minutes_Seconds)

lemma kDelays_bounds: "d \<in> set kDelays \<Longrightarrow> Seconds 1 \<le> d \<and> d \<le> Minutes 30"
  by (auto simp: kDelays_def Minutes_Seconds)

lemma unat_below_7: "n \<le> 6 \<Longrightarrow> unat (n :: size_t) < 7"
  by (simp add: word_le_nat_alt)

lemma delay_index: "unat (min n (word_of_nat (length kDelays) - 1 :: size_t)) < length kDelays"
proof -
  have "min n 6 \<le> (6 :: size_t)" by simp
  then have "unat (min n 6) \<le> unat (6 :: size_t)" by (simp only: word_le_nat_alt)
  then show ?thesis by (simp add: kDelays_length)
qed

text \<open>
  The back-off: every delay lies between one second and half an hour, delays never
  shrink as reloads accumulate, strictly grow over the first six reloads and are constant
  from then on.
\<close>

theorem reload_delay_backoff:
  "(\<forall>n. Seconds 1 \<le> GetNextReloadDelay n \<and> GetNextReloadDelay n \<le> Minutes 30) \<and>
   mono GetNextReloadDelay \<and>
   strict_mono_on {0..6} GetNextReloadDelay \<and>
   (\<forall>n \<ge> 6. GetNextReloadDelay n = Minutes 30)"
proof (intro conjI allI impI)
  fix n :: size_t
  show "Seconds 1 \<le> GetNextReloadDelay n" "GetNextReloadDelay n \<le> Minutes 30"
    using kDelays_bounds [OF nth_mem [OF delay_index]] by (simp_all add: GetNextReloadDelay_def)
next
  fix n :: size_t
  assume "6 \<le> n"
  then have "min n 6 = 6" by simp
  then show "GetNextReloadDelay n = Minutes 30"
    by (simp add: GetNextReloadDelay_def kDelays_def)
next
  show "mono GetNextReloadDelay"
    unfolding GetNextReloadDelay_def
    by (rule monoI, rule sorted_nth_mono [OF kDelays_sorted _ delay_index])
      (simp only: word_le_nat_alt [symmetric] min.mono)
next
  have "sorted_wrt (<) kDelays" by (simp add: kDelays_def Minutes_Seconds)
  then show "strict_mono_on {0..6} GetNextReloadDelay"
    by (intro strict_mono_onI)
      (auto simp: GetNextReloadDelay_def kDelays_length sorted_wrt_iff_nth_less unat_mono unat_below_7)
qed

section \<open>The invariant\<close>

definition reloader_inv :: "visibility \<Rightarrow> reloader \<Rightarrow> bool" where
  "reloader_inv v s \<longleftrightarrow>
     distinct (map fst (pending_navigations s)) \<and>
     (next_reload_timer s \<noteq> None \<longrightarrow>
        current_info s \<noteq> None \<and> is_online s \<and> IsWebContentsVisible v \<and> pending_navigations s = []) \<and>
     (\<forall>d. next_reload_timer s = Some (TimerRunning d) \<longrightarrow> d = GetNextReloadDelay (num_reloads s)) \<and>
     (current_info s = None \<longrightarrow> num_reloads s = 0) \<and>
     (auto_reload_in_progress s \<longrightarrow> current_info s \<noteq> None)"

definition tab_inv :: "tab \<Rightarrow> bool" where
  "tab_inv w \<longleftrightarrow> reloader_inv (visibility_of w) (observer w) \<and>
     fst ` set (throttles w) \<subseteq> fst ` set (pending_navigations (observer w))"

lemmas reloader_methods [component_defs] =
  Reset_def PauseAutoReloadTimerIfRunning_def ScheduleNextAutoReload_def ResumeAutoReloadIfPaused_def
  ReloadMainFrame_def DidStartNavigation_def DidFinishNavigation_def NavigationStopped_def
  OnVisibilityChanged_def OnConnectionChanged_def SetInitialConnectionType_def
  DisableConnectionChangeObservationForTesting_def ShouldSuppressErrorPage_def MaybeCreateAndAdd_def
  MaybeCreateAndAddNavigationThrottle_def CreateForWebContents_def WillFailRequest_def ShouldAutoReload_def set_observer_def

lemma map_of_eq_None_fst: "map_of xs k = None \<longleftrightarrow> k \<notin> fst ` set xs"
  by (simp add: map_of_eq_None_iff)

lemma schedule_safe:
  assumes "reloader_inv v s" and "current_info s \<noteq> None" and "pending_navigations s = []"
  shows "\<exists>s'. ScheduleNextAutoReload v s = Inr s' \<and> reloader_inv v s' \<and>
           pending_navigations s' = pending_navigations s"
  using assms by (auto simp: ScheduleNextAutoReload_def reloader_inv_def)

lemma resume_safe:
  assumes "reloader_inv v s" and "pending_navigations s = []"
  shows "\<exists>s'. ResumeAutoReloadIfPaused v s = Inr s' \<and> reloader_inv v s' \<and>
           pending_navigations s' = pending_navigations s"
  using assms schedule_safe [of v s] by (auto simp: ResumeAutoReloadIfPaused_def)

lemma reset_inv: "distinct (map fst (pending_navigations s)) \<Longrightarrow> reloader_inv v (Reset s)"
  by (simp add: reloader_inv_def Reset_def)

lemma pause_inv: "reloader_inv v s \<Longrightarrow> reloader_inv v' (PauseAutoReloadTimerIfRunning s)"
  by (simp add: reloader_inv_def PauseAutoReloadTimerIfRunning_def)

lemma start_inv: "reloader_inv v s \<Longrightarrow> reloader_inv v (DidStartNavigation s h)"
  by (auto simp: DidStartNavigation_def PauseAutoReloadTimerIfRunning_def reloader_inv_def
      map_of_eq_None_fst Let_def)

lemma visibility_safe:
  assumes "reloader_inv u s"
  shows "\<exists>s'. OnVisibilityChanged v s = Inr s' \<and> reloader_inv v s' \<and>
           pending_navigations s' = pending_navigations s"
proof (cases "IsWebContentsVisible v")
  case False
  with assms show ?thesis
    by (auto simp: OnVisibilityChanged_def intro: pause_inv)
      (simp add: PauseAutoReloadTimerIfRunning_def)
next
  case True
  with assms have "reloader_inv v s" by (auto simp: reloader_inv_def)
  with True resume_safe [of v s] show ?thesis by (auto simp: OnVisibilityChanged_def)
qed

lemma connection_safe:
  assumes "reloader_inv v s"
  shows "\<exists>s'. OnConnectionChanged v s c = Inr s' \<and> reloader_inv v s' \<and>
           pending_navigations s' = pending_navigations s"
proof (cases "c = CONNECTION_NONE")
  case True
  with assms show ?thesis
    by (simp add: OnConnectionChanged_def reloader_inv_def PauseAutoReloadTimerIfRunning_def)
next
  case False
  let ?s = "s\<lparr>is_online := True\<rparr>"
  from assms have "reloader_inv v ?s" by (auto simp: reloader_inv_def)
  with False resume_safe [of v ?s] show ?thesis by (auto simp: OnConnectionChanged_def Let_def)
qed

lemma pending_delete_inv:
  assumes "reloader_inv v s"
  shows "reloader_inv v (s\<lparr>pending_navigations := AList.delete k (pending_navigations s)\<rparr>)"
  using assms by (auto simp: reloader_inv_def distinct_delete)

lemma finish_safe:
  assumes "reloader_inv v s"
  shows "\<exists>s'. DidFinishNavigation E v s h = Inr s' \<and> reloader_inv v s' \<and>
           pending_navigations s' =
             (if is_in_primary_main_frame h
              then AList.delete (handle_id h) (pending_navigations s) else pending_navigations s)"
proof (cases "is_in_primary_main_frame h")
  case False
  with assms show ?thesis by (simp add: DidFinishNavigation_def)
next
  case True
  define s1 where "s1 = s\<lparr>pending_navigations := AList.delete (handle_id h) (pending_navigations s)\<rparr>"
  have s1: "reloader_inv v s1" unfolding s1_def using assms by (rule pending_delete_inv)
  have sched: "\<exists>s'. ScheduleNextAutoReload v t = Inr s' \<and> reloader_inv v s' \<and>
      pending_navigations s' = pending_navigations s1"
    if "reloader_inv v t" "current_info t \<noteq> None" "pending_navigations t = []"
      "pending_navigations t = pending_navigations s1" for t
    using schedule_safe that by metis
  show ?thesis
  proof (cases "has_committed h")
    case False
    let ?t = "s1\<lparr>auto_reload_in_progress := False\<rparr>"
    have "DidFinishNavigation E v s h =
        (if pending_navigations s1 \<noteq> [] \<or> current_info s1 = None then Inr s1
         else if map_of (pending_navigations s) (handle_id h) = Some True
              then ScheduleNextAutoReload v ?t else Inr ?t)"
      using True False by (simp add: DidFinishNavigation_def Let_def s1_def)
    moreover have "reloader_inv v ?t" using s1 by (auto simp: reloader_inv_def)
    moreover note sched [of ?t]
    ultimately show ?thesis using s1 True by (auto simp: s1_def)
  next
    case committed: True
    then obtain b where b: "ShouldAutoReload E h = Inr b" by (simp add: ShouldAutoReload_def Let_def)
    define i where "i = \<lparr>info_url = handle_url h, info_error = net_error_code h\<rparr>"
    define fresh where "fresh \<longleftrightarrow> get_reload_type h = RELOAD_NONE \<or>
      (case current_info s1 of None \<Rightarrow> True | Some j \<Rightarrow> net_error_code h \<noteq> info_error j)"
    define t where "t = (if fresh then (Reset s1)\<lparr>current_info := Some i\<rparr> else s1)"
    have eq: "DidFinishNavigation E v s h =
        (if \<not> b then Inr (Reset s1)
         else if pending_navigations t = [] then ScheduleNextAutoReload v t else Inr t)"
      using True committed
      by (simp add: DidFinishNavigation_def Let_def b t_def fresh_def i_def s1_def)
    have reset: "reloader_inv v (Reset s1)" "pending_navigations (Reset s1) = pending_navigations s1"
      using s1 by (auto intro: reset_inv simp: reloader_inv_def) (simp_all add: Reset_def)
    have t: "reloader_inv v t" "current_info t \<noteq> None" "pending_navigations t = pending_navigations s1"
      using s1 reset by (auto simp: t_def fresh_def reloader_inv_def Reset_def split: option.splits)
    show ?thesis
      using eq reset t sched [OF t(1,2) _ t(3)] True
      by (cases "b"; cases "pending_navigations t = []") (auto simp: s1_def)
  qed
qed

lemma suppress_safe:
  assumes "reloader_inv v s" and "handle_id h \<in> fst ` set (pending_navigations s)"
  shows "\<exists>s' b. ShouldSuppressErrorPage s h = Inr (s', b) \<and> reloader_inv v s' \<and>
           fst ` set (pending_navigations s) \<subseteq> fst ` set (pending_navigations s')"
proof -
  let ?s = "s\<lparr>pending_navigations := AList.update (handle_id h) True (pending_navigations s)\<rparr>"
  have "pending_navigations s \<noteq> []" using assms(2) by auto
  with assms(1) have "reloader_inv v ?s" by (auto simp: reloader_inv_def distinct_update)
  moreover have "fst ` set (pending_navigations s) \<subseteq> fst ` set (pending_navigations ?s)"
    by (auto simp: dom_update)
  moreover have "map_of (pending_navigations s) (handle_id h) \<noteq> None"
    using assms(2) by (simp add: map_of_eq_None_fst)
  ultimately show ?thesis
    using assms(1) by (auto simp: ShouldSuppressErrorPage_def split: option.splits)
qed

section \<open>Every notification keeps the invariant and passes its checks\<close>

lemma delete_keys_subset:
  assumes "A \<subseteq> fst ` set ys"
  shows "A - {k} \<subseteq> fst ` set (AList.delete k ys)"
proof -
  have "fst ` set (AList.delete k ys) = fst ` set ys - {k}"
    by (metis delete_keys list.set_map set_removeAll)
  with assms show ?thesis by auto
qed

lemma fst_set_delete: "fst ` set (AList.delete k ys) = fst ` set ys - {k}"
  by (metis delete_keys list.set_map set_removeAll)

lemma finish_step_safe:
  assumes "tab_inv w"
  shows "\<exists>w' out. tab_step E w (DidFinish h) = Inr (w', out) \<and> tab_inv w'"
proof -
  let ?s = "observer w"
  from assms have s: "reloader_inv (visibility_of w) ?s"
    and thr: "fst ` set (throttles w) \<subseteq> fst ` set (pending_navigations ?s)"
    by (auto simp: tab_inv_def)
  from finish_safe [OF s, of E h] obtain s' where
    s': "DidFinishNavigation E (visibility_of w) ?s h = Inr s'" "reloader_inv (visibility_of w) s'"
    and p: "pending_navigations s' =
           (if is_in_primary_main_frame h
            then AList.delete (handle_id h) (pending_navigations ?s) else pending_navigations ?s)"
    by blast
  from p thr have "fst ` set (AList.delete (handle_id h) (throttles w)) \<subseteq> fst ` set (pending_navigations s')"
    unfolding fst_set_delete by (cases "is_in_primary_main_frame h") (simp_all add: fst_set_delete, blast+)
  with s' show ?thesis by (simp add: tab_inv_def set_observer_def)
qed

lemma request_step_safe:
  assumes "tab_inv w" and "tab_enabled w (RequestFails h)"
  shows "\<exists>w' out. tab_step E w (RequestFails h) = Inr (w', out) \<and> tab_inv w'"
proof (cases "map_of (throttles w) (handle_id h)")
  case None
  with assms show ?thesis by simp
next
  case (Some t)
  let ?s = "observer w"
  from assms have s: "reloader_inv (visibility_of w) ?s"
    and thr: "fst ` set (throttles w) \<subseteq> fst ` set (pending_navigations ?s)"
    by (auto simp: tab_inv_def)
  from Some assms(2) have "t = Armed" by (cases t) auto
  have mem: "handle_id h \<in> fst ` set (throttles w)"
    using Some by (metis map_of_eq_None_fst option.distinct(1))
  with thr have "handle_id h \<in> fst ` set (pending_navigations ?s)" by blast
  from suppress_safe [OF s this] obtain s' b where
    s': "ShouldSuppressErrorPage ?s h = Inr (s', b)" "reloader_inv (visibility_of w) s'"
    and sub: "fst ` set (pending_navigations ?s) \<subseteq> fst ` set (pending_navigations s')"
    by blast
  have "fst ` set (AList.update (handle_id h) Consumed (throttles w)) = fst ` set (throttles w)"
    using mem unfolding dom_update by blast
  with thr sub have "fst ` set (AList.update (handle_id h) Consumed (throttles w)) \<subseteq> fst ` set (pending_navigations s')"
    by simp
  with s' Some \<open>t = Armed\<close> show ?thesis by (simp add: WillFailRequest_def tab_inv_def set_observer_def)
qed

lemma tab_step_safe:
  assumes inv: "tab_inv w" and en: "tab_enabled w e"
  shows "\<exists>w' out. tab_step E w e = Inr (w', out) \<and> tab_inv w'"
proof -
  let ?s = "observer w" and ?v = "visibility_of w"
  from inv have s: "reloader_inv ?v ?s"
    and thr: "fst ` set (throttles w) \<subseteq> fst ` set (pending_navigations ?s)"
    by (auto simp: tab_inv_def)
  show ?thesis
  proof (cases e)
    case (DidStart h)
    have "fst ` set (pending_navigations ?s) \<subseteq> fst ` set (pending_navigations (DidStartNavigation ?s h))"
      by (auto simp: DidStartNavigation_def PauseAutoReloadTimerIfRunning_def Let_def)
    with thr start_inv [OF s] DidStart show ?thesis by (auto simp: tab_inv_def set_observer_def)
  next
    case (DidFinish h)
    with finish_step_safe [OF inv] show ?thesis by simp
  next
    case Stopped
    from s have "reloader_inv ?v (NavigationStopped ?s)"
      unfolding NavigationStopped_def by (intro reset_inv) (simp add: reloader_inv_def)
    with thr Stopped show ?thesis by (auto simp: tab_inv_def set_observer_def NavigationStopped_def Reset_def)
  next
    case (VisibilityChanged v)
    from visibility_safe [OF s, of v] thr VisibilityChanged show ?thesis
      by (auto simp: tab_inv_def set_observer_def)
  next
    case (ConnectionChanged c)
    from connection_safe [OF s, of c] thr ConnectionChanged show ?thesis
      by (auto simp: tab_inv_def set_observer_def)
  next
    case (InitialConnectionType c)
    from connection_safe [OF s, of c] s thr InitialConnectionType show ?thesis
      by (auto simp: tab_inv_def set_observer_def SetInitialConnectionType_def)
  next
    case TimerFires
    with en s thr show ?thesis
      by (auto simp: tab_inv_def set_observer_def ReloadMainFrame_def reloader_inv_def
          split: option.splits timer.splits)
  next
    case (RegisterThrottles h)
    with en s thr show ?thesis
      by (auto simp: tab_inv_def MaybeCreateAndAdd_def split: option.splits)
  next
    case (RequestFails h)
    with request_step_safe [OF inv] en show ?thesis by simp
  next
    case DisableObservation
    with s thr show ?thesis
      by (auto simp: tab_inv_def set_observer_def DisableConnectionChangeObservationForTesting_def
          reloader_inv_def)
  qed
qed

interpretation reloader: safe_machine "tab_step E" tab_enabled tab_inv for E
  by unfold_locales (rule tab_step_safe)

lemma new_tab_inv:
  assumes "new_reloader online0 v conn = Inr (s, out)"
  shows "tab_inv (new_tab v s)"
  using assms
  by (auto simp: new_reloader_def new_tab_def tab_inv_def reloader_inv_def checked_iffs
      SetInitialConnectionType_def OnConnectionChanged_def PauseAutoReloadTimerIfRunning_def
      ResumeAutoReloadIfPaused_def Let_def split: option.splits if_splits)

text \<open>
  C1. No check of the class ever fails: from a newly constructed reloader, whatever the
  initial connection state, every admissible sequence of notifications runs to its end, and
  afterwards the pending map has no duplicate, a timer implies an error page on an online,
  visible tab with no navigation in flight, and a running timer has the back-off delay of the
  number of reloads made; without an error page there is no count and no reload in progress.
\<close>

theorem reloader_never_fails_a_check:
  assumes "new_reloader online0 v conn = Inr (s, out)"
    and "admissible (tab_step E) tab_enabled (new_tab v s) es"
  shows "\<exists>w calls. run (tab_step E) (new_tab v s) es = Inr (w, calls) \<and>
           reloader_inv (visibility_of w) (observer w)"
  using reloader.run_safe [OF new_tab_inv [OF assms(1)] assms(2)] by (auto simp: tab_inv_def)

text \<open>
  C36. The tab is never reloaded behind the user's back: in every reachable state, a
  notification that reloads the main frame is the timer firing, with an error page on
  screen, the tab visible, the machine online and no navigation pending; it counts the
  reload.
\<close>

theorem reload_only_when_visible_and_online:
  assumes "new_reloader online0 v conn = Inr (s, out0)"
    and "reach (tab_step E) tab_enabled (new_tab v s) w"
    and "tab_enabled w e" and "tab_step E w e = Inr (w', out)" and "Reload \<in> set out"
  shows "e = TimerFires \<and> current_info (observer w) \<noteq> None \<and> is_online (observer w) \<and>
         visibility_of w \<noteq> HIDDEN \<and> pending_navigations (observer w) = [] \<and>
         num_reloads (observer w') = num_reloads (observer w) + 1"
proof -
  from reloader.reach_inv [OF assms(2) new_tab_inv [OF assms(1)]]
  have inv: "reloader_inv (visibility_of w) (observer w)" by (simp add: tab_inv_def)
  have e: "e = TimerFires"
    using assms(4,5) by (cases e) (auto simp: checked_iffs DisableConnectionChangeObservationForTesting_def
        split: if_splits option.splits)
  with assms(3) have "next_reload_timer (observer w) \<noteq> None" by (auto split: option.splits)
  with inv e assms(4) show ?thesis
    by (auto simp: reloader_inv_def IsWebContentsVisible_def ReloadMainFrame_def checked_iffs
        set_observer_def split: if_splits)
qed

text \<open>
  The first navigation of a tab constructs its reloader, which has no error page yet: it is
  registered with the connection tracker, no throttle is added, and its invariant holds.
\<close>

lemma new_reloader_fields:
  "new_reloader online0 v conn = Inr (s, out) \<Longrightarrow> out = [AddObserver] \<and> current_info s = None"
  by (auto simp: new_reloader_def component_defs checked_iffs Let_def split: option.splits if_splits)

lemma new_reloader_total: "\<exists>s out. new_reloader online0 v conn = Inr (s, out)"
  by (simp add: new_reloader_def component_defs bindE_def Let_def split: option.splits)

theorem first_navigation_creates_the_reloader:
  "\<exists>so out. MaybeCreateAndAddNavigationThrottle E v None h = Inr (so, out) \<and>
     (so = None \<longleftrightarrow> \<not> is_in_primary_main_frame h) \<and>
     out = (if is_in_primary_main_frame h then [AddObserver] else []) \<and>
     (case so of None \<Rightarrow> True | Some s \<Rightarrow> tab_inv (new_tab v s) \<and> current_info s = None)"
proof -
  obtain s out where new: "new_reloader (initially_online E) v (known_connection E) = Inr (s, out)"
    using new_reloader_total by blast
  from new_reloader_fields [OF this] new_tab_inv [OF this] new show ?thesis
    by (auto simp: MaybeCreateAndAddNavigationThrottle_def CreateForWebContents_def MaybeCreateAndAdd_def)
qed

section \<open>A cycle of suppressed reloads\<close>

text \<open>
  The round of notifications of one reload that fails with the same error: the timer fires,
  the reload starts, its throttle is attached and, when the request fails, asks to suppress
  the page; the navigation then finishes without committing.
\<close>

definition failed_reload :: "nav_handle \<Rightarrow> notification list" where
  "failed_reload h = [TimerFires, DidStart h, RegisterThrottles h, RequestFails h, DidFinish h]"

definition same_failure :: "error_page_info \<Rightarrow> nav_handle \<Rightarrow> bool" where
  "same_failure i h \<longleftrightarrow> is_in_primary_main_frame h \<and> \<not> has_committed h \<and>
     handle_url h = info_url i \<and> net_error_code h = info_error i"

definition waiting :: "error_page_info \<Rightarrow> size_t \<Rightarrow> tab \<Rightarrow> bool" where
  "waiting i n w \<longleftrightarrow> throttles w = [] \<and> IsWebContentsVisible (visibility_of w) \<and>
     pending_navigations (observer w) = [] \<and> current_info (observer w) = Some i \<and>
     is_online (observer w) \<and> num_reloads (observer w) = n \<and>
     next_reload_timer (observer w) = Some (TimerRunning (GetNextReloadDelay n))"

lemma failed_reload_cycle:
  assumes "waiting i n w" and "same_failure i h"
  shows "\<exists>w'. run (tab_step E) w (failed_reload h) =
           Inr (w', [Reload, AddThrottle (handle_id h), ThrottleResult (handle_id h) CANCEL]) \<and>
           waiting i (n + 1) w'"
  using assms
  by (simp add: failed_reload_def same_failure_def waiting_def component_defs Let_def bindE_def)

text \<open>
  C14. The back-off over a whole outage: from a tab waiting for its \<open>n\<close>-th reload of an error
  page, a series of reloads that all fail with the error on screen leaves it waiting, with the
  count (a \<open>size_t\<close>, modulo \<open>2 ^ 64\<close>) advanced by the length of the series and the timer set to the matching delay; each
  reload of the series was made once, and each repeated error page was suppressed.
\<close>

theorem outage_backs_off:
  assumes "waiting i n w" and "\<forall>h \<in> set hs. same_failure i h"
  shows "\<exists>w'. run (tab_step E) w (concat (map failed_reload hs)) =
           Inr (w', concat (map (\<lambda>h. [Reload, AddThrottle (handle_id h),
                                      ThrottleResult (handle_id h) CANCEL]) hs)) \<and>
           waiting i (n + word_of_nat (length hs)) w' \<and>
           next_reload_timer (observer w') = Some (TimerRunning (GetNextReloadDelay (n + word_of_nat (length hs))))"
  using assms
proof (induction hs arbitrary: n w)
  case Nil
  then show ?case by (auto simp: waiting_def)
next
  case (Cons h hs)
  from Cons.prems have "same_failure i h" by simp
  from failed_reload_cycle [OF Cons.prems(1) this, of E] obtain w1 where
    one: "run (tab_step E) w (failed_reload h) =
            Inr (w1, [Reload, AddThrottle (handle_id h), ThrottleResult (handle_id h) CANCEL])"
    and "waiting i (n + 1) w1" by blast
  with Cons.IH [of "n + 1" w1] Cons.prems(2) show ?case by (fastforce simp: run_append one add_ac)
qed

text \<open>
  Everything is forgotten when the outage is over: a main-frame navigation that commits to
  anything but a reloadable error page, and a stop by the user, clear the error page, the
  timer, the count and the reload flag, whatever they were; the next error page starts from
  the first delay again.
\<close>

theorem recovery_forgets_the_outage:
  assumes "is_in_primary_main_frame h" and "has_committed h" and "ShouldAutoReload E h = Inr False"
  shows "\<exists>s'. DidFinishNavigation E v s h = Inr s' \<and>
           s' = (NavigationStopped s)\<lparr>pending_navigations :=
                   AList.delete (handle_id h) (pending_navigations s)\<rparr> \<and>
           current_info s' = None \<and> next_reload_timer s' = None \<and> num_reloads s' = 0 \<and>
           \<not> auto_reload_in_progress s'"
  using assms by (simp add: DidFinishNavigation_def NavigationStopped_def Reset_def Let_def)

text \<open>
  An error page is suppressed only if it would repeat the one on screen: the throttle of a
  pending navigation cancels its request exactly when the current error page has the
  navigation's URL and error code, and the navigation is then remembered as suppressed;
  otherwise the request proceeds and the reloader is unchanged.
\<close>

theorem suppressed_iff_repeated:
  assumes "handle_id h \<in> fst ` set (pending_navigations s)"
  shows "\<exists>s' act. WillFailRequest Armed s h = Inr (Consumed, s', act) \<and>
           (act = CANCEL \<longleftrightarrow>
              current_info s = Some \<lparr>info_url = handle_url h, info_error = net_error_code h\<rparr>) \<and>
           (act = CANCEL \<longrightarrow> map_of (pending_navigations s') (handle_id h) = Some True) \<and>
           (act = PROCEED \<longrightarrow> s' = s)"
proof -
  have known: "map_of (pending_navigations s) (handle_id h) \<noteq> None"
    using assms by (simp add: map_of_eq_None_fst)
  show ?thesis
  proof (cases "current_info s")
    case None
    with known show ?thesis by (auto simp: WillFailRequest_def ShouldSuppressErrorPage_def)
  next
    case (Some i)
    then show ?thesis
      using known by (cases i) (auto simp: WillFailRequest_def ShouldSuppressErrorPage_def update_conv')
  qed
qed

text \<open>
  The connection observer is removed as often as it was added: over the life of a
  reloader, from its constructor through any admissible run to its destructor, the tracker
  sees one registration and one removal, even if a test disabled the observation meanwhile.
\<close>

lemma tab_step_removals:
  "tab_step E w e = Inr (w', out) \<Longrightarrow>
     count_list out RemoveObserver + (if connection_tracker (observer w') then 1 else 0) =
       (if connection_tracker (observer w) then 1 else 0) \<and> AddObserver \<notin> set out"
  by (cases e)
    (auto simp: component_defs checked_iffs Let_def split: option.splits if_splits prod.splits)

lemma run_removals:
  "run (tab_step E) w es = Inr (w', out) \<Longrightarrow>
     count_list out RemoveObserver + (if connection_tracker (observer w') then 1 else 0) =
       (if connection_tracker (observer w) then 1 else 0) \<and> AddObserver \<notin> set out"
proof (induction es arbitrary: w out)
  case Nil
  then show ?case by simp
next
  case (Cons e es)
  from Cons.prems obtain w1 o1 o2 where st: "tab_step E w e = Inr (w1, o1)"
    and rest: "run (tab_step E) w1 es = Inr (w', o2)" and out: "out = o1 @ o2"
    unfolding run_Cons_Inr by blast
  from tab_step_removals [OF st] Cons.IH [OF rest] out show ?case by auto
qed

theorem observer_removed_exactly_once:
  assumes "new_reloader online0 v conn = Inr (s, out0)"
    and "run (tab_step E) (new_tab v s) es = Inr (w, out)"
  shows "count_list (out0 @ out @ delete_reloader (observer w)) AddObserver = 1 \<and>
         count_list (out0 @ out @ delete_reloader (observer w)) RemoveObserver = 1"
proof -
  have "out0 = [AddObserver]" "connection_tracker s"
    using assms(1)
    by (auto simp: new_reloader_def component_defs checked_iffs Let_def split: option.splits if_splits)
  with run_removals [OF assms(2)] show ?thesis
    by (auto simp: new_tab_def delete_reloader_def count_list_0_iff)
qed

text \<open>
  The first reload: when a main-frame navigation that is not a reload commits to a
  reloadable error page and no other navigation is pending, its URL and error are recorded, and
  on a visible tab of an online machine a reload is scheduled after one second; otherwise no
  timer runs.
\<close>

theorem new_error_page_schedules_first_reload:
  assumes "is_in_primary_main_frame h" and "has_committed h" and "ShouldAutoReload E h = Inr True"
    and "get_reload_type h = RELOAD_NONE" and "fst ` set (pending_navigations s) \<subseteq> {handle_id h}"
  shows "\<exists>s'. DidFinishNavigation E v s h = Inr s' \<and> pending_navigations s' = [] \<and>
           current_info s' = Some \<lparr>info_url = handle_url h, info_error = net_error_code h\<rparr> \<and>
           num_reloads s' = 0 \<and> \<not> auto_reload_in_progress s' \<and>
           next_reload_timer s' =
             (if is_online s \<and> v \<noteq> HIDDEN then Some (TimerRunning (Seconds 1)) else None)"
proof -
  have "fst ` set (AList.delete (handle_id h) (pending_navigations s)) = {}"
    using assms(5) by (auto simp: fst_set_delete)
  then have "AList.delete (handle_id h) (pending_navigations s) = []" by simp
  with assms(1-4) show ?thesis
    by (simp add: DidFinishNavigation_def ScheduleNextAutoReload_def Reset_def Let_def
        IsWebContentsVisible_def GetNextReloadDelay_def kDelays_def)
qed

section \<open>Concrete runs\<close>

definition ex_classes :: net_classes where
  "ex_classes = \<lparr>is_certificate_error = (\<lambda>e. e = ERR_OTHER (-200)),
     is_client_certificate_error = (\<lambda>e. e = ERR_OTHER (-110)),
     is_request_blocked_error = (\<lambda>e. e = ERR_OTHER (-20)),
     scheme_is_http_or_https = (\<lambda>u. take 4 u = ''http''),
     initially_online = True, known_connection = None\<rparr>"

definition ex_handle :: "nat \<Rightarrow> bool \<Rightarrow> net_error \<Rightarrow> nav_handle" where
  "ex_handle k committed err = \<lparr>handle_id = k, is_in_primary_main_frame = True,
     has_committed = committed, net_error_code = err, is_error_page = (err \<noteq> NET_OK),
     is_post = False, handle_url = ''http://t/'', is_secure_network_error = False,
     get_reload_type = RELOAD_NONE\<rparr>"

definition ex_reloader :: reloader where
  "ex_reloader = \<lparr>pending_navigations = [], current_info = None, next_reload_timer = None,
     num_reloads = 0, auto_reload_in_progress = False, is_online = True,
     connection_tracker = True\<rparr>"

definition ex_events :: "notification list" where
  "ex_events = [DidStart (ex_handle 1 False ERR_INTERNET_DISCONNECTED),
     DidFinish (ex_handle 1 True ERR_INTERNET_DISCONNECTED), TimerFires,
     DidStart (ex_handle 2 False NET_OK), VisibilityChanged HIDDEN]"

definition ex_info :: error_page_info where
  "ex_info = \<lparr>info_url = ''http://t/'', info_error = ERR_INTERNET_DISCONNECTED\<rparr>"

definition ex_waiting :: tab where
  "ex_waiting = new_tab VISIBLE (ex_reloader\<lparr>current_info := Some ex_info,
     next_reload_timer := Some (TimerRunning (GetNextReloadDelay 0))\<rparr>)"

lemmas ex_defs = ex_classes_def ex_handle_def ex_reloader_def ex_events_def ex_info_def
  ex_waiting_def new_tab_def component_defs Let_def bindE_def IsWebContentsVisible_def

lemma ex_constructed:
  "new_reloader True VISIBLE (Some (CONNECTION_OTHER 1)) = Inr (ex_reloader, [AddObserver])"
  by (simp add: new_reloader_def ex_defs)

theorem reloader_never_fails_a_check_witness:
  "\<exists>w calls. run (tab_step ex_classes) (new_tab VISIBLE ex_reloader) ex_events = Inr (w, calls) \<and>
     reloader_inv (visibility_of w) (observer w)"
  by (rule reloader_never_fails_a_check [OF ex_constructed]) (simp add: ex_defs)

lemma ex_reaches_waiting:
  "reach (tab_step ex_classes) tab_enabled (new_tab VISIBLE ex_reloader) ex_waiting"
  by (rule admissible_run_reach [where es = "take 2 ex_events" and out = "[]", OF _ _ reach_init])
    (simp_all add: ex_defs)

lemma ex_waiting_fires:
  "tab_step ex_classes ex_waiting TimerFires =
     Inr (ex_waiting\<lparr>observer := (observer ex_waiting)\<lparr>next_reload_timer := Some TimerFired,
            num_reloads := 1, auto_reload_in_progress := True\<rparr>\<rparr>, [Reload])"
  by (simp add: ex_defs)

theorem reload_only_when_visible_and_online_witness:
  "TimerFires = TimerFires \<and> current_info (observer ex_waiting) \<noteq> None \<and>
   is_online (observer ex_waiting) \<and> visibility_of ex_waiting \<noteq> HIDDEN \<and>
   pending_navigations (observer ex_waiting) = [] \<and>
   num_reloads (observer (ex_waiting\<lparr>observer := (observer ex_waiting)\<lparr>next_reload_timer :=
      Some TimerFired, num_reloads := 1, auto_reload_in_progress := True\<rparr>\<rparr>)) =
     num_reloads (observer ex_waiting) + 1"
  by (rule reload_only_when_visible_and_online [OF ex_constructed ex_reaches_waiting _ ex_waiting_fires])
    (simp_all add: ex_defs)

definition ex_failures :: "nav_handle list" where
  "ex_failures = [ex_handle 2 False ERR_INTERNET_DISCONNECTED, ex_handle 3 False ERR_INTERNET_DISCONNECTED]"

theorem outage_backs_off_witness:
  "\<exists>w'. run (tab_step ex_classes) ex_waiting (concat (map failed_reload ex_failures)) =
        Inr (w', concat (map (\<lambda>h. [Reload, AddThrottle (handle_id h),
                                   ThrottleResult (handle_id h) CANCEL]) ex_failures)) \<and>
        waiting ex_info (0 + word_of_nat (length ex_failures)) w' \<and>
        next_reload_timer (observer w') =
          Some (TimerRunning (GetNextReloadDelay (0 + word_of_nat (length ex_failures))))"
  by (rule outage_backs_off)
    (simp_all add: waiting_def same_failure_def ex_failures_def ex_defs)

theorem recovery_forgets_the_outage_witness:
  "\<exists>s'. DidFinishNavigation ex_classes VISIBLE (observer ex_waiting) (ex_handle 2 True NET_OK) = Inr s' \<and>
     s' = (NavigationStopped (observer ex_waiting))\<lparr>pending_navigations :=
             AList.delete (handle_id (ex_handle 2 True NET_OK))
               (pending_navigations (observer ex_waiting))\<rparr> \<and>
     current_info s' = None \<and> next_reload_timer s' = None \<and> num_reloads s' = 0 \<and>
     \<not> auto_reload_in_progress s'"
  by (rule recovery_forgets_the_outage) (simp_all add: ex_defs)

theorem suppressed_iff_repeated_witness:
  "\<exists>s' act. WillFailRequest Armed ((observer ex_waiting)\<lparr>pending_navigations := [(2, False)]\<rparr>)
              (ex_handle 2 False ERR_INTERNET_DISCONNECTED) = Inr (Consumed, s', act) \<and>
     (act = CANCEL \<longleftrightarrow>
        current_info ((observer ex_waiting)\<lparr>pending_navigations := [(2, False)]\<rparr>) =
          Some \<lparr>info_url = handle_url (ex_handle 2 False ERR_INTERNET_DISCONNECTED),
                info_error = net_error_code (ex_handle 2 False ERR_INTERNET_DISCONNECTED)\<rparr>) \<and>
     (act = CANCEL \<longrightarrow> map_of (pending_navigations s')
        (handle_id (ex_handle 2 False ERR_INTERNET_DISCONNECTED)) = Some True) \<and>
     (act = PROCEED \<longrightarrow> s' = (observer ex_waiting)\<lparr>pending_navigations := [(2, False)]\<rparr>)"
  by (rule suppressed_iff_repeated) (simp add: ex_defs)

theorem observer_removed_exactly_once_witness:
  "count_list ([AddObserver] @ [Reload] @ delete_reloader ((observer ex_waiting)\<lparr>next_reload_timer :=
      None, num_reloads := 1, auto_reload_in_progress := True, pending_navigations := [(2, False)]\<rparr>))
     AddObserver = 1 \<and>
   count_list ([AddObserver] @ [Reload] @ delete_reloader ((observer ex_waiting)\<lparr>next_reload_timer :=
      None, num_reloads := 1, auto_reload_in_progress := True, pending_navigations := [(2, False)]\<rparr>))
     RemoveObserver = 1"
proof -
  let ?w = "ex_waiting\<lparr>visibility_of := HIDDEN, observer := (observer ex_waiting)\<lparr>next_reload_timer := None,
     num_reloads := 1, auto_reload_in_progress := True, pending_navigations := [(2, False)]\<rparr>\<rparr>"
  have "run (tab_step ex_classes) (new_tab VISIBLE ex_reloader) ex_events = Inr (?w, [Reload])"
    by (simp add: ex_defs)
  from observer_removed_exactly_once [OF ex_constructed this] show ?thesis by simp
qed

theorem new_error_page_schedules_first_reload_witness:
  "\<exists>s'. DidFinishNavigation ex_classes VISIBLE (ex_reloader\<lparr>pending_navigations := [(1, False)]\<rparr>)
          (ex_handle 1 True ERR_INTERNET_DISCONNECTED) = Inr s' \<and> pending_navigations s' = [] \<and>
     current_info s' = Some \<lparr>info_url = handle_url (ex_handle 1 True ERR_INTERNET_DISCONNECTED),
        info_error = net_error_code (ex_handle 1 True ERR_INTERNET_DISCONNECTED)\<rparr> \<and>
     num_reloads s' = 0 \<and> \<not> auto_reload_in_progress s' \<and>
     next_reload_timer s' =
       (if is_online (ex_reloader\<lparr>pending_navigations := [(1, False)]\<rparr>) \<and> VISIBLE \<noteq> HIDDEN
        then Some (TimerRunning (Seconds 1)) else None)"
  by (rule new_error_page_schedules_first_reload) (simp_all add: ex_defs)

end
