(* ===== verification/Fence_Helper.thy ===== *)
theory Fence_Helper
  imports Prelude
begin

text \<open>
  \<open>src/app/graphics/vv_helper.cpp\<close>: \<open>VulkanFenceHelper\<close> keeps the clean-up of GPU resources
  until the work that uses them has finished. Tasks wait in \<open>tasks_pending_fence\<close> until a
  fence or an external callback takes them over; each such group has a generation number and
  waits in the queue \<open>cleanup_tasks\<close>; \<open>ProcessCleanupTasks\<close> runs the groups whose work is done,
  oldest first.

  The class is the record \<open>fence_helper\<close>, with its 64-bit generation counters as words. The
  Vulkan driver is the record \<open>driver\<close> of the answers it gives during one call, and the calls
  made on it are the output, in order. What the class's header (not in the repository) says of
  \<open>TasksForFence\<close> and \<open>FenceHandle\<close> is the parameter \<open>fence_header\<close>. Tasks do not call back
  into the helper that runs them.
\<close>

section \<open>Data\<close>

type_synonym vk_handle = "64 word"

definition VK_NULL_HANDLE :: vk_handle where
  "VK_NULL_HANDLE = 0"

datatype vk_result = VK_SUCCESS | VK_NOT_READY | VK_ERROR_DEVICE_LOST | VK_OTHER int

datatype cleanup_task =
    SemaphoresTask "vk_handle list"
  | ImageTask vk_handle vk_handle
  | BufferTask vk_handle vk_handle
  | ClientTask nat

record fence_handle =
  handle_fence :: vk_handle
  handle_generation :: "64 word"

record tasks_for_fence =
  tf_fence :: vk_handle
  generation_id :: "64 word"
  tf_tasks :: "cleanup_task list"

record fence_helper =
  tasks_pending_fence :: "cleanup_task list"
  next_generation :: "64 word"
  current_generation :: "64 word"
  cleanup_tasks :: "tasks_for_fence list"

record fence_header =
  using_callback :: "tasks_for_fence \<Rightarrow> bool"
  default_fence :: vk_handle
  default_generation :: "64 word"

record driver =
  fence_status :: "vk_handle \<Rightarrow> vk_result"
  create_fence :: "vk_result \<times> vk_handle"
  queue_submit :: vk_result
  queue_wait_idle :: vk_result
  wait_for_fences :: vk_result

datatype vk_call =
    CreateFence vk_handle
  | SubmitFence vk_handle
  | DestroyFence vk_handle
  | WaitIdle
  | WaitForFence vk_handle "64 word"
  | RunTask cleanup_task bool

section \<open>Handles and groups\<close>

definition FenceHandle_default :: "fence_header \<Rightarrow> fence_handle" where
  "FenceHandle_default H = \<lparr>handle_fence = default_fence H, handle_generation = default_generation H\<rparr>"

definition FenceHandle :: "vk_handle \<Rightarrow> 64 word \<Rightarrow> fence_handle" where
  "FenceHandle fence gen = \<lparr>handle_fence = fence, handle_generation = gen\<rparr>"

definition TasksForFence :: "fence_handle \<Rightarrow> cleanup_task list \<Rightarrow> tasks_for_fence" where
  "TasksForFence handle ts =
     \<lparr>tf_fence = handle_fence handle, generation_id = handle_generation handle, tf_tasks = ts\<rparr>"

definition TasksForFence_callback ::
    "fence_header \<Rightarrow> 64 word \<Rightarrow> cleanup_task list \<Rightarrow> tasks_for_fence" where
  "TasksForFence_callback H gen ts =
     \<lparr>tf_fence = default_fence H, generation_id = gen, tf_tasks = ts\<rparr>"

section \<open>Enqueueing\<close>

definition EnqueueCleanupTaskForSubmittedWork :: "fence_helper \<Rightarrow> cleanup_task \<Rightarrow> fence_helper" where
  "EnqueueCleanupTaskForSubmittedWork s t =
     s\<lparr>tasks_pending_fence := tasks_pending_fence s @ [t]\<rparr>"

definition EnqueueSemaphoresCleanupForSubmittedWork ::
    "fence_helper \<Rightarrow> vk_handle list \<Rightarrow> fence_helper" where
  "EnqueueSemaphoresCleanupForSubmittedWork s semaphores =
     (if semaphores = [] then s
      else EnqueueCleanupTaskForSubmittedWork s (SemaphoresTask semaphores))"

definition EnqueueSemaphoreCleanupForSubmittedWork :: "fence_helper \<Rightarrow> vk_handle \<Rightarrow> fence_helper" where
  "EnqueueSemaphoreCleanupForSubmittedWork s semaphore =
     (if semaphore = VK_NULL_HANDLE then s
      else EnqueueSemaphoresCleanupForSubmittedWork s [semaphore])"

definition EnqueueImageCleanupForSubmittedWork ::
    "fence_helper \<Rightarrow> vk_handle \<Rightarrow> vk_handle \<Rightarrow> fence_helper" where
  "EnqueueImageCleanupForSubmittedWork s img memory =
     (if img = VK_NULL_HANDLE \<and> memory = VK_NULL_HANDLE then s
      else EnqueueCleanupTaskForSubmittedWork s (ImageTask img memory))"

definition EnqueueBufferCleanupForSubmittedWork ::
    "fence_helper \<Rightarrow> vk_handle \<Rightarrow> vk_handle \<Rightarrow> fence_helper checked" where
  "EnqueueBufferCleanupForSubmittedWork s buffer allocation =
     (if buffer = VK_NULL_HANDLE \<and> allocation = VK_NULL_HANDLE then Inr s
      else dcheck (buffer \<noteq> VK_NULL_HANDLE) ''buffer != VK_NULL_HANDLE''
        (dcheck (allocation \<noteq> VK_NULL_HANDLE) ''allocation != VK_NULL_HANDLE''
          (Inr (EnqueueCleanupTaskForSubmittedWork s (BufferTask buffer allocation)))))"

text \<open>What a task does to the device when it runs.\<close>

datatype device_call =
    DestroySemaphore vk_handle
  | DestroyImage vk_handle
  | FreeMemory vk_handle
  | VmaDestroyBuffer vk_handle vk_handle
  | ClientCode nat bool

fun task_calls :: "cleanup_task \<Rightarrow> bool \<Rightarrow> device_call list" where
  "task_calls (SemaphoresTask semaphores) lost = map DestroySemaphore semaphores"
| "task_calls (ImageTask img memory) lost =
     (if img \<noteq> VK_NULL_HANDLE then [DestroyImage img] else []) @
     (if memory \<noteq> VK_NULL_HANDLE then [FreeMemory memory] else [])"
| "task_calls (BufferTask buffer allocation) lost = [VmaDestroyBuffer buffer allocation]"
| "task_calls (ClientTask n) lost = [ClientCode n lost]"

definition EnqueueFence :: "fence_helper \<Rightarrow> vk_handle \<Rightarrow> fence_handle \<times> fence_helper" where
  "EnqueueFence s fence =
     (let handle = FenceHandle fence (next_generation s) in
      (handle,
       s\<lparr>next_generation := next_generation s + 1,
         cleanup_tasks := cleanup_tasks s @ [TasksForFence handle (tasks_pending_fence s)],
         tasks_pending_fence := []\<rparr>))"

section \<open>Running what is done\<close>

definition PerformImmediateCleanup ::
    "driver \<Rightarrow> fence_helper \<Rightarrow> (fence_helper \<times> vk_call list) checked" where
  "PerformImmediateCleanup d s =
     (if cleanup_tasks s = [] \<and> tasks_pending_fence s = [] then Inr (s, [])
      else
        let result = queue_wait_idle d in
        check (result = VK_SUCCESS \<or> result = VK_ERROR_DEVICE_LOST) ''vkQueueWaitIdle''
          (let device_lost = (result = VK_ERROR_DEVICE_LOST);
               tasks_to_run = concat (map tf_tasks (cleanup_tasks s)) @ tasks_pending_fence s
           in Inr (s\<lparr>current_generation := next_generation s - 1, cleanup_tasks := [],
                     tasks_pending_fence := []\<rparr>,
                   WaitIdle # map (\<lambda>t. DestroyFence (tf_fence t)) (cleanup_tasks s) @
                   map (\<lambda>t. RunTask t device_lost) tasks_to_run)))"

text \<open>The first loop: how far the signalled fences reach, \<open>None\<close> if a status query failed.\<close>

fun scan_fences ::
    "fence_header \<Rightarrow> (vk_handle \<Rightarrow> vk_result) \<Rightarrow> 64 word \<Rightarrow> tasks_for_fence list \<Rightarrow> 64 word option" where
  "scan_fences H status retired [] = Some retired"
| "scan_fences H status retired (t # ts) =
     (if using_callback H t then scan_fences H status retired ts
      else case status (tf_fence t) of
          VK_NOT_READY \<Rightarrow> Some (min retired (generation_id t - 1))
        | VK_SUCCESS \<Rightarrow> scan_fences H status (max (generation_id t) retired) ts
        | _ \<Rightarrow> None)"

text \<open>The second loop: pop the groups up to the current generation.\<close>

fun retire ::
    "(vk_handle \<Rightarrow> vk_result) \<Rightarrow> 64 word \<Rightarrow> tasks_for_fence list \<Rightarrow>
       (vk_call list \<times> cleanup_task list \<times> tasks_for_fence list) checked" where
  "retire status current [] = Inr ([], [], [])"
| "retire status current (t # ts) =
     (if generation_id t > current then Inr ([], [], t # ts)
      else dcheck (tf_fence t \<noteq> VK_NULL_HANDLE \<longrightarrow> status (tf_fence t) = VK_SUCCESS)
             ''vkGetFenceStatus == VK_SUCCESS''
             (bindE (retire status current ts) (\<lambda>(calls, to_run, rest).
                Inr ((if tf_fence t \<noteq> VK_NULL_HANDLE then [DestroyFence (tf_fence t)] else []) @ calls,
                     tf_tasks t @ to_run, rest))))"

definition ProcessCleanupTasks ::
    "fence_header \<Rightarrow> driver \<Rightarrow> fence_helper \<Rightarrow> 64 word \<Rightarrow> (fence_helper \<times> vk_call list) checked" where
  "ProcessCleanupTasks H d s retired_generation_id =
     (let retired = (if retired_generation_id = 0 then current_generation s else retired_generation_id)
      in case scan_fences H (fence_status d) retired (cleanup_tasks s) of
           None \<Rightarrow> PerformImmediateCleanup d s
         | Some current \<Rightarrow>
             bindE (retire (fence_status d) current (cleanup_tasks s)) (\<lambda>(calls, to_run, rest).
               Inr (s\<lparr>current_generation := current, cleanup_tasks := rest\<rparr>,
                    calls @ map (\<lambda>t. RunTask t False) to_run)))"

definition HasPassed ::
    "fence_header \<Rightarrow> driver \<Rightarrow> fence_helper \<Rightarrow> fence_handle \<Rightarrow> (bool \<times> fence_helper \<times> vk_call list) checked" where
  "HasPassed H d s handle =
     bindE (ProcessCleanupTasks H d s 0) (\<lambda>(s', calls).
       Inr (current_generation s' \<ge> handle_generation handle, s', calls))"

text \<open>\<open>d1\<close> answers the first look at the fences, \<open>d2\<close> the wait and the second look.\<close>

definition Wait ::
    "fence_header \<Rightarrow> driver \<Rightarrow> driver \<Rightarrow> fence_helper \<Rightarrow> fence_handle \<Rightarrow> 64 word \<Rightarrow>
       (bool \<times> fence_helper \<times> vk_call list) checked" where
  "Wait H d1 d2 s handle timeout =
     bindE (HasPassed H d1 s handle) (\<lambda>(passed, s1, calls1).
       if passed then Inr (True, s1, calls1)
       else bindE (ProcessCleanupTasks H d2 s1 0) (\<lambda>(s2, calls2).
         Inr (wait_for_fences d2 = VK_SUCCESS, s2,
              calls1 @ [WaitForFence (handle_fence handle) timeout] @ calls2)))"

definition GenerateCleanupFence ::
    "fence_header \<Rightarrow> driver \<Rightarrow> fence_helper \<Rightarrow> (fence_handle \<times> fence_helper \<times> vk_call list) checked" where
  "GenerateCleanupFence H d s =
     (if tasks_pending_fence s = [] then Inr (FenceHandle_default H, s, [])
      else if fst (create_fence d) \<noteq> VK_SUCCESS then
        bindE (PerformImmediateCleanup d s) (\<lambda>(s', calls). Inr (FenceHandle_default H, s', calls))
      else let fence = snd (create_fence d) in
        if queue_submit d \<noteq> VK_SUCCESS then
          bindE (PerformImmediateCleanup d s) (\<lambda>(s', calls).
            Inr (FenceHandle_default H, s',
                 [CreateFence fence, SubmitFence fence, DestroyFence fence] @ calls))
        else case EnqueueFence s fence of
            (handle, s') \<Rightarrow> Inr (handle, s', [CreateFence fence, SubmitFence fence]))"

text \<open>The closure returned is represented by the generation it captures.\<close>

definition CreateExternalCallback :: "fence_header \<Rightarrow> fence_helper \<Rightarrow> 64 word option \<times> fence_helper" where
  "CreateExternalCallback H s =
     (if tasks_pending_fence s = [] then (None, s)
      else let gen = next_generation s in
        (Some gen,
         s\<lparr>next_generation := gen + 1,
           cleanup_tasks := cleanup_tasks s @ [TasksForFence_callback H gen (tasks_pending_fence s)],
           tasks_pending_fence := []\<rparr>))"

definition RunExternalCallback ::
    "fence_header \<Rightarrow> driver \<Rightarrow> fence_helper \<Rightarrow> 64 word \<Rightarrow> (fence_helper \<times> vk_call list) checked" where
  "RunExternalCallback H d s gen =
     (if gen > current_generation s then ProcessCleanupTasks H d s gen else Inr (s, []))"

definition Destroy :: "driver \<Rightarrow> fence_helper \<Rightarrow> (fence_helper \<times> vk_call list) checked" where
  "Destroy d s = PerformImmediateCleanup d s"

definition delete_fence_helper :: "fence_helper \<Rightarrow> unit checked" where
  "delete_fence_helper s =
     dcheck (tasks_pending_fence s = []) ''tasks_pending_fence_.empty()''
       (dcheck (cleanup_tasks s = []) ''cleanup_tasks_.empty()'' (Inr ()))"

section \<open>The helper as a machine\<close>

datatype fence_event =
    EvEnqueueTask nat
  | EvEnqueueSemaphore vk_handle
  | EvEnqueueSemaphores "vk_handle list"
  | EvEnqueueImage vk_handle vk_handle
  | EvEnqueueBuffer vk_handle vk_handle
  | EvEnqueueFence vk_handle
  | EvGenerateFence driver
  | EvCreateCallback
  | EvCallbackRuns "64 word" driver
  | EvHasPassed fence_handle driver
  | EvWait fence_handle "64 word" driver driver
  | EvDestroy driver

fun fence_step :: "fence_header \<Rightarrow> fence_helper \<Rightarrow> fence_event \<Rightarrow> (fence_helper \<times> vk_call list) checked" where
  "fence_step H s (EvEnqueueTask n) = Inr (EnqueueCleanupTaskForSubmittedWork s (ClientTask n), [])"
| "fence_step H s (EvEnqueueSemaphore h) = Inr (EnqueueSemaphoreCleanupForSubmittedWork s h, [])"
| "fence_step H s (EvEnqueueSemaphores hs) = Inr (EnqueueSemaphoresCleanupForSubmittedWork s hs, [])"
| "fence_step H s (EvEnqueueImage i m) = Inr (EnqueueImageCleanupForSubmittedWork s i m, [])"
| "fence_step H s (EvEnqueueBuffer b a) =
     bindE (EnqueueBufferCleanupForSubmittedWork s b a) (\<lambda>s'. Inr (s', []))"
| "fence_step H s (EvEnqueueFence f) = Inr (snd (EnqueueFence s f), [])"
| "fence_step H s (EvGenerateFence d) =
     bindE (GenerateCleanupFence H d s) (\<lambda>(_, s', calls). Inr (s', calls))"
| "fence_step H s EvCreateCallback = Inr (snd (CreateExternalCallback H s), [])"
| "fence_step H s (EvCallbackRuns gen d) = RunExternalCallback H d s gen"
| "fence_step H s (EvHasPassed handle d) =
     bindE (HasPassed H d s handle) (\<lambda>(_, s', calls). Inr (s', calls))"
| "fence_step H s (EvWait handle timeout d1 d2) =
     bindE (Wait H d1 d2 s handle timeout) (\<lambda>(_, s', calls). Inr (s', calls))"
| "fence_step H s (EvDestroy d) = Destroy d s"

text \<open>
  What surrounds the helper: fences handed over are real handles, as are those the driver
  creates; \<open>vkQueueWaitIdle\<close> succeeds or the device is lost; a callback runs for a generation that
  was issued; buffers come with their allocation; and fewer than \<open>2 ^ 64 - 1\<close> groups are made.
\<close>

definition driver_ok :: "driver \<Rightarrow> bool" where
  "driver_ok d \<longleftrightarrow> (queue_wait_idle d = VK_SUCCESS \<or> queue_wait_idle d = VK_ERROR_DEVICE_LOST) \<and>
     (fst (create_fence d) = VK_SUCCESS \<longrightarrow> snd (create_fence d) \<noteq> VK_NULL_HANDLE)"

fun fence_enabled :: "fence_helper \<Rightarrow> fence_event \<Rightarrow> bool" where
  "fence_enabled s (EvEnqueueBuffer b a) \<longleftrightarrow> (b = VK_NULL_HANDLE \<longleftrightarrow> a = VK_NULL_HANDLE)"
| "fence_enabled s (EvEnqueueFence f) \<longleftrightarrow> f \<noteq> VK_NULL_HANDLE \<and> next_generation s + 1 \<noteq> 0"
| "fence_enabled s (EvGenerateFence d) \<longleftrightarrow> driver_ok d \<and> next_generation s + 1 \<noteq> 0"
| "fence_enabled s EvCreateCallback \<longleftrightarrow> next_generation s + 1 \<noteq> 0"
| "fence_enabled s (EvCallbackRuns gen d) \<longleftrightarrow> driver_ok d \<and> gen \<noteq> 0 \<and> gen < next_generation s"
| "fence_enabled s (EvHasPassed handle d) \<longleftrightarrow> driver_ok d"
| "fence_enabled s (EvWait handle timeout d1 d2) \<longleftrightarrow> driver_ok d1 \<and> driver_ok d2"
| "fence_enabled s (EvDestroy d) \<longleftrightarrow> driver_ok d"
| "fence_enabled s _ \<longleftrightarrow> True"

definition fence_header_ok :: "fence_header \<Rightarrow> bool" where
  "fence_header_ok H \<longleftrightarrow> (\<forall>t. using_callback H t \<longleftrightarrow> tf_fence t = VK_NULL_HANDLE) \<and>
     default_fence H = VK_NULL_HANDLE"

definition fence_inv :: "fence_helper \<Rightarrow> bool" where
  "fence_inv s \<longleftrightarrow> current_generation s < next_generation s \<and>
     sorted_wrt (<) (map generation_id (cleanup_tasks s)) \<and>
     (\<forall>t \<in> set (cleanup_tasks s). current_generation s < generation_id t \<and>
        generation_id t < next_generation s)"

section \<open>The two loops\<close>

lemma scan_upper:
  "scan_fences H status retired ts = Some k \<Longrightarrow>
     k \<le> retired \<or> (\<exists>u \<in> set ts. k \<le> generation_id u \<and> \<not> using_callback H u \<and>
                      status (tf_fence u) = VK_SUCCESS)"
proof (induction ts arbitrary: retired)
  case Nil
  then show ?case by simp
next
  case (Cons t ts)
  then show ?case
    by (fastforce split: if_splits vk_result.splits simp: max_def min_def)
qed

lemma scan_lower:
  assumes "scan_fences H status retired ts = Some k" and "c \<le> retired"
    and "\<forall>t \<in> set ts. c < generation_id t"
  shows "c \<le> k"
  using assms
proof (induction ts arbitrary: retired)
  case Nil
  then show ?case by simp
next
  case (Cons t ts)
  have c: "c < generation_id t" using Cons.prems(3) by simp
  then have "generation_id t \<noteq> 0" by auto
  with c have "c \<le> generation_id t - 1" by (simp add: word_le_pred_iff)
  with Cons show ?case
    by (auto split: if_splits vk_result.splits simp: max.coboundedI2)
qed

lemma scan_done:
  assumes "scan_fences H status retired ts = Some k"
    and "sorted_wrt (<) (map generation_id ts)" and "\<forall>t \<in> set ts. c < generation_id t"
    and "t \<in> set ts" and "generation_id t \<le> k"
  shows "using_callback H t \<or> status (tf_fence t) = VK_SUCCESS"
  using assms
proof (induction ts arbitrary: retired)
  case Nil
  then show ?case by simp
next
  case (Cons u ts)
  have u: "generation_id u \<noteq> 0" using Cons.prems(3) by auto
  show ?case
  proof (cases "using_callback H u \<or> status (tf_fence u) = VK_SUCCESS")
    case True
    then obtain r where "scan_fences H status r ts = Some k"
      using Cons.prems(1) by (auto split: if_splits)
    with Cons True show ?thesis by auto
  next
    case False
    with Cons.prems(1) have "k \<le> generation_id u - 1"
      by (auto split: vk_result.splits)
    then have "k < generation_id u" using u by (simp add: word_le_pred_iff)
    moreover have "generation_id u \<le> generation_id t" using Cons.prems(2,4) by auto
    ultimately show ?thesis using Cons.prems(5) by simp
  qed
qed

lemma retire_spec:
  assumes "\<forall>t \<in> set ts. generation_id t \<le> c \<longrightarrow> tf_fence t \<noteq> VK_NULL_HANDLE \<longrightarrow>
      status (tf_fence t) = VK_SUCCESS"
  defines "dn \<equiv> takeWhile (\<lambda>t. generation_id t \<le> c) ts"
  shows "retire status c ts = Inr
      (map DestroyFence (filter (\<lambda>f. f \<noteq> VK_NULL_HANDLE) (map tf_fence dn)),
       concat (map tf_tasks dn), dropWhile (\<lambda>t. generation_id t \<le> c) ts)"
  using assms(1) unfolding dn_def
  by (induction ts) (auto simp: not_le)

lemma sorted_dropWhile_gt:
  assumes "sorted_wrt (<) (map generation_id ts)" and "t \<in> set (dropWhile (\<lambda>t. generation_id t \<le> c) ts)"
  shows "c < generation_id t"
  using assms by (induction ts) (auto split: if_splits simp: not_le intro: less_trans)

section \<open>What a step holds, runs and destroys\<close>

definition held_tasks :: "fence_helper \<Rightarrow> cleanup_task list" where
  "held_tasks s = concat (map tf_tasks (cleanup_tasks s)) @ tasks_pending_fence s"

definition tasks_run :: "vk_call list \<Rightarrow> cleanup_task list" where
  "tasks_run out = concat (map (\<lambda>c. case c of RunTask t _ \<Rightarrow> [t] | _ \<Rightarrow> []) out)"

fun tasks_brought :: "fence_event \<Rightarrow> cleanup_task list" where
  "tasks_brought (EvEnqueueTask n) = [ClientTask n]"
| "tasks_brought (EvEnqueueSemaphore h) = (if h = VK_NULL_HANDLE then [] else [SemaphoresTask [h]])"
| "tasks_brought (EvEnqueueSemaphores hs) = (if hs = [] then [] else [SemaphoresTask hs])"
| "tasks_brought (EvEnqueueImage i m) =
     (if i = VK_NULL_HANDLE \<and> m = VK_NULL_HANDLE then [] else [ImageTask i m])"
| "tasks_brought (EvEnqueueBuffer b a) =
     (if b = VK_NULL_HANDLE \<and> a = VK_NULL_HANDLE then [] else [BufferTask b a])"
| "tasks_brought _ = []"

definition real_fences :: "vk_handle list \<Rightarrow> vk_handle multiset" where
  "real_fences fs = mset (filter (\<lambda>f. f \<noteq> VK_NULL_HANDLE) fs)"

definition fences_held :: "fence_helper \<Rightarrow> vk_handle multiset" where
  "fences_held s = real_fences (map tf_fence (cleanup_tasks s))"

definition fences_destroyed :: "vk_call list \<Rightarrow> vk_handle multiset" where
  "fences_destroyed out = real_fences (concat (map (\<lambda>c. case c of DestroyFence f \<Rightarrow> [f] | _ \<Rightarrow> []) out))"

definition fences_created :: "vk_call list \<Rightarrow> vk_handle multiset" where
  "fences_created out = real_fences (concat (map (\<lambda>c. case c of CreateFence f \<Rightarrow> [f] | _ \<Rightarrow> []) out))"

fun fences_handed :: "fence_event \<Rightarrow> vk_handle multiset" where
  "fences_handed (EvEnqueueFence f) = {#f#}"
| "fences_handed _ = {#}"

lemma real_fences_simps [simp]:
  "real_fences [] = {#}"
  "real_fences (f # fs) = (if f = VK_NULL_HANDLE then {#} else {#f#}) + real_fences fs"
  "real_fences (fs @ gs) = real_fences fs + real_fences gs"
  by (auto simp: real_fences_def)

lemma real_fences_filter [simp]:
  "real_fences (filter (\<lambda>f. f \<noteq> VK_NULL_HANDLE) fs) = real_fences fs"
  by (simp add: real_fences_def)

lemma calls_append [simp]:
  "tasks_run (o1 @ o2) = tasks_run o1 @ tasks_run o2"
  "fences_destroyed (o1 @ o2) = fences_destroyed o1 + fences_destroyed o2"
  "fences_created (o1 @ o2) = fences_created o1 + fences_created o2"
  by (simp_all add: tasks_run_def fences_destroyed_def fences_created_def)

lemma calls_Nil [simp]:
  "tasks_run [] = []" "fences_destroyed [] = {#}" "fences_created [] = {#}"
  by (simp_all add: tasks_run_def fences_destroyed_def fences_created_def)

lemma calls_Cons [simp]:
  "tasks_run (c # out) = (case c of RunTask t _ \<Rightarrow> [t] | _ \<Rightarrow> []) @ tasks_run out"
  "fences_destroyed (c # out) =
     real_fences (case c of DestroyFence f \<Rightarrow> [f] | _ \<Rightarrow> []) + fences_destroyed out"
  "fences_created (c # out) =
     real_fences (case c of CreateFence f \<Rightarrow> [f] | _ \<Rightarrow> []) + fences_created out"
  by (simp_all add: tasks_run_def fences_destroyed_def fences_created_def)

lemma calls_RunTask [simp]:
  "tasks_run (map (\<lambda>t. RunTask t l) ts) = ts"
  "fences_destroyed (map (\<lambda>t. RunTask t l) ts) = {#}"
  "fences_created (map (\<lambda>t. RunTask t l) ts) = {#}"
  by (induction ts) auto

lemma calls_DestroyFence [simp]:
  "tasks_run (map DestroyFence fs) = []"
  "fences_destroyed (map DestroyFence fs) = real_fences fs"
  "fences_created (map DestroyFence fs) = {#}"
  by (induction fs) auto

lemma calls_DestroyFence_of [simp]:
  "tasks_run (map (\<lambda>t. DestroyFence (tf_fence t)) ts) = []"
  "fences_destroyed (map (\<lambda>t. DestroyFence (tf_fence t)) ts) = real_fences (map tf_fence ts)"
  "fences_created (map (\<lambda>t. DestroyFence (tf_fence t)) ts) = {#}"
  by (induction ts) auto

text \<open>
  The contract every clean-up pass meets: it keeps the invariant and the issued generations,
  never moves the current generation back, and neither loses nor repeats a task or a fence.
\<close>

definition cleanup_pass :: "fence_helper \<Rightarrow> fence_helper \<times> vk_call list \<Rightarrow> bool" where
  "cleanup_pass s r \<longleftrightarrow> (case r of (s', calls) \<Rightarrow>
     fence_inv s' \<and> next_generation s' = next_generation s \<and>
     current_generation s \<le> current_generation s' \<and>
     held_tasks s = tasks_run calls @ held_tasks s' \<and>
     fences_held s = fences_destroyed calls + fences_held s' \<and> fences_created calls = {#})"

lemma cleanup_pass_trans:
  "cleanup_pass s (s1, c1) \<Longrightarrow> cleanup_pass s1 (s2, c2) \<Longrightarrow> cleanup_pass s (s2, c1 @ c2)"
  by (auto simp: cleanup_pass_def)

lemma immediate_pass:
  assumes "fence_inv s" and "driver_ok d"
  shows "\<exists>r. PerformImmediateCleanup d s = Inr r \<and> cleanup_pass s r \<and>
           cleanup_tasks (fst r) = [] \<and> tasks_pending_fence (fst r) = []"
proof (cases "cleanup_tasks s = [] \<and> tasks_pending_fence s = []")
  case True
  with assms show ?thesis by (simp add: PerformImmediateCleanup_def cleanup_pass_def)
next
  case False
  have n: "next_generation s \<noteq> 0" using assms(1) by (auto simp: fence_inv_def)
  with assms(1) have "current_generation s \<le> next_generation s - 1"
    by (simp add: fence_inv_def word_le_pred_iff)
  with False assms n word_pred_less [OF n] show ?thesis
    by (auto simp: PerformImmediateCleanup_def cleanup_pass_def driver_ok_def fence_inv_def
        held_tasks_def fences_held_def check_def)
qed

definition retired_ok :: "fence_helper \<Rightarrow> 64 word \<Rightarrow> bool" where
  "retired_ok s g \<longleftrightarrow> g = 0 \<or> current_generation s < g \<and> g < next_generation s"

definition start_generation :: "fence_helper \<Rightarrow> 64 word \<Rightarrow> 64 word" where
  "start_generation s g = (if g = 0 then current_generation s else g)"

lemma start_generation_bounds:
  assumes "fence_inv s" and "retired_ok s g"
  shows "current_generation s \<le> start_generation s g" "start_generation s g < next_generation s"
  using assms by (auto simp: start_generation_def retired_ok_def fence_inv_def)

text \<open>What a pass that found no failed fence does, spelled out.\<close>

lemma process_spec:
  assumes inv: "fence_inv s" and H: "fence_header_ok H"
    and scan: "scan_fences H (fence_status d) (start_generation s g) (cleanup_tasks s) = Some k"
  defines "dn \<equiv> takeWhile (\<lambda>t. generation_id t \<le> k) (cleanup_tasks s)"
    and "rest \<equiv> dropWhile (\<lambda>t. generation_id t \<le> k) (cleanup_tasks s)"
  shows "ProcessCleanupTasks H d s g = Inr
    (s\<lparr>current_generation := k, cleanup_tasks := rest\<rparr>,
     map DestroyFence (filter (\<lambda>f. f \<noteq> VK_NULL_HANDLE) (map tf_fence dn)) @
     map (\<lambda>t. RunTask t False) (concat (map tf_tasks dn)))"
proof -
  have "fence_status d (tf_fence t) = VK_SUCCESS"
    if "t \<in> set (cleanup_tasks s)" "generation_id t \<le> k" "tf_fence t \<noteq> VK_NULL_HANDLE" for t
    using scan_done [OF scan _ _ that(1,2), of "current_generation s"] inv H that(3)
    by (auto simp: fence_inv_def fence_header_ok_def)
  then show ?thesis
    using scan retire_spec [of "cleanup_tasks s" k "fence_status d"]
    by (simp add: ProcessCleanupTasks_def start_generation_def dn_def rest_def Let_def)
qed

lemma process_pass:
  assumes inv: "fence_inv s" and H: "fence_header_ok H" and d: "driver_ok d" and g: "retired_ok s g"
  shows "\<exists>r. ProcessCleanupTasks H d s g = Inr r \<and> cleanup_pass s r"
proof (cases "scan_fences H (fence_status d) (start_generation s g) (cleanup_tasks s)")
  case None
  with immediate_pass [OF inv d] show ?thesis
    by (auto simp: ProcessCleanupTasks_def start_generation_def Let_def)
next
  case (Some k)
  define dn where "dn = takeWhile (\<lambda>t. generation_id t \<le> k) (cleanup_tasks s)"
  define rest where "rest = dropWhile (\<lambda>t. generation_id t \<le> k) (cleanup_tasks s)"
  let ?s = "s\<lparr>current_generation := k, cleanup_tasks := rest\<rparr>"
  have split: "cleanup_tasks s = dn @ rest" by (simp add: dn_def rest_def)
  from inv have sorted: "sorted_wrt (<) (map generation_id (cleanup_tasks s))"
    and gens: "\<forall>t \<in> set (cleanup_tasks s). current_generation s < generation_id t \<and>
        generation_id t < next_generation s"
    by (auto simp: fence_inv_def)
  have lower: "current_generation s \<le> k"
    using scan_lower [OF Some start_generation_bounds(1) [OF inv g]] gens by blast
  have upper: "k < next_generation s"
    using scan_upper [OF Some] start_generation_bounds(2) [OF inv g] gens
    by (blast intro: le_less_trans)
  have "sorted_wrt (<) (map generation_id rest)" using sorted by (simp add: split sorted_wrt_append)
  moreover have "\<forall>t \<in> set rest. k < generation_id t"
    using sorted_dropWhile_gt [OF sorted] unfolding rest_def by blast
  moreover have "\<forall>t \<in> set rest. generation_id t < next_generation s" using gens by (simp add: split)
  ultimately have "fence_inv ?s" using upper by (simp add: fence_inv_def)
  moreover have "held_tasks s = concat (map tf_tasks dn) @ held_tasks ?s"
    by (simp add: held_tasks_def split)
  moreover have "fences_held s = real_fences (map tf_fence dn) + fences_held ?s"
    by (simp add: fences_held_def split)
  ultimately show ?thesis
    using process_spec [OF inv H Some] lower by (simp add: cleanup_pass_def flip: dn_def rest_def)
qed

section \<open>Every step is a clean-up pass or an enqueue\<close>

text \<open>One step of the machine in terms of the contracts of its interfaces.\<close>

definition fence_step_ok :: "fence_helper \<Rightarrow> fence_event \<Rightarrow> fence_helper \<times> vk_call list \<Rightarrow> bool" where
  "fence_step_ok s e r \<longleftrightarrow> (case r of (s', calls) \<Rightarrow>
     fence_inv s' \<and> current_generation s \<le> current_generation s' \<and>
     next_generation s \<le> next_generation s' \<and>
     held_tasks s @ tasks_brought e = tasks_run calls @ held_tasks s' \<and>
     fences_held s + fences_handed e + fences_created calls = fences_destroyed calls + fences_held s')"

lemma pass_step_ok:
  assumes "cleanup_pass s r" and "tasks_brought e = []" and "fences_handed e = {#}"
  shows "fence_step_ok s e r"
  using assms by (auto simp: cleanup_pass_def fence_step_ok_def)

lemma enqueue_task_ok:
  "fence_inv s \<Longrightarrow> tasks_brought e = [t] \<Longrightarrow> fences_handed e = {#} \<Longrightarrow>
     fence_step_ok s e (EnqueueCleanupTaskForSubmittedWork s t, [])"
  by (simp add: fence_step_ok_def EnqueueCleanupTaskForSubmittedWork_def fence_inv_def
      held_tasks_def fences_held_def)

lemma enqueue_nothing_ok:
  "fence_inv s \<Longrightarrow> tasks_brought e = [] \<Longrightarrow> fences_handed e = {#} \<Longrightarrow> fence_step_ok s e (s, [])"
  by (simp add: fence_step_ok_def)

lemma new_group_ok:
  fixes s :: fence_helper and f :: vk_handle
  assumes inv: "fence_inv s" and room: "next_generation s + 1 \<noteq> 0"
  defines "s' \<equiv> s\<lparr>next_generation := next_generation s + 1,
      cleanup_tasks := cleanup_tasks s @ [\<lparr>tf_fence = f, generation_id = next_generation s,
        tf_tasks = tasks_pending_fence s\<rparr>], tasks_pending_fence := []\<rparr>"
  shows "fence_inv s' \<and> current_generation s' = current_generation s \<and>
    next_generation s \<le> next_generation s' \<and> held_tasks s' = held_tasks s \<and>
    fences_held s' = fences_held s + real_fences [f]"
proof -
  have "fence_inv s'"
    using inv room unfolding s'_def fence_inv_def
    by (auto simp: sorted_wrt_append word_less_succ_iff intro: less_imp_le)
  moreover have "next_generation s \<le> next_generation s + 1"
    using room by (metis less_imp_le order_refl word_less_succ_iff)
  ultimately show ?thesis by (simp add: s'_def held_tasks_def fences_held_def)
qed

lemma generate_ok:
  assumes inv: "fence_inv s" and H: "fence_header_ok H" and en: "fence_enabled s (EvGenerateFence d)"
  shows "\<exists>r. fence_step H s (EvGenerateFence d) = Inr r \<and> fence_step_ok s (EvGenerateFence d) r"
proof -
  from en have d: "driver_ok d" and room: "next_generation s + 1 \<noteq> 0" by auto
  from immediate_pass [OF inv d] obtain r where
    r: "PerformImmediateCleanup d s = Inr r" "cleanup_pass s r" by blast
  show ?thesis
  proof (cases "tasks_pending_fence s = []")
    case True
    with inv show ?thesis by (simp add: GenerateCleanupFence_def enqueue_nothing_ok)
  next
    case pending: False
    show ?thesis
    proof (cases "fst (create_fence d) = VK_SUCCESS \<and> queue_submit d = VK_SUCCESS")
      case True
      with pending new_group_ok [OF inv room, of "snd (create_fence d)"] d show ?thesis
        by (auto simp: GenerateCleanupFence_def EnqueueFence_def TasksForFence_def FenceHandle_def
            fence_step_ok_def driver_ok_def Let_def)
    next
      case False
      with pending r d show ?thesis
        by (cases r) (auto simp: GenerateCleanupFence_def cleanup_pass_def fence_step_ok_def
            driver_ok_def Let_def)
    qed
  qed
qed

lemma fence_step_safe:
  assumes H: "fence_header_ok H" and inv: "fence_inv s" and en: "fence_enabled s e"
  shows "\<exists>r. fence_step H s e = Inr r \<and> fence_step_ok s e r"
proof (cases e)
  case (EvEnqueueTask n)
  with inv show ?thesis by (simp add: enqueue_task_ok)
next
  case (EvEnqueueSemaphore h)
  with inv show ?thesis
    by (simp add: EnqueueSemaphoreCleanupForSubmittedWork_def EnqueueSemaphoresCleanupForSubmittedWork_def
        enqueue_task_ok enqueue_nothing_ok)
next
  case (EvEnqueueSemaphores hs)
  with inv show ?thesis
    by (simp add: EnqueueSemaphoresCleanupForSubmittedWork_def enqueue_task_ok enqueue_nothing_ok)
next
  case (EvEnqueueImage i m)
  with inv show ?thesis
    by (simp add: EnqueueImageCleanupForSubmittedWork_def enqueue_task_ok enqueue_nothing_ok)
next
  case (EvEnqueueBuffer b a)
  with inv en show ?thesis
    by (cases "b = VK_NULL_HANDLE")
      (simp_all add: EnqueueBufferCleanupForSubmittedWork_def enqueue_task_ok enqueue_nothing_ok)
next
  case (EvEnqueueFence f)
  with en new_group_ok [OF inv, of f] show ?thesis
    by (auto simp: EnqueueFence_def TasksForFence_def FenceHandle_def fence_step_ok_def)
next
  case (EvGenerateFence d)
  with generate_ok [OF inv H] en show ?thesis by blast
next
  case EvCreateCallback
  with en H inv new_group_ok [OF inv, of "default_fence H"] show ?thesis
    by (auto simp: CreateExternalCallback_def TasksForFence_callback_def fence_step_ok_def
        fence_header_ok_def Let_def)
next
  case (EvCallbackRuns g d)
  with process_pass [OF inv H, of d g] en inv show ?thesis
    by (auto simp: RunExternalCallback_def retired_ok_def enqueue_nothing_ok intro!: pass_step_ok)
next
  case (EvHasPassed handle d)
  with process_pass [OF inv H, of d 0] en show ?thesis
    by (auto simp: HasPassed_def retired_ok_def intro!: pass_step_ok)
next
  case (EvWait handle timeout d1 d2)
  with en have d: "driver_ok d1" "driver_ok d2" by auto
  from process_pass [OF inv H d(1), of 0] obtain s1 c1 where
    one: "ProcessCleanupTasks H d1 s 0 = Inr (s1, c1)" "cleanup_pass s (s1, c1)"
    by (auto simp: retired_ok_def)
  then have "fence_inv s1" by (simp add: cleanup_pass_def)
  from process_pass [OF this H d(2), of 0] obtain s2 c2 where
    two: "ProcessCleanupTasks H d2 s1 0 = Inr (s2, c2)" "cleanup_pass s1 (s2, c2)"
    by (auto simp: retired_ok_def)
  have "cleanup_pass s (s2, c1 @ WaitForFence (handle_fence handle) timeout # c2)"
    using cleanup_pass_trans [OF one(2) two(2)] by (simp add: cleanup_pass_def)
  with one two EvWait show ?thesis
    by (auto simp: Wait_def HasPassed_def intro!: pass_step_ok)
next
  case (EvDestroy d)
  with immediate_pass [OF inv, of d] en show ?thesis
    by (auto simp: Destroy_def intro!: pass_step_ok)
qed

section \<open>The helper meets the interfaces\<close>

definition fence_enabled_in :: "fence_header \<Rightarrow> fence_helper \<Rightarrow> fence_event \<Rightarrow> bool" where
  "fence_enabled_in H s e \<longleftrightarrow> fence_header_ok H \<and> fence_enabled s e"

lemma fence_step_contract:
  assumes "fence_inv s" and "fence_enabled_in H s e" and "fence_step H s e = Inr (s', out)"
  shows "fence_step_ok s e (s', out)"
  using fence_step_safe [of H s e] assms by (auto simp: fence_enabled_in_def)

interpretation fences: fifo_machine "fence_step H" "fence_enabled_in H" fence_inv
    held_tasks tasks_brought tasks_run for H
proof unfold_locales
  fix s e
  assume "fence_inv s" and "fence_enabled_in H s e"
  then show "\<exists>s' out. fence_step H s e = Inr (s', out) \<and> fence_inv s'"
    using fence_step_safe [of H s e] by (fastforce simp: fence_enabled_in_def fence_step_ok_def)
next
  fix s e s' out
  assume "fence_inv s" "fence_enabled_in H s e" "fence_step H s e = Inr (s', out)"
  from fence_step_contract [OF this] show "held_tasks s @ tasks_brought e = tasks_run out @ held_tasks s'"
    by (simp add: fence_step_ok_def)
qed simp_all

interpretation fence_stock: balanced_machine "fence_step H" "fence_enabled_in H" fence_inv
    fences_held fences_handed fences_created fences_destroyed for H
proof unfold_locales
  fix s e s' out
  assume "fence_inv s" "fence_enabled_in H s e" "fence_step H s e = Inr (s', out)"
  from fence_step_contract [OF this]
  show "fences_held s + fences_handed e + fences_created out = fences_destroyed out + fences_held s'"
    by (simp add: fence_step_ok_def)
qed simp_all

section \<open>Properties\<close>

text \<open>A helper that holds nothing yet; the header fixes the two counters it starts with.\<close>

definition fresh_helper :: "fence_helper \<Rightarrow> bool" where
  "fresh_helper s \<longleftrightarrow> tasks_pending_fence s = [] \<and> cleanup_tasks s = [] \<and>
     current_generation s < next_generation s"

lemma fresh_helper_inv:
  "fresh_helper s \<Longrightarrow> fence_inv s \<and> held_tasks s = [] \<and> fences_held s = {#}"
  by (auto simp: fresh_helper_def fence_inv_def held_tasks_def fences_held_def)

lemma destroy_empties:
  assumes "fence_inv s" and "driver_ok d" and "Destroy d s = Inr (s', out)"
  shows "cleanup_tasks s' = [] \<and> tasks_pending_fence s' = []"
  using immediate_pass [OF assms(1,2)] assms(3) by (auto simp: Destroy_def)

text \<open>
  C2. Exactly once and in order: over any admissible life of a fence helper, the clean-up tasks
  that have run, followed by those it still holds, are exactly the tasks enqueued, in the order
  they were enqueued; none is lost, run twice or overtaken, whichever of fences, callbacks,
  failed status queries and lost devices triggers the clean-up.
\<close>

theorem tasks_run_once_in_order:
  assumes "fresh_helper s" and "admissible (fence_step H) (fence_enabled_in H) s es"
    and "run (fence_step H) s es = Inr (t, out)"
  shows "tasks_run out @ held_tasks t = concat (map tasks_brought es)"
  using fences.run_fifo [OF _ assms(2,3)] fresh_helper_inv [OF assms(1)] by simp

text \<open>
  C13. A destroyed helper leaves nothing behind: a life that ends with \<open>Destroy\<close> never fails a
  check, has run every task enqueued, has destroyed every fence it was given or created exactly
  once, and passes the checks of the destructor.
\<close>

theorem destroyed_helper_is_clean:
  assumes "fresh_helper s" and "admissible (fence_step H) (fence_enabled_in H) s (es @ [EvDestroy d])"
  shows "\<exists>t out. run (fence_step H) s (es @ [EvDestroy d]) = Inr (t, out) \<and>
           tasks_run out = concat (map tasks_brought es) \<and>
           fences_destroyed out = sum_list (map fences_handed es) + fences_created out \<and>
           delete_fence_helper t = Inr ()"
proof -
  note fresh = fresh_helper_inv [OF assms(1)]
  from fences.run_safe [OF _ assms(2)] fresh obtain t out where
    r: "run (fence_step H) s (es @ [EvDestroy d]) = Inr (t, out)" and t: "fence_inv t" by blast
  then obtain u o1 o2 where u: "run (fence_step H) s es = Inr (u, o1)" "Destroy d u = Inr (t, o2)"
    by (auto simp: run_append checked_iffs)
  have adm: "admissible (fence_step H) (fence_enabled_in H) s es"
    and en: "driver_ok d"
    using assms(2) u(1) by (auto simp: admissible_append fence_enabled_in_def)
  have "fence_inv u" using fences.run_safe [OF _ adm] fresh u(1) by auto
  from destroy_empties [OF this en u(2)] have empty: "held_tasks t = []" "fences_held t = {#}"
    "delete_fence_helper t = Inr ()"
    by (simp_all add: held_tasks_def fences_held_def delete_fence_helper_def)
  with r fences.run_fifo [OF _ assms(2) r] fence_stock.run_balance [OF _ assms(2) r] fresh
  show ?thesis by simp
qed

lemma takeWhile_or_dropWhile:
  "x \<in> set xs \<Longrightarrow> x \<notin> set (dropWhile P xs) \<Longrightarrow> x \<in> set (takeWhile P xs) \<and> P x"
  by (metis Un_iff set_append set_takeWhileD takeWhile_dropWhile_id)

text \<open>A pass that did not wait for the queue to idle came from a scan without errors.\<close>

lemma process_without_idle:
  assumes "fence_inv s" and "fence_header_ok H" and "driver_ok d"
    and "ProcessCleanupTasks H d s g = Inr (s', calls)" and "WaitIdle \<notin> set calls"
    and "cleanup_tasks s \<noteq> []"
  obtains k where "scan_fences H (fence_status d) (start_generation s g) (cleanup_tasks s) = Some k"
proof (cases "scan_fences H (fence_status d) (start_generation s g) (cleanup_tasks s)")
  case None
  with assms(3-6) have False
    by (auto simp: ProcessCleanupTasks_def start_generation_def PerformImmediateCleanup_def
        driver_ok_def check_def Let_def split: if_splits)
  then show ?thesis ..
next
  case (Some k)
  with that show ?thesis by blast
qed

text \<open>
  C8. No use after free on the GPU: a clean-up pass that does not wait for the queue to become
  idle runs the tasks of a prefix of the queue only. Every fence in this prefix has signalled, and
  every group in it is no newer than the generation the callback reported or than some group of
  the queue whose fence has signalled. So a group without a fence, which waits for a callback,
  also runs before its callback reports it when a newer group's fence has signalled: the code
  takes the order of the queue for the order in which the device finishes.
\<close>

theorem tasks_run_only_after_their_work:
  assumes "fence_inv s" and "fence_header_ok H" and "driver_ok d" and "retired_ok s g"
    and "ProcessCleanupTasks H d s g = Inr (s', calls)" and "WaitIdle \<notin> set calls"
  shows "\<exists>dn. cleanup_tasks s = dn @ cleanup_tasks s' \<and> tasks_run calls = concat (map tf_tasks dn) \<and>
     (\<forall>t \<in> set dn. (tf_fence t \<noteq> VK_NULL_HANDLE \<longrightarrow> fence_status d (tf_fence t) = VK_SUCCESS) \<and>
        (generation_id t \<le> g \<or>
         (\<exists>u \<in> set (cleanup_tasks s). generation_id t \<le> generation_id u \<and>
            tf_fence u \<noteq> VK_NULL_HANDLE \<and> fence_status d (tf_fence u) = VK_SUCCESS)))"
proof (cases "cleanup_tasks s = []")
  case True
  with assms(5) show ?thesis by (auto simp: ProcessCleanupTasks_def Let_def)
next
  case False
  from process_without_idle [OF assms(1-3,5,6) False] obtain k where
    k: "scan_fences H (fence_status d) (start_generation s g) (cleanup_tasks s) = Some k" .
  let ?dn = "takeWhile (\<lambda>t. generation_id t \<le> k) (cleanup_tasks s)"
  from process_spec [OF assms(1,2) k] assms(5)
  have split: "cleanup_tasks s = ?dn @ cleanup_tasks s'" "tasks_run calls = concat (map tf_tasks ?dn)"
    by auto
  have "(tf_fence t \<noteq> VK_NULL_HANDLE \<longrightarrow> fence_status d (tf_fence t) = VK_SUCCESS) \<and>
      (generation_id t \<le> g \<or> (\<exists>u \<in> set (cleanup_tasks s). generation_id t \<le> generation_id u \<and>
         tf_fence u \<noteq> VK_NULL_HANDLE \<and> fence_status d (tf_fence u) = VK_SUCCESS))"
    if "t \<in> set ?dn" for t
  proof -
    from that have t: "t \<in> set (cleanup_tasks s)" "generation_id t \<le> k" by (auto dest: set_takeWhileD)
    then have "current_generation s < generation_id t"
      and "using_callback H t \<or> fence_status d (tf_fence t) = VK_SUCCESS"
      using assms(1) scan_done [OF k _ _ t, of "current_generation s"] by (auto simp: fence_inv_def)
    moreover from scan_upper [OF k] have "generation_id t \<le> g \<or> (\<exists>u \<in> set (cleanup_tasks s).
        generation_id t \<le> generation_id u \<and> \<not> using_callback H u \<and>
        fence_status d (tf_fence u) = VK_SUCCESS)"
    proof
      assume "k \<le> start_generation s g"
      with t(2) \<open>current_generation s < generation_id t\<close> show ?thesis
        by (auto simp: start_generation_def split: if_splits)
    next
      assume "\<exists>u \<in> set (cleanup_tasks s). k \<le> generation_id u \<and> \<not> using_callback H u \<and>
        fence_status d (tf_fence u) = VK_SUCCESS"
      with t(2) show ?thesis by (blast intro: order_trans)
    qed
    ultimately show ?thesis using assms(2) by (auto simp: fence_header_ok_def)
  qed
  with split show ?thesis by blast
qed

lemma scan_reaches:
  assumes "scan_fences H status retired ts = Some k"
    and "\<forall>t \<in> set ts. c < generation_id t"
    and "\<forall>t \<in> set ts. generation_id t \<le> g \<longrightarrow> using_callback H t \<or> status (tf_fence t) = VK_SUCCESS"
    and "g \<le> retired \<or> (\<exists>t \<in> set ts. generation_id t = g \<and> \<not> using_callback H t)"
    and "sorted_wrt (<) (map generation_id ts)"
  shows "g \<le> k"
  using assms
proof (induction ts arbitrary: retired)
  case Nil
  then show ?case by simp
next
  case (Cons t ts)
  show ?case
  proof (cases "using_callback H t \<or> status (tf_fence t) = VK_SUCCESS")
    case True
    then consider "using_callback H t" | "\<not> using_callback H t" "status (tf_fence t) = VK_SUCCESS"
      by blast
    then show ?thesis
      by cases (use Cons in \<open>auto simp: max.coboundedI1 max.coboundedI2\<close>)
  next
    case False
    with Cons.prems(1,3) have "k = min retired (generation_id t - 1)" and g: "g < generation_id t"
      by (auto simp: not_le split: vk_result.splits)
    moreover have "g \<le> generation_id t - 1" using g by (subst word_le_pred_iff) auto
    moreover have "g \<le> retired" using Cons.prems(4,5) g by auto
    ultimately show ?thesis by simp
  qed
qed

text \<open>
  C35. Finished work is cleaned up under these conditions: every fence of a group up to generation
  \<open>g\<close> has signalled, no status query of the pass fails, and either the pass is the report of \<open>g\<close> by
  a callback or it reports nothing and \<open>g\<close> is itself the group of a fence. Then one pass returns and
  leaves no group up to \<open>g\<close> in the queue. Nothing is claimed of a signalled fence behind one that has
  not signalled: its group stays.
\<close>

theorem finished_work_is_cleaned_up:
  assumes "fence_inv s" and "fence_header_ok H"
    and "\<forall>t \<in> set (cleanup_tasks s). generation_id t \<le> g \<longrightarrow> tf_fence t \<noteq> VK_NULL_HANDLE \<longrightarrow>
          fence_status d (tf_fence t) = VK_SUCCESS"
    and "\<forall>t \<in> set (cleanup_tasks s). fence_status d (tf_fence t) \<in> {VK_SUCCESS, VK_NOT_READY}"
    and "r = g \<and> g \<noteq> 0 \<or> r = 0 \<and> (\<exists>t \<in> set (cleanup_tasks s). generation_id t = g \<and>
          tf_fence t \<noteq> VK_NULL_HANDLE)"
  shows "\<exists>s' calls. ProcessCleanupTasks H d s r = Inr (s', calls) \<and>
           (\<forall>t \<in> set (cleanup_tasks s'). g < generation_id t)"
proof -
  have "\<exists>k. scan_fences H (fence_status d) q (cleanup_tasks s) = Some k" for q
  proof -
    have "\<exists>k. scan_fences H (fence_status d) q ts = Some k"
      if "\<forall>t \<in> set ts. fence_status d (tf_fence t) \<in> {VK_SUCCESS, VK_NOT_READY}" for ts
      using that by (induction ts arbitrary: q) (auto split: vk_result.splits)
    with assms(4) show ?thesis by blast
  qed
  then obtain k where k: "scan_fences H (fence_status d) (start_generation s r) (cleanup_tasks s) = Some k"
    by blast
  have "g \<le> start_generation s r \<or>
      (\<exists>t \<in> set (cleanup_tasks s). generation_id t = g \<and> \<not> using_callback H t)"
    using assms(2,5) by (auto simp: start_generation_def fence_header_ok_def)
  with scan_reaches [OF k, of "current_generation s" g] assms(1-3) have "g \<le> k"
    by (auto simp: fence_inv_def fence_header_ok_def)
  with process_spec [OF assms(1,2) k] sorted_dropWhile_gt [of "cleanup_tasks s" _ k] assms(1)
  show ?thesis by (fastforce simp: fence_inv_def)
qed

text \<open>
  \<open>HasPassed\<close> tells the truth: it always returns, and for the handle of a group that is in
  the queue it answers true exactly when the pass it makes has taken the group out and run its
  tasks.
\<close>

theorem has_passed_iff_cleaned_up:
  assumes "fence_inv s" and "fence_header_ok H" and "driver_ok d"
    and "t \<in> set (cleanup_tasks s)" and "handle_generation handle = generation_id t"
  shows "\<exists>b s' calls. HasPassed H d s handle = Inr (b, s', calls) \<and>
           (b \<longleftrightarrow> t \<notin> set (cleanup_tasks s')) \<and> (b \<longrightarrow> set (tf_tasks t) \<subseteq> set (tasks_run calls))"
proof -
  from process_pass [OF assms(1-3), of 0] obtain s' calls where
    r: "ProcessCleanupTasks H d s 0 = Inr (s', calls)" and pass: "cleanup_pass s (s', calls)"
    by (auto simp: retired_ok_def)
  have s': "fence_inv s'" using pass by (simp add: cleanup_pass_def)
  have cases: "(cleanup_tasks s' = [] \<and> current_generation s' = next_generation s - 1 \<and>
        tasks_run calls = held_tasks s) \<or>
      (\<exists>k. s' = s\<lparr>current_generation := k, cleanup_tasks := dropWhile (\<lambda>t. generation_id t \<le> k) (cleanup_tasks s)\<rparr> \<and>
        tasks_run calls = concat (map tf_tasks (takeWhile (\<lambda>t. generation_id t \<le> k) (cleanup_tasks s))))"
  proof (cases "scan_fences H (fence_status d) (start_generation s 0) (cleanup_tasks s)")
    case None
    with r assms(3,4) show ?thesis
      by (auto simp: ProcessCleanupTasks_def start_generation_def PerformImmediateCleanup_def
          driver_ok_def held_tasks_def split: if_splits)
  next
    case (Some k)
    from process_spec [OF assms(1,2) Some] r show ?thesis by auto
  qed
  have gen: "current_generation s < generation_id t" "generation_id t < next_generation s"
    using assms(1,4) by (auto simp: fence_inv_def)
  then have "generation_id t \<le> next_generation s - 1"
    by (subst word_le_pred_iff) auto
  then have "current_generation s' \<ge> generation_id t \<longleftrightarrow> t \<notin> set (cleanup_tasks s')"
    using cases s' assms(4) by (auto simp: fence_inv_def not_le dest: takeWhile_or_dropWhile)
  moreover have "set (tf_tasks t) \<subseteq> set (tasks_run calls)" if "t \<notin> set (cleanup_tasks s')"
    using cases
  proof
    assume "cleanup_tasks s' = [] \<and> current_generation s' = next_generation s - 1 \<and>
      tasks_run calls = held_tasks s"
    with assms(4) show ?thesis by (auto simp: held_tasks_def)
  next
    assume "\<exists>k. s' = s\<lparr>current_generation := k, cleanup_tasks :=
        dropWhile (\<lambda>t. generation_id t \<le> k) (cleanup_tasks s)\<rparr> \<and>
      tasks_run calls = concat (map tf_tasks (takeWhile (\<lambda>t. generation_id t \<le> k) (cleanup_tasks s)))"
    then obtain k where k: "cleanup_tasks s' = dropWhile (\<lambda>t. generation_id t \<le> k) (cleanup_tasks s)"
      "tasks_run calls = concat (map tf_tasks (takeWhile (\<lambda>t. generation_id t \<le> k) (cleanup_tasks s)))"
      by auto
    from takeWhile_or_dropWhile [OF assms(4) that [unfolded k(1)]]
    have "t \<in> set (takeWhile (\<lambda>t. generation_id t \<le> k) (cleanup_tasks s))" by blast
    then show ?thesis unfolding k(2) set_concat set_map by blast
  qed
  ultimately show ?thesis using r assms(5) by (simp add: HasPassed_def)
qed

section \<open>Concrete runs\<close>

definition ex_header :: fence_header where
  "ex_header = \<lparr>using_callback = (\<lambda>t. tf_fence t = VK_NULL_HANDLE),
     default_fence = VK_NULL_HANDLE, default_generation = 0\<rparr>"

definition ex_driver :: driver where
  "ex_driver = \<lparr>fence_status = (\<lambda>f. if f = 9 then VK_NOT_READY else VK_SUCCESS),
     create_fence = (VK_SUCCESS, 9), queue_submit = VK_SUCCESS, queue_wait_idle = VK_SUCCESS,
     wait_for_fences = VK_SUCCESS\<rparr>"

definition ex_helper :: fence_helper where
  "ex_helper = \<lparr>tasks_pending_fence = [], next_generation = 1, current_generation = 0,
     cleanup_tasks = []\<rparr>"

definition ex_life :: "fence_event list" where
  "ex_life = [EvEnqueueTask 1, EvEnqueueFence 5, EvEnqueueSemaphores [3, 4], EvCreateCallback,
     EvEnqueueImage 6 0, EvGenerateFence ex_driver, EvCallbackRuns 2 ex_driver]"

definition ex_queue :: fence_helper where
  "ex_queue = \<lparr>tasks_pending_fence = [], next_generation = 4, current_generation = 0,
     cleanup_tasks = [\<lparr>tf_fence = 5, generation_id = 1, tf_tasks = [ClientTask 1]\<rparr>,
       \<lparr>tf_fence = 0, generation_id = 2, tf_tasks = [SemaphoresTask [3, 4]]\<rparr>,
       \<lparr>tf_fence = 9, generation_id = 3, tf_tasks = [ImageTask 6 0]\<rparr>]\<rparr>"

definition ex_after :: fence_helper where
  "ex_after = \<lparr>tasks_pending_fence = [], next_generation = 4, current_generation = 2,
     cleanup_tasks = [\<lparr>tf_fence = 9, generation_id = 3, tf_tasks = [ImageTask 6 0]\<rparr>]\<rparr>"

definition ex_calls :: "vk_call list" where
  "ex_calls = [DestroyFence 5, RunTask (ClientTask 1) False, RunTask (SemaphoresTask [3, 4]) False]"

lemmas fence_methods [component_defs] =
  EnqueueCleanupTaskForSubmittedWork_def EnqueueSemaphoresCleanupForSubmittedWork_def
  EnqueueSemaphoreCleanupForSubmittedWork_def EnqueueImageCleanupForSubmittedWork_def
  EnqueueBufferCleanupForSubmittedWork_def EnqueueFence_def FenceHandle_def TasksForFence_def
  TasksForFence_callback_def FenceHandle_default_def GenerateCleanupFence_def
  CreateExternalCallback_def RunExternalCallback_def ProcessCleanupTasks_def
  PerformImmediateCleanup_def HasPassed_def Wait_def Destroy_def VK_NULL_HANDLE_def

lemmas fence_ex_defs = ex_header_def ex_driver_def ex_helper_def ex_life_def ex_queue_def ex_after_def
  ex_calls_def component_defs Let_def bindE_def fence_enabled_in_def fence_header_ok_def driver_ok_def

lemma ex_fresh: "fresh_helper ex_helper"
  by (simp add: fresh_helper_def fence_ex_defs)

lemma ex_life_admissible:
  "admissible (fence_step ex_header) (fence_enabled_in ex_header) ex_helper (ex_life @ [EvDestroy ex_driver])"
  by (simp add: fence_ex_defs)

lemma ex_life_runs:
  "run (fence_step ex_header) ex_helper ex_life =
     Inr (ex_after, [CreateFence 9, SubmitFence 9] @ ex_calls)"
  by (simp add: fence_ex_defs)

lemma ex_queue_inv: "fence_inv ex_queue"
  by (simp add: fence_inv_def fence_ex_defs)

lemma ex_queue_pass: "ProcessCleanupTasks ex_header ex_driver ex_queue 2 = Inr (ex_after, ex_calls)"
  by (simp add: fence_ex_defs)

theorem tasks_run_once_in_order_witness:
  "tasks_run ([CreateFence 9, SubmitFence 9] @ ex_calls) @ held_tasks ex_after =
     concat (map tasks_brought ex_life)"
  using ex_life_admissible unfolding admissible_append
  by (intro tasks_run_once_in_order [OF ex_fresh _ ex_life_runs]) blast

theorem destroyed_helper_is_clean_witness:
  "\<exists>t out. run (fence_step ex_header) ex_helper (ex_life @ [EvDestroy ex_driver]) = Inr (t, out) \<and>
     tasks_run out = concat (map tasks_brought ex_life) \<and>
     fences_destroyed out = sum_list (map fences_handed ex_life) + fences_created out \<and>
     delete_fence_helper t = Inr ()"
  by (rule destroyed_helper_is_clean [OF ex_fresh ex_life_admissible])

theorem tasks_run_only_after_their_work_witness:
  "\<exists>dn. cleanup_tasks ex_queue = dn @ cleanup_tasks ex_after \<and>
     tasks_run ex_calls = concat (map tf_tasks dn) \<and>
     (\<forall>t \<in> set dn. (tf_fence t \<noteq> VK_NULL_HANDLE \<longrightarrow> fence_status ex_driver (tf_fence t) = VK_SUCCESS) \<and>
        (generation_id t \<le> 2 \<or>
         (\<exists>u \<in> set (cleanup_tasks ex_queue). generation_id t \<le> generation_id u \<and>
            tf_fence u \<noteq> VK_NULL_HANDLE \<and> fence_status ex_driver (tf_fence u) = VK_SUCCESS)))"
  by (rule tasks_run_only_after_their_work [OF ex_queue_inv _ _ _ ex_queue_pass])
    (simp_all add: fence_ex_defs retired_ok_def)

theorem finished_work_is_cleaned_up_witness:
  "\<exists>s' calls. ProcessCleanupTasks ex_header ex_driver ex_queue 2 = Inr (s', calls) \<and>
     (\<forall>t \<in> set (cleanup_tasks s'). 2 < generation_id t)"
  by (rule finished_work_is_cleaned_up [OF ex_queue_inv]) (simp_all add: fence_ex_defs)

theorem has_passed_iff_cleaned_up_witness:
  "\<exists>b s' calls. HasPassed ex_header ex_driver ex_queue \<lparr>handle_fence = 5, handle_generation = 1\<rparr> =
       Inr (b, s', calls) \<and>
     (b \<longleftrightarrow> \<lparr>tf_fence = 5, generation_id = 1, tf_tasks = [ClientTask 1]\<rparr> \<notin> set (cleanup_tasks s')) \<and>
     (b \<longrightarrow> set (tf_tasks \<lparr>tf_fence = 5, generation_id = 1, tf_tasks = [ClientTask 1]\<rparr>)
            \<subseteq> set (tasks_run calls))"
  by (rule has_passed_iff_cleaned_up [OF ex_queue_inv]) (simp_all add: fence_ex_defs)

end
