(* ===== verification/Ordered_Map.thy ===== *)
theory Ordered_Map
  imports Prelude "HOL-Library.List_Lexorder" "HOL-Library.Char_ord" "HOL-Library.Sublist"
begin

text \<open>
  \<open>std::map\<close> as the components use it: the list of its entries in key order. \<open>om_assign\<close> is
  \<open>m[k] = v\<close>, \<open>om_emplace\<close> is \<open>m.insert\<close> and \<open>m.emplace\<close> (an existing entry stays), \<open>om_erase\<close> is
  \<open>m.erase(k)\<close>. An iterator returned by \<open>upper_bound\<close> is the split of the entries it marks:
  \<open>from_upper_bound\<close> are the entries it runs over forwards, \<open>before_upper_bound\<close> those a reverse
  iterator made from it runs over, last one first.
\<close>

type_synonym ('k, 'v) omap = "('k \<times> 'v) list"

definition om_ok :: "('k::linorder, 'v) omap \<Rightarrow> bool" where
  "om_ok m \<longleftrightarrow> sorted_wrt (<) (map fst m)"

fun om_assign :: "'k::linorder \<Rightarrow> 'v \<Rightarrow> ('k, 'v) omap \<Rightarrow> ('k, 'v) omap" where
  "om_assign k v [] = [(k, v)]"
| "om_assign k v ((a, b) # m) =
     (if k < a then (k, v) # (a, b) # m
      else if k = a then (k, v) # m
      else (a, b) # om_assign k v m)"

definition om_emplace :: "'k::linorder \<Rightarrow> 'v \<Rightarrow> ('k, 'v) omap \<Rightarrow> ('k, 'v) omap" where
  "om_emplace k v m = (if map_of m k = None then om_assign k v m else m)"

definition om_erase :: "'k::linorder \<Rightarrow> ('k, 'v) omap \<Rightarrow> ('k, 'v) omap" where
  "om_erase k m = filter (\<lambda>e. fst e \<noteq> k) m"

definition from_upper_bound :: "('k::linorder, 'v) omap \<Rightarrow> 'k \<Rightarrow> ('k, 'v) omap" where
  "from_upper_bound m k = dropWhile (\<lambda>e. fst e \<le> k) m"

definition before_upper_bound :: "('k::linorder, 'v) omap \<Rightarrow> 'k \<Rightarrow> ('k, 'v) omap" where
  "before_upper_bound m k = rev (takeWhile (\<lambda>e. fst e \<le> k) m)"

section \<open>Entries\<close>

lemma om_ok_Nil [simp]: "om_ok []"
  by (simp add: om_ok_def)

lemma om_ok_Cons: "om_ok (e # m) \<longleftrightarrow> (\<forall>x \<in> set m. fst e < fst x) \<and> om_ok m"
  by (auto simp: om_ok_def)

lemma om_ok_distinct: "om_ok m \<Longrightarrow> distinct (map fst m)"
  unfolding om_ok_def by (simp add: strict_sorted_iff)

lemma om_ok_map_of: "om_ok m \<Longrightarrow> map_of m k = Some v \<longleftrightarrow> (k, v) \<in> set m"
  using om_ok_distinct by force

lemma set_om_assign:
  "om_ok m \<Longrightarrow> set (om_assign k v m) = insert (k, v) {e \<in> set m. fst e \<noteq> k}"
  by (induction k v m rule: om_assign.induct) (auto simp: om_ok_Cons)

lemma om_ok_assign [simp]: "om_ok m \<Longrightarrow> om_ok (om_assign k v m)"
  by (induction k v m rule: om_assign.induct) (auto simp: om_ok_Cons set_om_assign)

lemma map_of_om_assign [simp]: "om_ok m \<Longrightarrow> map_of (om_assign k v m) = (map_of m)(k \<mapsto> v)"
  by (induction k v m rule: om_assign.induct) (auto simp: om_ok_Cons fun_eq_iff)

lemma om_ok_erase [simp]: "om_ok m \<Longrightarrow> om_ok (om_erase k m)"
  by (auto simp: om_ok_def om_erase_def sorted_wrt_map sorted_wrt_filter)

lemma map_of_om_erase [simp]: "map_of (om_erase k m) = (map_of m)(k := None)"
  by (induction m) (auto simp: om_erase_def fun_eq_iff)

lemma set_om_erase: "set (om_erase k m) = {e \<in> set m. fst e \<noteq> k}"
  by (auto simp: om_erase_def)

lemma om_ok_emplace [simp]: "om_ok m \<Longrightarrow> om_ok (om_emplace k v m)"
  by (simp add: om_emplace_def)

lemma om_erase_assign: "om_ok m \<Longrightarrow> map_of m k = None \<Longrightarrow> om_erase k (om_assign k v m) = m"
proof (induction k v m rule: om_assign.induct)
  case (2 k v a b m)
  then show ?case
    by (auto simp: om_erase_def om_ok_Cons intro!: filter_True split: if_splits)
qed (simp add: om_erase_def)

text \<open>Two ordered maps with the same entries are equal.\<close>

lemma om_ok_sorted_fst: "om_ok m \<Longrightarrow> sorted (map fst m)"
  unfolding om_ok_def by (simp add: strict_sorted_iff)

section \<open>The neighbours of a key\<close>

lemma before_upper_bound_Cons:
  assumes "om_ok m" and "before_upper_bound m k = e # rest"
  shows "e \<in> set m \<and> fst e \<le> k \<and> (\<forall>x \<in> set m. fst x \<le> k \<longrightarrow> fst x \<le> fst e)"
proof -
  let ?t = "takeWhile (\<lambda>e. fst e \<le> k) m"
  from assms(2) have t: "?t = rev rest @ [e]"
    by (metis before_upper_bound_def rev.simps(2) rev_rev_ident)
  then have e: "e \<in> set ?t" by simp
  have "sorted_wrt (<) (map fst (?t @ dropWhile (\<lambda>e. fst e \<le> k) m))"
    using assms(1) unfolding takeWhile_dropWhile_id om_ok_def .
  then have "sorted_wrt (<) (map fst ?t)" by (simp only: map_append sorted_wrt_append)
  then have last: "\<forall>x \<in> set ?t. fst x \<le> fst e"
    unfolding t by (auto simp: sorted_wrt_append intro: less_imp_le)
  have "x \<in> set ?t" if "x \<in> set m" "fst x \<le> k" for x
    using that om_ok_sorted_fst [OF assms(1)] by (induction m) auto
  with last e show ?thesis by (auto dest: set_takeWhileD)
qed

lemma before_upper_bound_Nil:
  assumes "om_ok m" and "before_upper_bound m k = []"
  shows "\<forall>x \<in> set m. k < fst x"
  using assms by (cases m) (auto simp: before_upper_bound_def om_ok_Cons not_le split: if_splits)

lemma from_upper_bound_Cons:
  assumes "om_ok m" and "from_upper_bound m k = e # rest"
  shows "e \<in> set m \<and> k < fst e \<and> (\<forall>x \<in> set m. k < fst x \<longrightarrow> fst e \<le> fst x)"
  using assms
proof (induction m)
  case Nil
  then show ?case by (simp add: from_upper_bound_def)
next
  case (Cons a m)
  show ?case
  proof (cases "fst a \<le> k")
    case True
    with Cons show ?thesis by (auto simp: from_upper_bound_def om_ok_Cons)
  next
    case False
    with Cons.prems show ?thesis by (auto simp: from_upper_bound_def om_ok_Cons)
  qed
qed

lemma from_upper_bound_Nil: "from_upper_bound m k = [] \<Longrightarrow> \<forall>x \<in> set m. fst x \<le> k"
  by (auto simp: from_upper_bound_def dropWhile_eq_Nil_conv)

section \<open>Strings in lexicographic order\<close>

text \<open>The strings with a given prefix are an interval that starts with the prefix itself.\<close>

lemma prefix_le: "prefix p (r :: 'a::linorder list) \<Longrightarrow> p \<le> r"
  by (induction p r rule: list_induct2') auto

lemma prefix_interval: "prefix p (r :: 'a::linorder list) \<Longrightarrow> p \<le> q \<Longrightarrow> q \<le> r \<Longrightarrow> prefix p q"
proof (induction p arbitrary: q r)
  case Nil
  then show ?case by simp
next
  case (Cons x p)
  then obtain r' where r: "r = x # r'" and "prefix p r'" by (cases r) auto
  from Cons.prems(2) obtain y q' where q: "q = y # q'" by (cases q) auto
  with Cons.prems r have "y = x" by auto
  with Cons r q \<open>prefix p r'\<close> show ?case by auto
qed

end
