(* ===== verification/File_Path.thy ===== *)
theory File_Path
  imports Ordered_Map
begin

text \<open>
  \<open>base::FilePath\<close> is not part of the repository. Its methods are the parameter \<open>file_path_ops\<close>, a
  path being the string it wraps. The locale \<open>file_path_laws\<close> lists what the mount points rely on;
  \<open>posix\<close> is a file path implementation over \<open>'/'\<close> that satisfies it.
\<close>

section \<open>The interface\<close>

record file_path_ops =
  StripTrailingSeparators :: "string \<Rightarrow> string"
  IsSeparator :: "char \<Rightarrow> bool"
  NormalizePathSeparators :: "string \<Rightarrow> string"
  ReferencesParent :: "string \<Rightarrow> bool"
  IsAbsolute :: "string \<Rightarrow> bool"
  IsParent :: "string \<Rightarrow> string \<Rightarrow> bool"
  GetComponents :: "string \<Rightarrow> string list"
  AppendPath :: "string \<Rightarrow> string \<Rightarrow> string"
  AppendRelativePath :: "string \<Rightarrow> string \<Rightarrow> string \<Rightarrow> string option"
  FromUTF8Unsafe :: "string \<Rightarrow> string"
  AsUTF8Unsafe :: "string \<Rightarrow> string"
  kSeparator0 :: char

text \<open>\<open>NormalizeFilePath\<close> of \<open>external_m.cpp\<close>, the one function of the code the laws mention.\<close>

definition NormalizeFilePath :: "file_path_ops \<Rightarrow> string \<Rightarrow> string" where
  "NormalizeFilePath F path =
     (if path = [] then path
      else let path_str = StripTrailingSeparators F path;
               path_str2 = (if \<not> IsSeparator F (last path_str) then path_str @ ''/'' else path_str)
           in NormalizePathSeparators F path_str2)"

text \<open>
  \<open>clean\<close> holds of the absolute normal paths without doubled separators or \<open>'.'\<close> components: on
  those, being a parent is being a proper prefix. \<open>comp\<close> holds of the strings that are one
  component of a path and neither \<open>'.'\<close> nor \<open>'..'\<close>.
\<close>

locale file_path_laws =
  fixes F :: file_path_ops
    and clean :: "string \<Rightarrow> bool"
    and comp :: "string \<Rightarrow> bool"
  assumes strip_empty: "StripTrailingSeparators F p = [] \<longleftrightarrow> p = []"
    and normalize_empty: "NormalizeFilePath F p = [] \<longleftrightarrow> p = []"
    and renormalize: "NormalizeFilePath F (StripTrailingSeparators F (NormalizeFilePath F p)) = NormalizeFilePath F p"
    and parent_prefix: "clean p \<Longrightarrow> clean r \<Longrightarrow> IsParent F p r \<longleftrightarrow> p \<noteq> r \<and> prefix p r"
    and relative_iff_parent: "AppendRelativePath F p r root \<noteq> None \<longleftrightarrow> IsParent F p r"
    and relative_components: "clean p \<Longrightarrow> clean r \<Longrightarrow> IsParent F p r \<Longrightarrow> \<not> ReferencesParent F r \<Longrightarrow>
      \<exists>cs. (\<forall>c \<in> set cs. comp c) \<and>
        AppendRelativePath F p r root = Some (foldl (AppendPath F) root cs) \<and>
        foldl (AppendPath F) (StripTrailingSeparators F p) cs = StripTrailingSeparators F r"
    and virtual_components: "comp n \<Longrightarrow> \<forall>c \<in> set cs. comp c \<Longrightarrow>
      GetComponents F (foldl (AppendPath F) (AppendPath F [] (FromUTF8Unsafe F n)) cs) = FromUTF8Unsafe F n # cs"
    and virtual_no_parent: "comp n \<Longrightarrow> \<forall>c \<in> set cs. comp c \<Longrightarrow>
      \<not> ReferencesParent F (foldl (AppendPath F) (AppendPath F [] (FromUTF8Unsafe F n)) cs)"
    and utf8_roundtrip: "comp n \<Longrightarrow> AsUTF8Unsafe F (FromUTF8Unsafe F n) = n"

section \<open>POSIX paths\<close>

fun split_sep :: "string \<Rightarrow> string list" where
  "split_sep [] = [[]]"
| "split_sep (c # s) =
     (if c = CHR ''/'' then [] # split_sep s
      else case split_sep s of [] \<Rightarrow> [[c]] | w # ws \<Rightarrow> (c # w) # ws)"

definition parts :: "string \<Rightarrow> string list" where
  "parts s = filter (\<lambda>w. w \<noteq> []) (split_sep s)"

definition render :: "string list \<Rightarrow> string" where
  "render cs = ''/'' @ concat (map (\<lambda>c. c @ ''/'') cs)"

definition posix_absolute :: "string \<Rightarrow> bool" where
  "posix_absolute p \<longleftrightarrow> p \<noteq> [] \<and> hd p = CHR ''/''"

definition posix_components :: "string \<Rightarrow> string list" where
  "posix_components p = (if posix_absolute p then ''/'' # parts p else parts p)"

definition posix_parent :: "string \<Rightarrow> string \<Rightarrow> bool" where
  "posix_parent p r \<longleftrightarrow> posix_components p \<noteq> [] \<and> strict_prefix (posix_components p) (posix_components r)"

definition posix_append :: "string \<Rightarrow> string \<Rightarrow> string" where
  "posix_append a c = (if a = [] then c else if last a = CHR ''/'' then a @ c else a @ ''/'' @ c)"

definition posix_strip :: "string \<Rightarrow> string" where
  "posix_strip p =
     (let q = rev (dropWhile (\<lambda>c. c = CHR ''/'') (rev p)) in if q = [] \<and> p \<noteq> [] then ''/'' else q)"

definition posix :: file_path_ops where
  "posix =
     \<lparr>StripTrailingSeparators = posix_strip, IsSeparator = (\<lambda>c. c = CHR ''/''),
      NormalizePathSeparators = (\<lambda>p. p), ReferencesParent = (\<lambda>p. ''..'' \<in> set (parts p)),
      IsAbsolute = posix_absolute, IsParent = posix_parent, GetComponents = posix_components,
      AppendPath = posix_append,
      AppendRelativePath = (\<lambda>p r root. if posix_parent p r
        then Some (foldl posix_append root (drop (length (posix_components p)) (posix_components r)))
        else None),
      FromUTF8Unsafe = (\<lambda>n. n), AsUTF8Unsafe = (\<lambda>n. n), kSeparator0 = CHR ''/''\<rparr>"

definition posix_clean :: "string \<Rightarrow> bool" where
  "posix_clean p \<longleftrightarrow> p = render (parts p) \<and> ''.'' \<notin> set (parts p)"

definition posix_comp :: "string \<Rightarrow> bool" where
  "posix_comp c \<longleftrightarrow> c \<noteq> [] \<and> CHR ''/'' \<notin> set c \<and> c \<noteq> ''.'' \<and> c \<noteq> ''..''"

lemma split_sep_append: "CHR ''/'' \<notin> set w \<Longrightarrow> split_sep (w @ CHR ''/'' # s) = w # split_sep s"
  by (induction w) auto

lemma split_sep_word: "CHR ''/'' \<notin> set w \<Longrightarrow> split_sep w = [w]"
  by (induction w) auto

lemma split_sep_no_sep: "w \<in> set (split_sep s) \<Longrightarrow> CHR ''/'' \<notin> set w"
  by (induction s arbitrary: w rule: split_sep.induct)
    (auto split: if_splits list.splits)

lemma parts_ok: "w \<in> set (parts s) \<Longrightarrow> w \<noteq> [] \<and> CHR ''/'' \<notin> set w"
  by (auto simp: parts_def dest: split_sep_no_sep)

lemma parts_sep [simp]: "parts (CHR ''/'' # s) = parts s"
  by (simp add: parts_def)

lemma parts_word_sep: "w \<noteq> [] \<Longrightarrow> CHR ''/'' \<notin> set w \<Longrightarrow> parts (w @ CHR ''/'' # s) = w # parts s"
  by (simp add: parts_def split_sep_append)

lemma parts_word: "w \<noteq> [] \<Longrightarrow> CHR ''/'' \<notin> set w \<Longrightarrow> parts w = [w]"
  by (simp add: parts_def split_sep_word)

lemma parts_Nil [simp]: "parts [] = []"
  by (simp add: parts_def)

lemma render_simps [simp]: "render [] = ''/''" "render (c # cs) = CHR ''/'' # c @ render cs"
  by (simp_all add: render_def)

lemma prefix_word_sep:
  "CHR ''/'' \<notin> set c \<Longrightarrow> CHR ''/'' \<notin> set d \<Longrightarrow>
     prefix (c @ CHR ''/'' # x) (d @ CHR ''/'' # y) \<longleftrightarrow> c = d \<and> prefix x y"
  by (induction c d rule: list_induct2') auto

lemma render_sep: "\<exists>x. render cs = CHR ''/'' # x"
  by (cases cs) simp_all

lemma prefix_render:
  "\<forall>c \<in> set cs. c \<noteq> [] \<and> CHR ''/'' \<notin> set c \<Longrightarrow> \<forall>c \<in> set ds. c \<noteq> [] \<and> CHR ''/'' \<notin> set c \<Longrightarrow>
     prefix (render cs) (render ds) \<longleftrightarrow> prefix cs ds"
proof (induction cs ds rule: list_induct2')
  case (2 c cs)
  then show ?case by (cases c) auto
next
  case (3 d ds)
  then show ?case by simp
next
  case (4 c cs d ds)
  obtain x y where "render cs = CHR ''/'' # x" "render ds = CHR ''/'' # y"
    using render_sep by metis
  with 4 show ?case by (auto simp: prefix_word_sep)
qed simp

lemma posix_append_words:
  "w \<noteq> [] \<Longrightarrow> last w \<noteq> CHR ''/'' \<Longrightarrow> \<forall>c \<in> set cs. c \<noteq> [] \<and> CHR ''/'' \<notin> set c \<Longrightarrow>
     foldl posix_append w cs = w @ concat (map (\<lambda>c. CHR ''/'' # c) cs)"
proof (induction cs arbitrary: w)
  case Nil
  then show ?case by simp
next
  case (Cons c cs)
  then have "last c \<noteq> CHR ''/''" by (metis last_in_set list.set_intros(1))
  with Cons show ?case by (simp add: posix_append_def)
qed

lemma render_shift: "render cs = concat (map (\<lambda>c. CHR ''/'' # c) cs) @ ''/''"
  by (induction cs) auto

lemma concat_seps_last:
  "cs \<noteq> [] \<Longrightarrow> \<forall>c \<in> set cs. c \<noteq> [] \<and> CHR ''/'' \<notin> set c \<Longrightarrow>
     concat (map (\<lambda>c. CHR ''/'' # c) cs) \<noteq> [] \<and> last (concat (map (\<lambda>c. CHR ''/'' # c) cs)) \<noteq> CHR ''/''"
proof (induction cs rule: rev_induct)
  case Nil
  then show ?case by simp
next
  case (snoc c cs)
  then have "last c \<noteq> CHR ''/''" by (metis last_in_set list.set_intros(1) set_append UnI2)
  with snoc show ?case by (auto simp: last_append)
qed

lemma posix_strip_snoc:
  "w \<noteq> [] \<Longrightarrow> last w \<noteq> CHR ''/'' \<Longrightarrow> posix_strip (w @ ''/'') = w"
  by (cases w rule: rev_cases) (auto simp: posix_strip_def)

lemma posix_strip_id: "w \<noteq> [] \<Longrightarrow> last w \<noteq> CHR ''/'' \<Longrightarrow> posix_strip w = w"
  by (cases w rule: rev_cases) (auto simp: posix_strip_def)

lemma posix_strip_render:
  "\<forall>c \<in> set cs. c \<noteq> [] \<and> CHR ''/'' \<notin> set c \<Longrightarrow>
     posix_strip (render cs) = (if cs = [] then ''/'' else concat (map (\<lambda>c. CHR ''/'' # c) cs))"
  using concat_seps_last [of cs] by (auto simp: render_shift posix_strip_snoc posix_strip_def [of "''/''"])

lemma posix_append_render:
  assumes "\<forall>c \<in> set (cs @ es). c \<noteq> [] \<and> CHR ''/'' \<notin> set c"
  shows "foldl posix_append (posix_strip (render cs)) es = posix_strip (render (cs @ es))"
proof (cases "cs = []")
  case False
  with assms concat_seps_last [of cs] show ?thesis
    by (simp add: posix_strip_render posix_append_words)
next
  case True
  show ?thesis
  proof (cases es)
    case Nil
    with True show ?thesis by simp
  next
    case (Cons e es')
    with assms have "posix_append ''/'' e = CHR ''/'' # e" "last (CHR ''/'' # e) \<noteq> CHR ''/''"
      by (auto simp: posix_append_def) (metis last_in_set)
    then have "foldl posix_append ''/'' es = concat (map (\<lambda>c. CHR ''/'' # c) es)"
      using assms Cons by (simp add: posix_append_words [of "CHR ''/'' # e"])
    moreover have "posix_strip (render es) = concat (map (\<lambda>c. CHR ''/'' # c) es)"
      using posix_strip_render [of es] assms Cons by simp
    moreover have "posix_strip (render []) = ''/''" by (simp add: posix_strip_def)
    ultimately show ?thesis using True by simp
  qed
qed

lemma parts_seps: "\<forall>c \<in> set cs. c \<noteq> [] \<and> CHR ''/'' \<notin> set c \<Longrightarrow>
    parts (concat (map (\<lambda>c. CHR ''/'' # c) cs)) = cs"
proof (induction cs)
  case Nil
  then show ?case by simp
next
  case (Cons c cs)
  show ?case
  proof (cases cs)
    case Nil
    with Cons show ?thesis by (simp add: parts_word)
  next
    case (Cons d ds)
    with Cons.prems Cons.IH show ?thesis by (simp add: parts_word_sep)
  qed
qed

lemma parts_virtual:
  assumes "posix_comp n" and "\<forall>c \<in> set cs. posix_comp c"
  shows "parts (foldl posix_append n cs) = n # cs" and "\<not> posix_absolute (foldl posix_append n cs)"
proof -
  from assms(1) have n: "n \<noteq> []" "CHR ''/'' \<notin> set n" by (simp_all add: posix_comp_def)
  then have "last n \<noteq> CHR ''/''" by (metis last_in_set)
  moreover from assms(2) have cs: "\<forall>c \<in> set cs. c \<noteq> [] \<and> CHR ''/'' \<notin> set c"
    by (auto simp: posix_comp_def)
  ultimately have f: "foldl posix_append n cs = n @ concat (map (\<lambda>c. CHR ''/'' # c) cs)"
    using n(1) posix_append_words by simp
  show "parts (foldl posix_append n cs) = n # cs"
  proof (cases cs)
    case Nil
    with n show ?thesis by (simp add: parts_word)
  next
    case (Cons d ds)
    with parts_seps [OF cs] have "parts (d @ concat (map (\<lambda>c. CHR ''/'' # c) ds)) = cs" by simp
    with n Cons show ?thesis unfolding f by (simp add: parts_word_sep)
  qed
  from n show "\<not> posix_absolute (foldl posix_append n cs)"
    unfolding f posix_absolute_def by (cases n) auto
qed

lemma posix_clean_absolute: "posix_clean p \<Longrightarrow> posix_absolute p"
  unfolding posix_clean_def posix_absolute_def by (metis list.sel(1) list.discI render_sep)

lemma posix_strip_empty: "posix_strip p = [] \<longleftrightarrow> p = []"
  by (auto simp: posix_strip_def Let_def)

lemma posix_strip_shape: "posix_strip p = ''/'' \<or> posix_strip p = [] \<or> last (posix_strip p) \<noteq> CHR ''/''"
proof -
  have "hd (dropWhile (\<lambda>c. c = CHR ''/'') (rev p)) \<noteq> CHR ''/''"
    if "dropWhile (\<lambda>c. c = CHR ''/'') (rev p) \<noteq> []"
    using hd_dropWhile [OF that] .
  then show ?thesis by (auto simp: posix_strip_def Let_def last_rev)
qed

lemma posix_normalize:
  "NormalizeFilePath posix p =
     (if p = [] then [] else if posix_strip p = ''/'' then ''/'' else posix_strip p @ ''/'')"
  using posix_strip_shape [of p] posix_strip_empty [of p]
  by (auto simp: NormalizeFilePath_def posix_def Let_def)

lemma posix_renormalize:
  "NormalizeFilePath posix (posix_strip (NormalizeFilePath posix p)) = NormalizeFilePath posix p"
proof (cases "p = [] \<or> posix_strip p = ''/''")
  case True
  moreover have "posix_strip ''/'' = ''/''" "posix_strip [] = []" by (simp_all add: posix_strip_def)
  ultimately show ?thesis by (elim disjE) (simp_all add: posix_normalize)
next
  case False
  with posix_strip_shape [of p] posix_strip_empty [of p]
  have "posix_strip (posix_strip p @ ''/'') = posix_strip p"
    and "posix_strip (posix_strip p) = posix_strip p"
    by (auto intro: posix_strip_snoc posix_strip_id)
  with False posix_strip_empty [of p] show ?thesis
    by (simp add: posix_normalize)
qed

lemma posix_clean_render:
  assumes "posix_clean p"
  obtains "p = render (parts p)" and "\<forall>c \<in> set (parts p). c \<noteq> [] \<and> CHR ''/'' \<notin> set c"
  using assms parts_ok unfolding posix_clean_def by blast

lemma posix_parent_prefix:
  assumes "posix_clean p" and "posix_clean r"
  shows "posix_parent p r \<longleftrightarrow> p \<noteq> r \<and> prefix p r"
proof -
  have "prefix p r \<longleftrightarrow> prefix (parts p) (parts r)"
    using assms by (metis posix_clean_render prefix_render)
  moreover have "p = r \<longleftrightarrow> parts p = parts r"
    using assms by (metis posix_clean_def)
  ultimately show ?thesis
    using assms [THEN posix_clean_absolute]
    by (auto simp: posix_parent_def posix_components_def strict_prefix_def)
qed

lemma posix_relative:
  assumes "posix_clean p" and "posix_clean r" and "posix_parent p r" and "''..'' \<notin> set (parts r)"
  shows "\<exists>cs. (\<forall>c \<in> set cs. posix_comp c) \<and>
    drop (length (posix_components p)) (posix_components r) = cs \<and>
    foldl posix_append (posix_strip p) cs = posix_strip r"
proof -
  let ?cs = "drop (length (parts p)) (parts r)"
  from assms(3) assms(1,2) [THEN posix_clean_absolute] have "prefix (parts p) (parts r)"
    by (auto simp: posix_parent_def posix_components_def strict_prefix_def)
  then have split: "parts r = parts p @ ?cs" by (metis append_eq_conv_conj prefix_def)
  have "\<forall>c \<in> set ?cs. posix_comp c"
    using assms(2,4) parts_ok by (auto simp: posix_clean_def posix_comp_def dest!: in_set_dropD)
  moreover have "foldl posix_append (posix_strip p) ?cs = posix_strip r"
    using posix_append_render [of "parts p" ?cs] parts_ok split assms(1,2) unfolding posix_clean_def by metis
  moreover have "drop (length (posix_components p)) (posix_components r) = ?cs"
    using assms(1,2) [THEN posix_clean_absolute] by (simp add: posix_components_def)
  ultimately show ?thesis by blast
qed

interpretation posix_paths: file_path_laws posix posix_clean posix_comp
proof unfold_locales
  show "StripTrailingSeparators posix p = [] \<longleftrightarrow> p = []" for p
    by (simp add: posix_def posix_strip_empty)
  show "NormalizeFilePath posix p = [] \<longleftrightarrow> p = []" for p
    by (simp add: posix_normalize)
  show "NormalizeFilePath posix (StripTrailingSeparators posix (NormalizeFilePath posix p)) = NormalizeFilePath posix p" for p
    using posix_renormalize [of p] by (simp add: posix_def)
  show "IsParent posix p r \<longleftrightarrow> p \<noteq> r \<and> prefix p r" if "posix_clean p" "posix_clean r" for p r
    using posix_parent_prefix [OF that] by (simp add: posix_def)
  show "AppendRelativePath posix p r root \<noteq> None \<longleftrightarrow> IsParent posix p r" for p r root
    by (simp add: posix_def)
  show "\<exists>cs. (\<forall>c \<in> set cs. posix_comp c) \<and>
      AppendRelativePath posix p r root = Some (foldl (AppendPath posix) root cs) \<and>
      foldl (AppendPath posix) (StripTrailingSeparators posix p) cs = StripTrailingSeparators posix r"
    if "posix_clean p" "posix_clean r" "IsParent posix p r" "\<not> ReferencesParent posix r" for p r root
    using posix_relative [of p r] that by (auto simp: posix_def)
  show "GetComponents posix (foldl (AppendPath posix) (AppendPath posix [] (FromUTF8Unsafe posix n)) cs)
      = FromUTF8Unsafe posix n # cs"
    if "posix_comp n" "\<forall>c \<in> set cs. posix_comp c" for n cs
    using parts_virtual [OF that] by (simp add: posix_def posix_components_def posix_append_def)
  show "\<not> ReferencesParent posix (foldl (AppendPath posix) (AppendPath posix [] (FromUTF8Unsafe posix n)) cs)"
    if "posix_comp n" "\<forall>c \<in> set cs. posix_comp c" for n cs
    using parts_virtual [OF that] that by (auto simp: posix_def posix_append_def posix_comp_def)
  show "AsUTF8Unsafe posix (FromUTF8Unsafe posix n) = n" for n
    by (simp add: posix_def)
qed

end
