(* ===== verification/Mount_Points.thy ===== *)
theory Mount_Points
  imports File_Path
begin

text \<open>
  \<open>src/z-box/handler-store/external_m.cpp\<close> and \<open>points.cpp\<close>: \<open>ExternalMountPoints\<close> maps mount
  names to file system instances, keeps the instances whose paths must not overlap in a second
  map by path, and translates between real and virtual paths.

  The class is the record \<open>mount_points\<close> of its two \<open>std::map\<close>s, each operation a definition of
  its name that returns the new state. Every operation runs under the class's lock, so the
  operations are sequential here. File paths are the parameter \<open>file_path_ops\<close> of \<open>File_Path\<close>.
\<close>

section \<open>Data\<close>

datatype file_system_type =
    kFileSystemTypeLocal
  | kFileSystemTypeExternal
  | kFileSystemTypeLocalForPlatformApp
  | kFileSystemTypeLocalMedia
  | kFileSystemTypeDeviceMedia
  | kFileSystemTypeOther nat

record mount_instance =
  inst_type :: file_system_type
  inst_path :: string
  mount_option :: nat

record mount_points =
  instance_map :: "(string, mount_instance) omap"
  path_to_name_map :: "(string, string) omap"

record mount_point_info =
  info_name :: string
  info_path :: string

definition MountPointInfo :: "string \<Rightarrow> string \<Rightarrow> mount_point_info" where
  "MountPointInfo name path = \<lparr>info_name = name, info_path = path\<rparr>"

section \<open>Operations\<close>

definition IsOverlappingMountPathForbidden :: "file_system_type \<Rightarrow> bool" where
  "IsOverlappingMountPathForbidden type \<longleftrightarrow>
     type \<noteq> kFileSystemTypeLocalMedia \<and> type \<noteq> kFileSystemTypeDeviceMedia"

definition Instance :: "file_path_ops \<Rightarrow> file_system_type \<Rightarrow> string \<Rightarrow> nat \<Rightarrow> mount_instance" where
  "Instance F type path opt =
     \<lparr>inst_type = type, inst_path = StripTrailingSeparators F path, mount_option = opt\<rparr>"

definition ValidateNewMountPoint ::
    "file_path_ops \<Rightarrow> mount_points \<Rightarrow> string \<Rightarrow> file_system_type \<Rightarrow> string \<Rightarrow> bool" where
  "ValidateNewMountPoint F s mount_name type path =
     (if mount_name = [] then False
      else if map_of (instance_map s) mount_name \<noteq> None then False
      else if path = [] then True
      else if ReferencesParent F path \<or> \<not> IsAbsolute F path then False
      else if IsOverlappingMountPathForbidden type then
        (case before_upper_bound (path_to_name_map s) path of
           potential_parent # _ \<Rightarrow>
             if fst potential_parent = path \<or> IsParent F (fst potential_parent) path then False
             else (case from_upper_bound (path_to_name_map s) path of
                     potential_child # _ \<Rightarrow>
                       \<not> (fst potential_child = path \<or> IsParent F path (fst potential_child))
                   | [] \<Rightarrow> True)
         | [] \<Rightarrow>
             (case from_upper_bound (path_to_name_map s) path of
                potential_child # _ \<Rightarrow>
                  \<not> (fst potential_child = path \<or> IsParent F path (fst potential_child))
              | [] \<Rightarrow> True))
      else True)"

definition RegisterFileSystem ::
    "file_path_ops \<Rightarrow> mount_points \<Rightarrow> string \<Rightarrow> file_system_type \<Rightarrow> nat \<Rightarrow> string \<Rightarrow> mount_points \<times> bool" where
  "RegisterFileSystem F s mount_name type opt path_in =
     (let path = NormalizeFilePath F path_in in
      if \<not> ValidateNewMountPoint F s mount_name type path then (s, False)
      else
        (s\<lparr>instance_map := om_assign mount_name (Instance F type path opt) (instance_map s),
           path_to_name_map :=
             (if path \<noteq> [] \<and> IsOverlappingMountPathForbidden type
              then om_emplace path mount_name (path_to_name_map s) else path_to_name_map s)\<rparr>, True))"

definition HandlesFileSystemMountType :: "file_system_type \<Rightarrow> bool" where
  "HandlesFileSystemMountType type \<longleftrightarrow>
     type = kFileSystemTypeExternal \<or> type = kFileSystemTypeLocalForPlatformApp"

definition RevokeFileSystem :: "file_path_ops \<Rightarrow> mount_points \<Rightarrow> string \<Rightarrow> mount_points \<times> bool" where
  "RevokeFileSystem F s mount_name =
     (case map_of (instance_map s) mount_name of
        None \<Rightarrow> (s, False)
      | Some i \<Rightarrow>
          (s\<lparr>path_to_name_map :=
               (if IsOverlappingMountPathForbidden (inst_type i)
                then om_erase (NormalizeFilePath F (inst_path i)) (path_to_name_map s)
                else path_to_name_map s),
             instance_map := om_erase mount_name (instance_map s)\<rparr>, True))"

definition GetRegisteredPath :: "mount_points \<Rightarrow> string \<Rightarrow> string option" where
  "GetRegisteredPath s filesystem_id = map_option inst_path (map_of (instance_map s) filesystem_id)"

record cracked =
  cracked_mount_name :: string
  cracked_type :: file_system_type
  cracked_path :: string
  cracked_option :: nat

text \<open>\<open>cracked_id\<close> is not written by the code: the caller keeps its empty string.\<close>

definition CrackVirtualPath :: "file_path_ops \<Rightarrow> mount_points \<Rightarrow> string \<Rightarrow> cracked option" where
  "CrackVirtualPath F s virtual_path =
     (if ReferencesParent F virtual_path then None
      else case GetComponents F virtual_path of
        [] \<Rightarrow> None
      | component # components \<Rightarrow>
          let maybe_mount_name = AsUTF8Unsafe F component in
          (case map_of (instance_map s) maybe_mount_name of
             None \<Rightarrow> None
           | Some i \<Rightarrow>
               Some \<lparr>cracked_mount_name = maybe_mount_name, cracked_type = inst_type i,
                     cracked_path = foldl (AppendPath F) (inst_path i) components,
                     cracked_option = mount_option i\<rparr>))"

definition AddMountPointInfosTo :: "mount_points \<Rightarrow> mount_point_info list \<Rightarrow> mount_point_info list" where
  "AddMountPointInfosTo s infos =
     infos @ map (\<lambda>(name, i). MountPointInfo name (inst_path i)) (instance_map s)"

definition GetDebugJSONForKey ::
    "file_path_ops \<Rightarrow> (file_system_type \<Rightarrow> string) \<Rightarrow> mount_points option \<Rightarrow> (string \<times> string) list option" where
  "GetDebugJSONForKey F GetFileSystemTypeString system_instance =
     map_option (\<lambda>s. map (\<lambda>(name, i).
         (name, GetFileSystemTypeString (inst_type i) @ '' '' @ AsUTF8Unsafe F (inst_path i)))
       (instance_map s)) system_instance"

definition CreateVirtualRootPath :: "file_path_ops \<Rightarrow> string \<Rightarrow> string" where
  "CreateVirtualRootPath F mount_name = AppendPath F [] (FromUTF8Unsafe F mount_name)"

text \<open>The result and the path written to \<open>virtual_path\<close> (unchanged when the map has no entry).\<close>

definition GetVirtualPath ::
    "file_path_ops \<Rightarrow> mount_points \<Rightarrow> string \<Rightarrow> string \<Rightarrow> bool \<times> string" where
  "GetVirtualPath F s path_in virtual_path =
     (let path = NormalizeFilePath F path_in in
      case before_upper_bound (path_to_name_map s) path of
        [] \<Rightarrow> (False, virtual_path)
      | (mount_path, name) # _ \<Rightarrow>
          let root = CreateVirtualRootPath F name in
          if mount_path = path then (True, root)
          else (case AppendRelativePath F mount_path path root of
                  None \<Rightarrow> (False, root)
                | Some p \<Rightarrow> (True, p)))"

definition RevokeAllFileSystems :: "mount_points \<Rightarrow> mount_points" where
  "RevokeAllFileSystems s = s\<lparr>instance_map := [], path_to_name_map := []\<rparr>"

definition ExternalMountPoints :: mount_points where
  "ExternalMountPoints = \<lparr>instance_map = [], path_to_name_map = []\<rparr>"

section \<open>URLs\<close>

text \<open>
  A valid \<open>FileSystemURL\<close> is a record of what its accessors return; \<open>FileSystemURL()\<close>, the invalid
  one, is \<open>None\<close>. \<open>plain_url\<close> and \<open>parse_url\<close> are its constructors from a type and a virtual path
  and from a \<open>GURL\<close>.
\<close>

record file_system_url =
  storage_key :: nat
  mount_type :: file_system_type
  url_virtual_path :: string
  mount_filesystem_id :: string
  url_type :: file_system_type
  url_path :: string
  filesystem_id :: string
  url_mount_option :: nat

definition CrackFileSystemURL ::
    "file_path_ops \<Rightarrow> bool \<Rightarrow> mount_points \<Rightarrow> file_system_url \<Rightarrow> file_system_url option" where
  "CrackFileSystemURL F is_chromeos s url =
     (if \<not> HandlesFileSystemMountType (url_type url) then None
      else
        let crack = (\<lambda>virtual_path.
          case CrackVirtualPath F s virtual_path of
            None \<Rightarrow> None
          | Some c \<Rightarrow>
              Some \<lparr>storage_key = storage_key url, mount_type = mount_type url,
                    url_virtual_path = url_virtual_path url,
                    mount_filesystem_id =
                      (if filesystem_id url \<noteq> [] then filesystem_id url else cracked_mount_name c),
                    url_type = cracked_type c, url_path = cracked_path c,
                    filesystem_id = cracked_mount_name c,
                    url_mount_option = cracked_option c\<rparr>)
        in if url_type url = kFileSystemTypeLocalForPlatformApp then
             (if is_chromeos then
                (case GetVirtualPath F s (url_path url) (url_path url) of
                   (ok, virtual_path) \<Rightarrow> if \<not> ok then None else crack virtual_path)
              else
                Some \<lparr>storage_key = storage_key url, mount_type = mount_type url,
                      url_virtual_path = url_virtual_path url,
                      mount_filesystem_id = mount_filesystem_id url,
                      url_type = kFileSystemTypeLocal, url_path = url_path url,
                      filesystem_id = filesystem_id url, url_mount_option = url_mount_option url\<rparr>)
           else crack (url_path url))"

definition CrackURL ::
    "file_path_ops \<Rightarrow> bool \<Rightarrow> ('url \<Rightarrow> nat \<Rightarrow> file_system_url option) \<Rightarrow> mount_points \<Rightarrow> 'url \<Rightarrow> nat \<Rightarrow>
       file_system_url option" where
  "CrackURL F is_chromeos parse_url s url key =
     (case parse_url url key of
        None \<Rightarrow> None
      | Some filesystem_url \<Rightarrow> CrackFileSystemURL F is_chromeos s filesystem_url)"

definition CreateCrackedFileSystemURL ::
    "file_path_ops \<Rightarrow> bool \<Rightarrow> (nat \<Rightarrow> file_system_type \<Rightarrow> string \<Rightarrow> file_system_url) \<Rightarrow> mount_points \<Rightarrow>
       nat \<Rightarrow> file_system_type \<Rightarrow> string \<Rightarrow> file_system_url option" where
  "CreateCrackedFileSystemURL F is_chromeos plain_url s key type virtual_path =
     CrackFileSystemURL F is_chromeos s (plain_url key type virtual_path)"

definition CreateExternalFileSystemURL ::
    "file_path_ops \<Rightarrow> bool \<Rightarrow> (nat \<Rightarrow> file_system_type \<Rightarrow> string \<Rightarrow> file_system_url) \<Rightarrow> mount_points \<Rightarrow>
       nat \<Rightarrow> string \<Rightarrow> string \<Rightarrow> file_system_url option" where
  "CreateExternalFileSystemURL F is_chromeos plain_url s key mount_name path =
     CreateCrackedFileSystemURL F is_chromeos plain_url s key kFileSystemTypeExternal
       (CreateVirtualRootPath F mount_name @ [kSeparator0 F] @ path)"

section \<open>Histories\<close>

text \<open>
  The calls that change the mount points. \<open>mount_en\<close> is the assumption the theorems make on the
  paths clients register: absolute ones are clean after normalisation.
\<close>

datatype mount_call =
    Register string file_system_type nat string
  | Revoke string
  | RevokeAll

definition mount_step ::
    "file_path_ops \<Rightarrow> mount_points \<Rightarrow> mount_call \<Rightarrow> (mount_points \<times> bool list) checked" where
  "mount_step F s c =
     (case c of
        Register name type opt path \<Rightarrow>
          (case RegisterFileSystem F s name type opt path of (s', ok) \<Rightarrow> Inr (s', [ok]))
      | Revoke name \<Rightarrow> (case RevokeFileSystem F s name of (s', ok) \<Rightarrow> Inr (s', [ok]))
      | RevokeAll \<Rightarrow> Inr (RevokeAllFileSystems s, []))"

definition mount_en ::
    "file_path_ops \<Rightarrow> (string \<Rightarrow> bool) \<Rightarrow> mount_points \<Rightarrow> mount_call \<Rightarrow> bool" where
  "mount_en F clean s c =
     (case c of
        Register name type opt path \<Rightarrow>
          IsAbsolute F (NormalizeFilePath F path) \<longrightarrow> clean (NormalizeFilePath F path)
      | _ \<Rightarrow> True)"

text \<open>The normal path of an instance, and whether it takes part in the overlap check.\<close>

definition inst_key :: "file_path_ops \<Rightarrow> mount_instance \<Rightarrow> string" where
  "inst_key F i = NormalizeFilePath F (inst_path i)"

definition inst_exclusive :: "mount_instance \<Rightarrow> bool" where
  "inst_exclusive i \<longleftrightarrow> IsOverlappingMountPathForbidden (inst_type i) \<and> inst_path i \<noteq> []"

definition mount_inv :: "file_path_ops \<Rightarrow> (string \<Rightarrow> bool) \<Rightarrow> mount_points \<Rightarrow> bool" where
  "mount_inv F clean s \<longleftrightarrow>
     om_ok (instance_map s) \<and> om_ok (path_to_name_map s) \<and>
     (\<forall>p n. (p, n) \<in> set (path_to_name_map s) \<longleftrightarrow>
        (\<exists>i. map_of (instance_map s) n = Some i \<and> inst_exclusive i \<and> inst_key F i = p)) \<and>
     (\<forall>n i. map_of (instance_map s) n = Some i \<longrightarrow>
        inst_path i = StripTrailingSeparators F (inst_key F i) \<and>
        (inst_path i \<noteq> [] \<longrightarrow> clean (inst_key F i) \<and> \<not> ReferencesParent F (inst_key F i))) \<and>
     (\<forall>e \<in> set (path_to_name_map s). \<forall>f \<in> set (path_to_name_map s). prefix (fst e) (fst f) \<longrightarrow> fst e = fst f)"

text \<open>What the neighbour check of \<open>ValidateNewMountPoint\<close> stands for: no entry on either side.\<close>

definition overlaps :: "file_path_ops \<Rightarrow> string \<Rightarrow> string \<Rightarrow> bool" where
  "overlaps F p q \<longleftrightarrow> p = q \<or> IsParent F p q \<or> IsParent F q p"

definition no_overlap :: "file_path_ops \<Rightarrow> mount_points \<Rightarrow> string \<Rightarrow> bool" where
  "no_overlap F s path \<longleftrightarrow> (\<forall>(n, i) \<in> set (instance_map s). inst_exclusive i \<longrightarrow> \<not> overlaps F (inst_key F i) path)"

text \<open>The mount \<open>n\<close> with instance \<open>i\<close> contains \<open>path\<close>.\<close>

definition mounted_at :: "file_path_ops \<Rightarrow> mount_points \<Rightarrow> string \<Rightarrow> string \<Rightarrow> mount_instance \<Rightarrow> bool" where
  "mounted_at F s path n i \<longleftrightarrow> map_of (instance_map s) n = Some i \<and> inst_exclusive i \<and>
     (inst_key F i = path \<or> IsParent F (inst_key F i) path)"

section \<open>The neighbour check\<close>

definition parent_found :: "file_path_ops \<Rightarrow> (string, string) omap \<Rightarrow> string \<Rightarrow> bool" where
  "parent_found F m path \<longleftrightarrow>
     (case before_upper_bound m path of [] \<Rightarrow> False | e # _ \<Rightarrow> fst e = path \<or> IsParent F (fst e) path)"

definition child_found :: "file_path_ops \<Rightarrow> (string, string) omap \<Rightarrow> string \<Rightarrow> bool" where
  "child_found F m path \<longleftrightarrow>
     (case from_upper_bound m path of [] \<Rightarrow> False | e # _ \<Rightarrow> fst e = path \<or> IsParent F path (fst e))"

lemma ValidateNewMountPoint_iff:
  "ValidateNewMountPoint F s n type path \<longleftrightarrow>
     n \<noteq> [] \<and> map_of (instance_map s) n = None \<and>
     (path = [] \<or> \<not> ReferencesParent F path \<and> IsAbsolute F path \<and>
       (IsOverlappingMountPathForbidden type \<longrightarrow>
          \<not> parent_found F (path_to_name_map s) path \<and> \<not> child_found F (path_to_name_map s) path))"
  by (simp add: ValidateNewMountPoint_def parent_found_def child_found_def split: list.split)

context file_path_laws begin

lemma parent_found_iff:
  assumes "om_ok m" and "\<forall>e \<in> set m. clean (fst e)" and "clean path"
    and "\<forall>e \<in> set m. \<forall>f \<in> set m. prefix (fst e) (fst f) \<longrightarrow> fst e = fst f"
  shows "parent_found F m path \<longleftrightarrow> (\<exists>e \<in> set m. prefix (fst e) path)"
proof -
  have par: "(fst e = path \<or> IsParent F (fst e) path) \<longleftrightarrow> prefix (fst e) path" if "e \<in> set m" for e
    using parent_prefix [of "fst e" path] assms(2,3) that by auto
  show ?thesis
  proof (cases "before_upper_bound m path")
    case Nil
    from before_upper_bound_Nil [OF assms(1) Nil] have "\<forall>e \<in> set m. path < fst e" .
    then have "\<not> (\<exists>e \<in> set m. prefix (fst e) path)" using prefix_le leD by blast
    with Nil show ?thesis by (simp add: parent_found_def)
  next
    case (Cons e rest)
    from before_upper_bound_Cons [OF assms(1) Cons] have e: "e \<in> set m" "fst e \<le> path"
      "\<forall>x \<in> set m. fst x \<le> path \<longrightarrow> fst x \<le> fst e" by simp_all
    have "prefix (fst e) path" if "x \<in> set m" "prefix (fst x) path" for x
    proof -
      from that have "fst x \<le> fst e" using e(3) prefix_le by blast
      with that(2) e(2) have "prefix (fst x) (fst e)" using prefix_interval by blast
      with that e(1) assms(4) have "fst x = fst e" by blast
      with that(2) show ?thesis by simp
    qed
    with Cons par e(1) show ?thesis by (auto simp: parent_found_def)
  qed
qed

lemma child_found_iff:
  assumes "om_ok m" and "\<forall>e \<in> set m. clean (fst e)" and "clean path"
  shows "child_found F m path \<longleftrightarrow> (\<exists>e \<in> set m. fst e \<noteq> path \<and> prefix path (fst e))"
proof (cases "from_upper_bound m path")
  case Nil
  have "\<not> (\<exists>e \<in> set m. fst e \<noteq> path \<and> prefix path (fst e))"
    using from_upper_bound_Nil [OF Nil] prefix_le order.antisym by metis
  with Nil show ?thesis by (simp add: child_found_def)
next
  case (Cons e rest)
  from from_upper_bound_Cons [OF assms(1) Cons] have e: "e \<in> set m" "path < fst e"
    "\<forall>x \<in> set m. path < fst x \<longrightarrow> fst e \<le> fst x" by simp_all
  have "prefix path (fst e)" if "x \<in> set m" "fst x \<noteq> path" "prefix path (fst x)" for x
  proof -
    from that(2,3) have "path < fst x" using prefix_le [OF that(3)] by simp
    with e(3) that(1) have "fst e \<le> fst x" by blast
    with that(3) e(2) show ?thesis using prefix_interval less_imp_le by blast
  qed
  moreover have "IsParent F path (fst e) \<longleftrightarrow> prefix path (fst e)"
    using parent_prefix [of path "fst e"] assms(2,3) e by auto
  ultimately show ?thesis using Cons e by (auto simp: child_found_def)
qed

lemma overlaps_iff: "clean p \<Longrightarrow> clean q \<Longrightarrow> overlaps F p q \<longleftrightarrow> prefix p q \<or> prefix q p"
  using parent_prefix [of p q] parent_prefix [of q p] by (auto simp: overlaps_def)

section \<open>The invariant\<close>

lemma mount_invD:
  assumes "mount_inv F clean s"
  shows "om_ok (instance_map s)" and "om_ok (path_to_name_map s)"
    and "(p, n) \<in> set (path_to_name_map s) \<longleftrightarrow>
      (\<exists>i. map_of (instance_map s) n = Some i \<and> inst_exclusive i \<and> inst_key F i = p)"
    and "map_of (instance_map s) n = Some i \<Longrightarrow> inst_path i = StripTrailingSeparators F (inst_key F i)"
    and "map_of (instance_map s) n = Some i \<Longrightarrow> inst_path i \<noteq> [] \<Longrightarrow>
      clean (inst_key F i) \<and> \<not> ReferencesParent F (inst_key F i)"
    and "e \<in> set (path_to_name_map s) \<Longrightarrow> f \<in> set (path_to_name_map s) \<Longrightarrow>
      prefix (fst e) (fst f) \<Longrightarrow> fst e = fst f"
proof -
  from assms have inv: "om_ok (instance_map s)" "om_ok (path_to_name_map s)"
    "\<forall>p n. (p, n) \<in> set (path_to_name_map s) \<longleftrightarrow>
        (\<exists>i. map_of (instance_map s) n = Some i \<and> inst_exclusive i \<and> inst_key F i = p)"
    "\<forall>n i. map_of (instance_map s) n = Some i \<longrightarrow>
        inst_path i = StripTrailingSeparators F (inst_key F i) \<and>
        (inst_path i \<noteq> [] \<longrightarrow> clean (inst_key F i) \<and> \<not> ReferencesParent F (inst_key F i))"
    "\<forall>e \<in> set (path_to_name_map s). \<forall>f \<in> set (path_to_name_map s). prefix (fst e) (fst f) \<longrightarrow> fst e = fst f"
    unfolding mount_inv_def by auto
  show "om_ok (instance_map s)" "om_ok (path_to_name_map s)" by fact+
  show "(p, n) \<in> set (path_to_name_map s) \<longleftrightarrow>
      (\<exists>i. map_of (instance_map s) n = Some i \<and> inst_exclusive i \<and> inst_key F i = p)"
    using inv(3) by simp
  show "inst_path i = StripTrailingSeparators F (inst_key F i)" if "map_of (instance_map s) n = Some i"
    using inv(4) that by simp
  show "clean (inst_key F i) \<and> \<not> ReferencesParent F (inst_key F i)"
    if "map_of (instance_map s) n = Some i" "inst_path i \<noteq> []"
    using inv(4) that by simp
  show "fst e = fst f" if "e \<in> set (path_to_name_map s)" "f \<in> set (path_to_name_map s)" "prefix (fst e) (fst f)"
    using inv(5) that by simp
qed

lemma mount_inv_keys_clean: "mount_inv F clean s \<Longrightarrow> \<forall>e \<in> set (path_to_name_map s). clean (fst e)"
  by (auto simp: mount_invD(3) inst_exclusive_def dest: mount_invD(5))

lemma no_overlap_iff:
  assumes "mount_inv F clean s" and "clean path"
  shows "no_overlap F s path \<longleftrightarrow>
    \<not> parent_found F (path_to_name_map s) path \<and> \<not> child_found F (path_to_name_map s) path"
proof -
  note keys = mount_inv_keys_clean [OF assms(1)]
  have in_map: "(n, i) \<in> set (instance_map s) \<longleftrightarrow> map_of (instance_map s) n = Some i" for n i
    using om_ok_map_of [OF mount_invD(1) [OF assms(1)]] by blast
  have "no_overlap F s path \<longleftrightarrow>
      (\<forall>n i. map_of (instance_map s) n = Some i \<longrightarrow> inst_exclusive i \<longrightarrow> \<not> overlaps F (inst_key F i) path)"
    unfolding no_overlap_def Ball_def split_paired_All by (simp add: in_map)
  also have "\<dots> \<longleftrightarrow> (\<forall>e \<in> set (path_to_name_map s). \<not> overlaps F (fst e) path)"
    unfolding Ball_def split_paired_All mount_invD(3) [OF assms(1)] fst_conv by blast
  also have "\<dots> \<longleftrightarrow> (\<forall>e \<in> set (path_to_name_map s). \<not> prefix (fst e) path \<and> \<not> prefix path (fst e))"
    using keys assms(2) overlaps_iff by blast
  finally show ?thesis
    using parent_found_iff [OF mount_invD(2) [OF assms(1)] keys assms(2)]
      child_found_iff [OF mount_invD(2) [OF assms(1)] keys assms(2)] mount_invD(6) [OF assms(1)]
    by auto
qed

lemma inst_key_Instance: "inst_key F (Instance F type (NormalizeFilePath F p) opt) = NormalizeFilePath F p"
  by (simp add: inst_key_def Instance_def renormalize)

lemma inst_type_Instance: "inst_type (Instance F type p opt) = type"
  by (simp add: Instance_def)

lemma inst_key_empty: "mount_inv F clean s \<Longrightarrow> map_of (instance_map s) n = Some i \<Longrightarrow>
    inst_key F i = [] \<longleftrightarrow> inst_path i = []"
  by (metis mount_invD(4) strip_empty)

lemma mount_inv_intro:
  assumes "om_ok im" and "om_ok pm"
    and "\<And>p n. (p, n) \<in> set pm \<longleftrightarrow> (\<exists>i. map_of im n = Some i \<and> inst_exclusive i \<and> inst_key F i = p)"
    and "\<And>n i. map_of im n = Some i \<Longrightarrow> inst_path i = StripTrailingSeparators F (inst_key F i) \<and>
        (inst_path i \<noteq> [] \<longrightarrow> clean (inst_key F i) \<and> \<not> ReferencesParent F (inst_key F i))"
    and "\<And>e f. e \<in> set pm \<Longrightarrow> f \<in> set pm \<Longrightarrow> prefix (fst e) (fst f) \<Longrightarrow> fst e = fst f"
  shows "mount_inv F clean \<lparr>instance_map = im, path_to_name_map = pm\<rparr>"
  unfolding mount_inv_def mount_points.simps using assms by simp

lemma register_maps:
  assumes inv: "mount_inv F clean s" and valid: "ValidateNewMountPoint F s n type path"
    and path: "path = NormalizeFilePath F p" and clean: "IsAbsolute F path \<Longrightarrow> clean path"
  shows "(q, m) \<in> set (if path \<noteq> [] \<and> IsOverlappingMountPathForbidden type
       then om_emplace path n (path_to_name_map s) else path_to_name_map s) \<longleftrightarrow>
     (path \<noteq> [] \<and> IsOverlappingMountPathForbidden type \<and> q = path \<and> m = n) \<or> (q, m) \<in> set (path_to_name_map s)"
proof (cases "path \<noteq> [] \<and> IsOverlappingMountPathForbidden type")
  case True
  with valid have abs: "IsAbsolute F path" and "\<not> parent_found F (path_to_name_map s) path"
    by (simp_all add: ValidateNewMountPoint_iff)
  then have "\<forall>e \<in> set (path_to_name_map s). \<not> prefix (fst e) path"
    using parent_found_iff [OF mount_invD(2) [OF inv] mount_inv_keys_clean [OF inv] clean [OF abs]]
      mount_invD(6) [OF inv] by blast
  then have fresh: "\<forall>e \<in> set (path_to_name_map s). fst e \<noteq> path" by fastforce
  then have "map_of (path_to_name_map s) path = None"
    by (auto simp: map_of_eq_None_iff)
  with True fresh show ?thesis
    by (auto simp: om_emplace_def set_om_assign [OF mount_invD(2) [OF inv]])
qed auto

lemma RegisterFileSystem_inv:
  assumes inv: "mount_inv F clean s"
    and clean: "IsAbsolute F (NormalizeFilePath F p) \<Longrightarrow> clean (NormalizeFilePath F p)"
  shows "mount_inv F clean (fst (RegisterFileSystem F s n type opt p))"
proof (cases "ValidateNewMountPoint F s n type (NormalizeFilePath F p)")
  case False
  with inv show ?thesis by (simp add: RegisterFileSystem_def)
next
  case valid: True
  define path where "path = NormalizeFilePath F p"
  define i where "i = Instance F type path opt"
  define pm where "pm = (if path \<noteq> [] \<and> IsOverlappingMountPathForbidden type
       then om_emplace path n (path_to_name_map s) else path_to_name_map s)"
  note V = valid [folded path_def, unfolded ValidateNewMountPoint_iff]
  have set_pm: "(q, m) \<in> set pm \<longleftrightarrow>
      (path \<noteq> [] \<and> IsOverlappingMountPathForbidden type \<and> q = path \<and> m = n) \<or> (q, m) \<in> set (path_to_name_map s)" for q m
    unfolding pm_def using register_maps [OF inv valid] clean unfolding path_def by blast
  have key: "inst_key F i = path" by (simp add: i_def path_def inst_key_Instance)
  have excl: "inst_exclusive i \<longleftrightarrow> path \<noteq> [] \<and> IsOverlappingMountPathForbidden type"
    by (auto simp: i_def inst_exclusive_def Instance_def strip_empty)
  have res: "fst (RegisterFileSystem F s n type opt p) =
      \<lparr>instance_map = om_assign n i (instance_map s), path_to_name_map = pm\<rparr>"
    using valid by (cases s) (simp add: RegisterFileSystem_def path_def i_def pm_def Let_def)
  have alone: "prefix (fst e) path \<longrightarrow> e = (path, n)" "prefix path (fst e) \<longrightarrow> e = (path, n)"
    if "e \<in> set pm" "path \<noteq> []" "IsOverlappingMountPathForbidden type" for e
  proof -
    from that V clean have cl: "clean path" and no: "no_overlap F s path"
      by (auto simp: path_def no_overlap_iff [OF inv])
    have "\<not> prefix (fst e) path \<and> \<not> prefix path (fst e)" if "e \<in> set (path_to_name_map s)"
      using no that overlaps_iff cl mount_inv_keys_clean [OF inv] mount_invD(3) [OF inv, of "fst e" "snd e"]
        om_ok_map_of [OF mount_invD(1) [OF inv]]
      unfolding no_overlap_def by fastforce
    with that(1) set_pm [of "fst e" "snd e"]
    show "prefix (fst e) path \<longrightarrow> e = (path, n)" "prefix path (fst e) \<longrightarrow> e = (path, n)"
      by (auto simp: prod_eq_iff)
  qed
  show ?thesis unfolding res
  proof (rule mount_inv_intro)
    show "om_ok (om_assign n i (instance_map s))" "om_ok pm"
      using mount_invD(1,2) [OF inv] by (simp_all add: pm_def)
    show "(q, m) \<in> set pm \<longleftrightarrow>
        (\<exists>j. map_of (om_assign n i (instance_map s)) m = Some j \<and> inst_exclusive j \<and> inst_key F j = q)" for q m
      using V by (auto simp: set_pm mount_invD(1,3) [OF inv] key excl)
    show "inst_path j = StripTrailingSeparators F (inst_key F j) \<and>
        (inst_path j \<noteq> [] \<longrightarrow> clean (inst_key F j) \<and> \<not> ReferencesParent F (inst_key F j))"
      if "map_of (om_assign n i (instance_map s)) m = Some j" for m j
    proof (cases "m = n")
      case True
      with that have "j = i" by (simp add: mount_invD(1) [OF inv])
      with key V clean show ?thesis
        by (auto simp: i_def Instance_def path_def strip_empty)
    next
      case False
      with that show ?thesis
        using mount_invD(4,5) [OF inv] by (simp add: mount_invD(1) [OF inv])
    qed
    show "fst e = fst f" if "e \<in> set pm" "f \<in> set pm" "prefix (fst e) (fst f)" for e f
    proof -
      have old: "fst g = path \<and> path \<noteq> [] \<and> IsOverlappingMountPathForbidden type \<or> g \<in> set (path_to_name_map s)"
        if "g \<in> set pm" for g
        using that set_pm [of "fst g" "snd g"] by auto
      from that old [of e] old [of f] alone mount_invD(6) [OF inv, of e f] show ?thesis
        by (metis fst_conv)
    qed
  qed
qed

lemma RevokeFileSystem_inv:
  assumes inv: "mount_inv F clean s"
  shows "mount_inv F clean (fst (RevokeFileSystem F s n))"
proof (cases "map_of (instance_map s) n")
  case None
  with inv show ?thesis by (simp add: RevokeFileSystem_def)
next
  case (Some i)
  define pm where "pm = (if IsOverlappingMountPathForbidden (inst_type i)
                then om_erase (inst_key F i) (path_to_name_map s) else path_to_name_map s)"
  have res: "fst (RevokeFileSystem F s n) = \<lparr>instance_map = om_erase n (instance_map s), path_to_name_map = pm\<rparr>"
    using Some by (cases s) (simp add: RevokeFileSystem_def pm_def inst_key_def)
  have owner: "m = n"
    if "map_of (instance_map s) m = Some j" "inst_exclusive j" "inst_key F j = inst_key F i"
      "IsOverlappingMountPathForbidden (inst_type i)" for m j
  proof -
    from that inst_key_empty [OF inv Some] inst_key_empty [OF inv that(1)] have "inst_exclusive i"
      by (auto simp: inst_exclusive_def)
    with Some that have "(inst_key F i, m) \<in> set (path_to_name_map s)" "(inst_key F i, n) \<in> set (path_to_name_map s)"
      by (auto simp: mount_invD(3) [OF inv])
    then show ?thesis using om_ok_map_of [OF mount_invD(2) [OF inv]] by (metis option.inject)
  qed
  have sub: "set pm \<subseteq> set (path_to_name_map s)" by (auto simp: pm_def set_om_erase)
  show ?thesis unfolding res
  proof (rule mount_inv_intro)
    show "om_ok (om_erase n (instance_map s))" "om_ok pm"
      using mount_invD(1,2) [OF inv] by (simp_all add: pm_def)
    show "(q, m) \<in> set pm \<longleftrightarrow>
        (\<exists>j. map_of (om_erase n (instance_map s)) m = Some j \<and> inst_exclusive j \<and> inst_key F j = q)" for q m
      using owner Some
      by (auto simp: pm_def set_om_erase mount_invD(3) [OF inv] inst_exclusive_def split: if_splits)
    show "inst_path j = StripTrailingSeparators F (inst_key F j) \<and>
        (inst_path j \<noteq> [] \<longrightarrow> clean (inst_key F j) \<and> \<not> ReferencesParent F (inst_key F j))"
      if "map_of (om_erase n (instance_map s)) m = Some j" for m j
      using that mount_invD(4,5) [OF inv] by (auto split: if_splits)
    show "fst e = fst f" if "e \<in> set pm" "f \<in> set pm" "prefix (fst e) (fst f)" for e f
      using that sub mount_invD(6) [OF inv] by blast
  qed
qed

lemma mount_step_inv:
  "mount_inv F clean s \<Longrightarrow> mount_en F clean s c \<Longrightarrow>
     \<exists>s' out. mount_step F s c = Inr (s', out) \<and> mount_inv F clean s'"
proof (cases c)
  case (Register n type opt p)
  assume "mount_inv F clean s" and "mount_en F clean s c"
  with Register show ?thesis
    using RegisterFileSystem_inv [of s p n type opt]
    by (cases "RegisterFileSystem F s n type opt p") (simp add: mount_step_def mount_en_def)
next
  case (Revoke n)
  assume "mount_inv F clean s"
  with Revoke show ?thesis
    using RevokeFileSystem_inv [of s n]
    by (cases "RevokeFileSystem F s n") (simp add: mount_step_def)
next
  case RevokeAll
  then show ?thesis
    by (simp add: mount_step_def RevokeAllFileSystems_def mount_inv_def)
qed

end

sublocale file_path_laws \<subseteq> mounts: safe_machine "mount_step F" "mount_en F clean" "mount_inv F clean"
  by unfold_locales (rule mount_step_inv)

context file_path_laws begin

lemma initial_mount_inv: "mount_inv F clean ExternalMountPoints"
  by (simp add: mount_inv_def ExternalMountPoints_def)

lemma reachable_mount_inv:
  "reach (mount_step F) (mount_en F clean) ExternalMountPoints s \<Longrightarrow> mount_inv F clean s"
  using mounts.reach_inv initial_mount_inv by blast

lemma run_mount_inv:
  "admissible (mount_step F) (mount_en F clean) ExternalMountPoints cs \<Longrightarrow>
     run (mount_step F) ExternalMountPoints cs = Inr (s, oks) \<Longrightarrow> mount_inv F clean s"
  using mounts.run_safe [OF initial_mount_inv] by fastforce

lemma exclusive_apart:
  assumes inv: "mount_inv F clean s"
    and i: "map_of (instance_map s) m = Some i" "inst_exclusive i"
    and j: "map_of (instance_map s) n = Some j" "inst_exclusive j" and "m \<noteq> n"
  shows "\<not> overlaps F (inst_key F i) (inst_key F j)"
proof
  assume "overlaps F (inst_key F i) (inst_key F j)"
  with i j mount_invD(5) [OF inv] have ov: "prefix (inst_key F i) (inst_key F j) \<or> prefix (inst_key F j) (inst_key F i)"
    by (subst (asm) overlaps_iff) (auto simp: inst_exclusive_def)
  from i j have e: "(inst_key F i, m) \<in> set (path_to_name_map s)" "(inst_key F j, n) \<in> set (path_to_name_map s)"
    by (auto simp: mount_invD(3) [OF inv])
  with ov mount_invD(6) [OF inv] have "inst_key F i = inst_key F j" by fastforce
  with e om_ok_map_of [OF mount_invD(2) [OF inv]] \<open>m \<noteq> n\<close> show False by (metis option.inject)
qed

lemma register_result:
  assumes inv: "mount_inv F clean s"
    and clean: "IsAbsolute F (NormalizeFilePath F p) \<Longrightarrow> clean (NormalizeFilePath F p)"
  shows "snd (RegisterFileSystem F s n type opt p) \<longleftrightarrow>
    n \<noteq> [] \<and> map_of (instance_map s) n = None \<and>
    (p = [] \<or> \<not> ReferencesParent F (NormalizeFilePath F p) \<and> IsAbsolute F (NormalizeFilePath F p) \<and>
       (IsOverlappingMountPathForbidden type \<longrightarrow> no_overlap F s (NormalizeFilePath F p)))"
  using no_overlap_iff [OF inv clean]
  by (auto simp: RegisterFileSystem_def ValidateNewMountPoint_iff Let_def normalize_empty)

lemma revoke_register:
  assumes inv: "mount_inv F clean s"
    and clean: "IsAbsolute F (NormalizeFilePath F p) \<Longrightarrow> clean (NormalizeFilePath F p)"
    and ok: "snd (RegisterFileSystem F s n type opt p)"
  shows "RevokeFileSystem F (fst (RegisterFileSystem F s n type opt p)) n = (s, True)"
proof -
  define path where "path = NormalizeFilePath F p"
  from ok have valid: "ValidateNewMountPoint F s n type path"
    by (simp add: RegisterFileSystem_def path_def Let_def split: if_splits)
  then have new: "map_of (instance_map s) n = None" by (simp add: ValidateNewMountPoint_iff)
  have key: "NormalizeFilePath F (inst_path (Instance F type path opt)) = path"
    using inst_key_Instance by (simp add: inst_key_def path_def)
  have fresh: "map_of (path_to_name_map s) path = None" if "path \<noteq> []" "IsOverlappingMountPathForbidden type"
  proof (rule ccontr)
    assume "map_of (path_to_name_map s) path \<noteq> None"
    then obtain m where "(path, m) \<in> set (path_to_name_map s)" by (auto dest: map_of_SomeD)
    moreover from valid that have "IsAbsolute F path" "\<not> parent_found F (path_to_name_map s) path"
      by (simp_all add: ValidateNewMountPoint_iff)
    ultimately show False
      using parent_found_iff [OF mount_invD(2) [OF inv] mount_inv_keys_clean [OF inv], of path]
        mount_invD(6) [OF inv] clean path_def by fastforce
  qed
  have none: "om_erase [] (path_to_name_map s) = path_to_name_map s"
    unfolding om_erase_def
    by (rule filter_True) (auto simp: mount_invD(3) [OF inv] inst_key_empty [OF inv] inst_exclusive_def)
  show ?thesis
    using valid new key fresh none mount_invD(1,2) [OF inv] inst_type_Instance
    by (simp add: RegisterFileSystem_def RevokeFileSystem_def path_def [symmetric] Let_def
      om_emplace_def om_erase_assign)
qed

lemma fst_GetVirtualPath: "fst (GetVirtualPath F s p v) = parent_found F (path_to_name_map s) (NormalizeFilePath F p)"
  using relative_iff_parent
  by (simp add: GetVirtualPath_def parent_found_def Let_def split: list.split option.split prod.split)
    (metis option.distinct(1))

lemma mounted_at_prefix:
  assumes "mount_inv F clean s" and "clean path"
  shows "mounted_at F s path n i \<longleftrightarrow> map_of (instance_map s) n = Some i \<and> inst_exclusive i \<and> prefix (inst_key F i) path"
  using mount_invD(5) [OF assms(1), of n i] parent_prefix [of "inst_key F i" path] assms(2)
  by (auto simp: mounted_at_def inst_exclusive_def)

lemma mounted_iff_found:
  assumes inv: "mount_inv F clean s" and clean: "clean path"
  shows "(\<exists>n i. mounted_at F s path n i) \<longleftrightarrow> parent_found F (path_to_name_map s) path"
proof -
  have "parent_found F (path_to_name_map s) path \<longleftrightarrow>
      (\<exists>e \<in> set (path_to_name_map s). prefix (fst e) path)"
    using parent_found_iff [OF mount_invD(2) [OF inv] mount_inv_keys_clean [OF inv] clean]
      mount_invD(6) [OF inv] by blast
  also have "\<dots> \<longleftrightarrow> (\<exists>q n. (q, n) \<in> set (path_to_name_map s) \<and> prefix q path)"
    unfolding Bex_def split_paired_Ex fst_conv by blast
  also have "\<dots> \<longleftrightarrow> (\<exists>n i. mounted_at F s path n i)"
    unfolding mounted_at_prefix [OF inv clean] mount_invD(3) [OF inv] by blast
  finally show ?thesis by blast
qed

lemma mounted_entry:
  assumes inv: "mount_inv F clean s" and clean: "clean path" and mounted: "mounted_at F s path n i"
  obtains rest where "before_upper_bound (path_to_name_map s) path = (inst_key F i, n) # rest"
proof -
  from mounted have pre: "prefix (inst_key F i) path" and mem: "(inst_key F i, n) \<in> set (path_to_name_map s)"
    by (auto simp: mounted_at_prefix [OF inv clean] mount_invD(3) [OF inv])
  from mounted have "parent_found F (path_to_name_map s) path"
    using mounted_iff_found [OF inv clean] by blast
  then obtain e rest where e: "before_upper_bound (path_to_name_map s) path = e # rest"
    and "fst e = path \<or> IsParent F (fst e) path"
    by (auto simp: parent_found_def split: list.splits)
  then have "prefix (fst e) path"
    using before_upper_bound_Cons [OF mount_invD(2) [OF inv] e] mount_inv_keys_clean [OF inv]
      parent_prefix clean by auto
  with pre have "prefix (fst e) (inst_key F i) \<or> prefix (inst_key F i) (fst e)"
    using prefix_same_cases by blast
  moreover have e_in: "e \<in> set (path_to_name_map s)"
    using before_upper_bound_Cons [OF mount_invD(2) [OF inv] e] by blast
  ultimately have key: "fst e = inst_key F i"
    using mount_invD(6) [OF inv] mem by fastforce
  with e_in mem om_ok_map_of [OF mount_invD(2) [OF inv]] have "snd e = n"
    by (metis option.inject prod.collapse)
  with key e that show thesis by (metis prod.collapse)
qed

lemma virtual_roundtrip:
  assumes inv: "mount_inv F clean s" and path: "path = NormalizeFilePath F p" and clean: "clean path"
    and noparent: "\<not> ReferencesParent F path" and mounted: "mounted_at F s path n i" and name: "comp n"
  shows "\<exists>vp. GetVirtualPath F s p v = (True, vp) \<and>
    CrackVirtualPath F s vp = Some \<lparr>cracked_mount_name = n, cracked_type = inst_type i,
      cracked_path = StripTrailingSeparators F path, cracked_option = mount_option i\<rparr>"
proof -
  obtain rest where hd: "before_upper_bound (path_to_name_map s) path = (inst_key F i, n) # rest"
    using mounted_entry [OF inv clean mounted] .
  from mounted have i: "map_of (instance_map s) n = Some i" "inst_exclusive i"
    by (simp_all add: mounted_at_def)
  let ?root = "AppendPath F [] (FromUTF8Unsafe F n)"
  have "\<exists>cs. (\<forall>c \<in> set cs. comp c) \<and> GetVirtualPath F s p v = (True, foldl (AppendPath F) ?root cs) \<and>
      foldl (AppendPath F) (inst_path i) cs = StripTrailingSeparators F path"
  proof (cases "inst_key F i = path")
    case True
    with hd mount_invD(4) [OF inv i(1)] show ?thesis
      by (intro exI [of _ "[]"]) (simp add: GetVirtualPath_def Let_def CreateVirtualRootPath_def flip: path)
  next
    case False
    with mounted have par: "IsParent F (inst_key F i) path" by (simp add: mounted_at_def)
    from i mount_invD(5) [OF inv i(1)] have "clean (inst_key F i)" by (simp add: inst_exclusive_def)
    from relative_components [OF this clean par noparent] obtain cs where
      "\<forall>c \<in> set cs. comp c" "AppendRelativePath F (inst_key F i) path ?root = Some (foldl (AppendPath F) ?root cs)"
      "foldl (AppendPath F) (StripTrailingSeparators F (inst_key F i)) cs = StripTrailingSeparators F path"
      by blast
    with hd False mount_invD(4) [OF inv i(1)] show ?thesis
      by (intro exI [of _ cs]) (simp add: GetVirtualPath_def Let_def CreateVirtualRootPath_def flip: path)
  qed
  then obtain cs where cs: "\<forall>c \<in> set cs. comp c"
    and gvp: "GetVirtualPath F s p v = (True, foldl (AppendPath F) ?root cs)"
    and abs: "foldl (AppendPath F) (inst_path i) cs = StripTrailingSeparators F path" by blast
  have "CrackVirtualPath F s (foldl (AppendPath F) ?root cs) = Some \<lparr>cracked_mount_name = n, cracked_type = inst_type i,
      cracked_path = StripTrailingSeparators F path, cracked_option = mount_option i\<rparr>"
    using virtual_components [OF name cs] virtual_no_parent [OF name cs] utf8_roundtrip [OF name] i abs
    by (simp add: CrackVirtualPath_def Let_def)
  with gvp show ?thesis by blast
qed

end

section \<open>Properties\<close>

text \<open>Three mounts: two that must not overlap and a media folder inside the first.\<close>

definition ex_calls :: "mount_call list" where
  "ex_calls =
     [Register ''docs'' kFileSystemTypeLocal 0 ''/home/docs'',
      Register ''media'' kFileSystemTypeLocalMedia 1 ''/home/docs/media/'',
      Register ''lost'' kFileSystemTypeExternal 0 ''/home/docs/lost'',
      Register ''tmp'' kFileSystemTypeExternal 2 ''/tmp'']"

definition ex_mounts :: mount_points where
  "ex_mounts =
     \<lparr>instance_map =
        [(''docs'', \<lparr>inst_type = kFileSystemTypeLocal, inst_path = ''/home/docs'', mount_option = 0\<rparr>),
         (''media'', \<lparr>inst_type = kFileSystemTypeLocalMedia, inst_path = ''/home/docs/media'', mount_option = 1\<rparr>),
         (''tmp'', \<lparr>inst_type = kFileSystemTypeExternal, inst_path = ''/tmp'', mount_option = 2\<rparr>)],
      path_to_name_map = [(''/home/docs/'', ''docs''), (''/tmp/'', ''tmp'')]\<rparr>"

lemma ex_calls_run:
  "run (mount_step posix) ExternalMountPoints ex_calls = Inr (ex_mounts, [True, True, False, True])"
  by code_simp

lemma ex_calls_admissible: "admissible (mount_step posix) (mount_en posix posix_clean) ExternalMountPoints ex_calls"
  by code_simp

lemma ex_mounts_reach: "reach (mount_step posix) (mount_en posix posix_clean) ExternalMountPoints ex_mounts"
  by (rule admissible_run_reach [OF ex_calls_admissible ex_calls_run reach_init])

lemma ex_mounts_docs: "map_of (instance_map ex_mounts) ''docs'' =
    Some \<lparr>inst_type = kFileSystemTypeLocal, inst_path = ''/home/docs'', mount_option = 0\<rparr>"
  by (simp add: ex_mounts_def)

text \<open>
  C3. Over any history of registrations and revocations in which every registered path
  normalises to a clean path (one without a doubled separator or a \<open>'.'\<close> component), no two mounts
  of the types whose overlap is forbidden have the same path or one path inside the other. Without that
  condition the check of the neighbours misses overlaps: see \<open>doubled_separator_hides_parent\<close>.
\<close>

theorem mounts_never_overlap:
  assumes "file_path_laws F clean component"
    and "admissible (mount_step F) (mount_en F clean) ExternalMountPoints calls"
    and "run (mount_step F) ExternalMountPoints calls = Inr (s, results)"
    and "map_of (instance_map s) m = Some i" and "inst_exclusive i"
    and "map_of (instance_map s) n = Some j" and "inst_exclusive j"
    and "m \<noteq> n"
  shows "\<not> overlaps F (inst_key F i) (inst_key F j)"
  using file_path_laws.exclusive_apart [OF assms(1) file_path_laws.run_mount_inv [OF assms(1-3)]] assms(4-8)
  by blast

lemma mounts_never_overlap_witness:
  "\<not> overlaps posix
     (inst_key posix \<lparr>inst_type = kFileSystemTypeLocal, inst_path = ''/home/docs'', mount_option = 0\<rparr>)
     (inst_key posix \<lparr>inst_type = kFileSystemTypeExternal, inst_path = ''/tmp'', mount_option = 2\<rparr>)"
  by (rule mounts_never_overlap [OF posix_paths.file_path_laws_axioms ex_calls_admissible ex_calls_run,
        of "''docs''" _ "''tmp''"])
    (simp_all add: ex_mounts_def inst_exclusive_def IsOverlappingMountPathForbidden_def)

text \<open>
  C12. After a history of clean paths (as in the previous property), and for a path that
  normalises to a clean path, the check of the two neighbours decides the whole map: registering
  succeeds exactly when the name is new and not empty and the path is either empty or absolute without parent
  references and, for a type whose overlap is forbidden, overlaps no mount at all.
\<close>

theorem register_iff_free:
  assumes "file_path_laws F clean component"
    and "reach (mount_step F) (mount_en F clean) ExternalMountPoints s"
    and "IsAbsolute F (NormalizeFilePath F p) \<Longrightarrow> clean (NormalizeFilePath F p)"
  shows "snd (RegisterFileSystem F s n type opt p) \<longleftrightarrow>
    n \<noteq> [] \<and> map_of (instance_map s) n = None \<and>
    (p = [] \<or> \<not> ReferencesParent F (NormalizeFilePath F p) \<and> IsAbsolute F (NormalizeFilePath F p) \<and>
       (IsOverlappingMountPathForbidden type \<longrightarrow> no_overlap F s (NormalizeFilePath F p)))"
  by (rule file_path_laws.register_result [OF assms(1) file_path_laws.reachable_mount_inv [OF assms(1,2)] assms(3)])

lemma register_iff_free_witness:
  "\<not> snd (RegisterFileSystem posix ex_mounts ''deep'' kFileSystemTypeExternal 0 ''/tmp/a/b'')"
proof -
  have "\<not> no_overlap posix ex_mounts (NormalizeFilePath posix ''/tmp/a/b'')" by code_simp
  moreover have "posix_clean (NormalizeFilePath posix ''/tmp/a/b'')" by code_simp
  ultimately show ?thesis
    using register_iff_free [OF posix_paths.file_path_laws_axioms ex_mounts_reach,
        of "''/tmp/a/b''" "''deep''" kFileSystemTypeExternal 0]
    by (simp add: IsOverlappingMountPathForbidden_def)
qed

text \<open>
  Revoking a mount that was just registered succeeds and restores both maps exactly.
\<close>

theorem revoke_undoes_register:
  assumes "file_path_laws F clean component"
    and "reach (mount_step F) (mount_en F clean) ExternalMountPoints s"
    and "IsAbsolute F (NormalizeFilePath F p) \<Longrightarrow> clean (NormalizeFilePath F p)"
    and "snd (RegisterFileSystem F s n type opt p)"
  shows "RevokeFileSystem F (fst (RegisterFileSystem F s n type opt p)) n = (s, True)"
  by (rule file_path_laws.revoke_register
      [OF assms(1) file_path_laws.reachable_mount_inv [OF assms(1,2)] assms(3,4)])

lemma revoke_undoes_register_witness:
  "RevokeFileSystem posix (fst (RegisterFileSystem posix ex_mounts ''usb'' kFileSystemTypeLocal 0 ''/usb/'')) ''usb''
     = (ex_mounts, True)"
proof -
  have "posix_clean (NormalizeFilePath posix ''/usb/'')" by code_simp
  moreover have "snd (RegisterFileSystem posix ex_mounts ''usb'' kFileSystemTypeLocal 0 ''/usb/'')" by code_simp
  ultimately show ?thesis
    by (rule revoke_undoes_register [OF posix_paths.file_path_laws_axioms ex_mounts_reach])
qed



text \<open>
  A path gets a virtual path exactly when some mount contains it: the entry before the upper
  bound is never the wrong one to look at.
\<close>

theorem virtual_path_iff_mounted:
  assumes "file_path_laws F clean component"
    and "reach (mount_step F) (mount_en F clean) ExternalMountPoints s"
    and "clean (NormalizeFilePath F p)"
  shows "fst (GetVirtualPath F s p v) \<longleftrightarrow> (\<exists>n i. mounted_at F s (NormalizeFilePath F p) n i)"
  using file_path_laws.mounted_iff_found [OF assms(1) file_path_laws.reachable_mount_inv [OF assms(1,2)] assms(3)]
    file_path_laws.fst_GetVirtualPath [OF assms(1)] by blast

lemma virtual_path_iff_mounted_witness:
  "fst (GetVirtualPath posix ex_mounts ''/var/x'' []) \<longleftrightarrow>
     (\<exists>n i. mounted_at posix ex_mounts ''/var/x/'' n i)"
proof -
  have "posix_clean (NormalizeFilePath posix ''/var/x'')" by code_simp
  moreover have "NormalizeFilePath posix ''/var/x'' = ''/var/x/''" by code_simp
  ultimately show ?thesis
    using virtual_path_iff_mounted [OF posix_paths.file_path_laws_axioms ex_mounts_reach, of "''/var/x''" "[]"]
    by simp
qed

text \<open>
  On ChromeOS a platform app's URL to a file inside a mount is cracked to the mount's own type,
  option and path, keeping the outer file system id when it has one.
\<close>

theorem platform_app_url_cracks_to_its_mount:
  assumes "file_path_laws F clean component"
    and "reach (mount_step F) (mount_en F clean) ExternalMountPoints s"
    and "url_type url = kFileSystemTypeLocalForPlatformApp"
    and "clean (NormalizeFilePath F (url_path url))"
    and "\<not> ReferencesParent F (NormalizeFilePath F (url_path url))"
    and "mounted_at F s (NormalizeFilePath F (url_path url)) n i" and "component n"
  shows "CrackFileSystemURL F True s url =
    Some (url\<lparr>mount_filesystem_id := (if filesystem_id url \<noteq> [] then filesystem_id url else n),
              url_type := inst_type i,
              url_path := StripTrailingSeparators F (NormalizeFilePath F (url_path url)),
              filesystem_id := n, url_mount_option := mount_option i\<rparr>)"
proof -
  obtain vp where "GetVirtualPath F s (url_path url) (url_path url) = (True, vp)"
    and "CrackVirtualPath F s vp = Some \<lparr>cracked_mount_name = n, cracked_type = inst_type i,
      cracked_path = StripTrailingSeparators F (NormalizeFilePath F (url_path url)), cracked_option = mount_option i\<rparr>"
    using file_path_laws.virtual_roundtrip [OF assms(1) file_path_laws.reachable_mount_inv [OF assms(1,2)]
        refl assms(4-7)] by blast
  with assms(3) show ?thesis
    by (cases url) (simp add: CrackFileSystemURL_def HandlesFileSystemMountType_def)
qed

lemma platform_app_url_cracks_to_its_mount_witness:
  "CrackFileSystemURL posix True ex_mounts
     \<lparr>storage_key = 7, mount_type = kFileSystemTypeExternal, url_virtual_path = [], mount_filesystem_id = [],
      url_type = kFileSystemTypeLocalForPlatformApp, url_path = ''/home/docs/a'', filesystem_id = [],
      url_mount_option = 9\<rparr> =
   Some \<lparr>storage_key = 7, mount_type = kFileSystemTypeExternal, url_virtual_path = [], mount_filesystem_id = ''docs'',
      url_type = kFileSystemTypeLocal, url_path = ''/home/docs/a'', filesystem_id = ''docs'', url_mount_option = 0\<rparr>"
proof -
  let ?u = "\<lparr>storage_key = 7, mount_type = kFileSystemTypeExternal, url_virtual_path = [], mount_filesystem_id = [],
      url_type = kFileSystemTypeLocalForPlatformApp, url_path = ''/home/docs/a'', filesystem_id = [],
      url_mount_option = 9\<rparr>"
  let ?i = "\<lparr>inst_type = kFileSystemTypeLocal, inst_path = ''/home/docs'', mount_option = 0\<rparr>"
  have "posix_clean (NormalizeFilePath posix ''/home/docs/a'')"
    "\<not> ReferencesParent posix (NormalizeFilePath posix ''/home/docs/a'')"
    "mounted_at posix ex_mounts (NormalizeFilePath posix ''/home/docs/a'') ''docs'' ?i" "posix_comp ''docs''"
    "StripTrailingSeparators posix (NormalizeFilePath posix ''/home/docs/a'') = ''/home/docs/a''"
    by code_simp+
  then show ?thesis
    using platform_app_url_cracks_to_its_mount [OF posix_paths.file_path_laws_axioms ex_mounts_reach,
        of ?u "''docs''" ?i] by simp
qed

text \<open>
  The clean-path hypothesis is needed: a doubled separator survives normalisation, sorts before
  its sibling and hides the parent from the neighbour check.
\<close>

lemma doubled_separator_hides_parent:
  "run (mount_step posix) ExternalMountPoints
     [Register ''x'' kFileSystemTypeLocal 0 ''/a//b'', Register ''y'' kFileSystemTypeLocal 0 ''/a/a'',
      Register ''z'' kFileSystemTypeLocal 0 ''/a/b/c'']
   = Inr (\<lparr>instance_map =
       [(''x'', \<lparr>inst_type = kFileSystemTypeLocal, inst_path = ''/a//b'', mount_option = 0\<rparr>),
        (''y'', \<lparr>inst_type = kFileSystemTypeLocal, inst_path = ''/a/a'', mount_option = 0\<rparr>),
        (''z'', \<lparr>inst_type = kFileSystemTypeLocal, inst_path = ''/a/b/c'', mount_option = 0\<rparr>)],
      path_to_name_map = [(''/a//b/'', ''x''), (''/a/a/'', ''y''), (''/a/b/c/'', ''z'')]\<rparr>, [True, True, True])
   \<and> overlaps posix ''/a//b/'' ''/a/b/c/''"
  by code_simp

end
