(* ===== verification/Sk_Glyph.thy ===== *)
theory Sk_Glyph
  imports Prelude
begin

unbundle bit_operations_syntax

text \<open>
  \<open>src/app/graphics/glyph/main_gr.cpp\<close>, the glyph: its metrics, image, path and drawable, their
  encodings, the digest and its actions, and the position rounding.

  A \<open>SkScalar\<close> is the 32 bits of its float: the code of this theory copies scalars and computes
  nothing with them. Memory handed out by the arena is the list of its bytes. What \<open>SkGlyph.h\<close>,
  \<open>SkMask.h\<close> and the buffers declare is not part of the repository: the inline members the code
  calls are the fields of \<open>glyph_header\<close>, the buffers' operations those of \<open>writer_ops\<close> and
  \<open>reader_ops\<close>.
\<close>

section \<open>Data\<close>

type_synonym scalar = "32 word"
type_synonym bytes = "8 word list"

datatype mask_format = kBW_Format | kA8_Format | k3D_Format | kARGB32_Format | kLCD16_Format | kSDF_Format

record intercept =
  fBounds :: "scalar \<times> scalar"
  fInterval :: "scalar \<times> scalar"

record 'p path_data =
  fIntercept :: "intercept list"
  fPath :: 'p
  fHasPath :: bool
  fHairline :: bool
  fModified :: bool

record 'd drawable_data =
  fDrawable :: "'d option"
  fHasDrawable :: bool

record ('p, 'd) sk_glyph =
  fID :: "32 word"
  fAdvanceX :: scalar
  fAdvanceY :: scalar
  fWidth :: "16 word"
  fHeight :: "16 word"
  fLeft :: "16 word"
  fTop :: "16 word"
  fScalerContextBits :: "16 word"
  fMaskFormat :: mask_format
  fImage :: "bytes option"
  fPathData :: "'p path_data option"
  fDrawableData :: "'d drawable_data option"
  fInitialPathDone :: bool

text \<open>The inline members of \<open>SkGlyph.h\<close> and \<open>SkMask.h\<close>.\<close>

record ('p, 'd) glyph_header =
  SkGlyph_ctor :: "32 word \<Rightarrow> ('p, 'd) sk_glyph"
  PackedGlyphID :: "32 word \<Rightarrow> 32 word"
  is_empty :: "16 word \<Rightarrow> 16 word \<Rightarrow> bool"
  image_too_large :: "16 word \<Rightarrow> 16 word \<Rightarrow> bool"
  max_dimension :: "16 word \<Rightarrow> 16 word \<Rightarrow> nat"
  kSkSideTooBigForAtlas :: nat
  image_called :: "bool \<Rightarrow> bool \<Rightarrow> bool \<Rightarrow> bool"
  path_called :: "'p path_data option \<Rightarrow> bool"
  drawable_called :: "'d drawable_data option \<Rightarrow> bool"
  new_path_data :: "'p path_data"
  new_drawable_data :: "'d drawable_data"
  install_image :: "bytes \<Rightarrow> bytes option \<Rightarrow> bytes option"
  format_value :: "mask_format \<Rightarrow> 32 word"
  format_of :: "32 word \<Rightarrow> mask_format option"

definition isEmpty :: "('p, 'd) glyph_header \<Rightarrow> ('p, 'd) sk_glyph \<Rightarrow> bool" where
  "isEmpty H g = is_empty H (fWidth g) (fHeight g)"

definition imageTooLarge :: "('p, 'd) glyph_header \<Rightarrow> ('p, 'd) sk_glyph \<Rightarrow> bool" where
  "imageTooLarge H g = image_too_large H (fWidth g) (fHeight g)"

definition setImageHasBeenCalled :: "('p, 'd) glyph_header \<Rightarrow> ('p, 'd) sk_glyph \<Rightarrow> bool" where
  "setImageHasBeenCalled H g = image_called H (fImage g \<noteq> None) (isEmpty H g) (imageTooLarge H g)"

definition setPathHasBeenCalled :: "('p, 'd) glyph_header \<Rightarrow> ('p, 'd) sk_glyph \<Rightarrow> bool" where
  "setPathHasBeenCalled H g = path_called H (fPathData g)"

definition setDrawableHasBeenCalled :: "('p, 'd) glyph_header \<Rightarrow> ('p, 'd) sk_glyph \<Rightarrow> bool" where
  "setDrawableHasBeenCalled H g = drawable_called H (fDrawableData g)"

section \<open>Buffers\<close>

record ('w, 'p) writer_ops =
  writeUInt :: "'w \<Rightarrow> 32 word \<Rightarrow> 'w"
  writePoint :: "'w \<Rightarrow> scalar \<times> scalar \<Rightarrow> 'w"
  writeBool :: "'w \<Rightarrow> bool \<Rightarrow> 'w"
  writeByteArray :: "'w \<Rightarrow> bytes \<Rightarrow> 'w"
  writePath :: "'w \<Rightarrow> 'p \<Rightarrow> 'w"

text \<open>\<open>readByteArray r n\<close> asks for exactly \<open>n\<close> bytes; \<open>readByteArrayAsData\<close> takes what is there.\<close>

record ('r, 'p) reader_ops =
  isValid :: "'r \<Rightarrow> bool"
  validate :: "'r \<Rightarrow> bool \<Rightarrow> bool \<times> 'r"
  readUInt :: "'r \<Rightarrow> 32 word \<times> 'r"
  readPoint :: "'r \<Rightarrow> (scalar \<times> scalar) \<times> 'r"
  readBool :: "'r \<Rightarrow> bool \<times> 'r"
  readByteArray :: "'r \<Rightarrow> nat \<Rightarrow> bytes \<times> 'r"
  readByteArrayAsData :: "'r \<Rightarrow> bytes \<times> 'r"
  readPath :: "'r \<Rightarrow> 'p option \<times> 'r"

section \<open>Picture-backed drawables\<close>

text \<open>
  \<open>SkPicture\<close>: its serialised bytes, its parser, bounds and size. \<open>'c\<close> is a picture, \<open>'d\<close> a drawable;
  \<open>picture_drawable\<close> is the \<open>SkPictureBackedGlyphDrawable\<close> of a picture and \<open>snapshot\<close> is
  \<open>makePictureSnapshot\<close>.
\<close>

record ('c, 'd, 'cv) picture_ops =
  serialize :: "'c \<Rightarrow> bytes"
  MakeFromData :: "bytes \<Rightarrow> 'c option"
  snapshot :: "'d \<Rightarrow> 'c"
  picture_drawable :: "'c \<Rightarrow> 'd"
  cullRect :: "'c \<Rightarrow> scalar \<times> scalar \<times> scalar \<times> scalar"
  picture_bytes_used :: "'c \<Rightarrow> 64 word"
  drawable_bytes_used :: "'d \<Rightarrow> 64 word"
  drawPicture :: "'cv \<Rightarrow> 'c \<Rightarrow> 'cv"
  sizeof_picture_drawable :: "64 word"

definition MakeDrawableFromBuffer ::
    "('r, 'p) reader_ops \<Rightarrow> ('c, 'd, 'cv) picture_ops \<Rightarrow> 'r \<Rightarrow> ('d option \<times> 'r) checked" where
  "MakeDrawableFromBuffer R P buffer =
     dcheck (isValid R buffer) ''buffer.isValid()''
       (case readByteArrayAsData R buffer of (pictureData, buffer1) \<Rightarrow>
          if \<not> isValid R buffer1 \<or> pictureData = [] then Inr (None, buffer1)
          else (case validate R buffer1 (MakeFromData P pictureData \<noteq> None) of (ok, buffer2) \<Rightarrow>
            if \<not> ok then Inr (None, buffer2)
            else Inr (map_option (picture_drawable P) (MakeFromData P pictureData), buffer2)))"

definition FlattenDrawable ::
    "('w, 'p) writer_ops \<Rightarrow> ('c, 'd, 'cv) picture_ops \<Rightarrow> 'w \<Rightarrow> 'd option \<Rightarrow> 'w" where
  "FlattenDrawable W P buffer drawable =
     (case drawable of
        None \<Rightarrow> writeByteArray W buffer []
      | Some d \<Rightarrow>
          let bytes = serialize P (snapshot P d)
          in if \<not> length bytes < 2 ^ 32 \<or> bytes = [] then writeByteArray W buffer []
             else writeByteArray W buffer bytes)"

definition onGetBounds :: "('c, 'd, 'cv) picture_ops \<Rightarrow> 'c \<Rightarrow> scalar \<times> scalar \<times> scalar \<times> scalar" where
  "onGetBounds P picture = cullRect P picture"

definition onApproximateBytesUsed :: "('c, 'd, 'cv) picture_ops \<Rightarrow> 'c \<Rightarrow> 64 word" where
  "onApproximateBytesUsed P picture = sizeof_picture_drawable P + picture_bytes_used P picture"

definition onDraw :: "('c, 'd, 'cv) picture_ops \<Rightarrow> 'c \<Rightarrow> 'cv \<Rightarrow> 'cv" where
  "onDraw P picture canvas = drawPicture P canvas picture"

section \<open>Metrics\<close>

text \<open>The glyph and the buffer after it; no glyph when the format is not a mask format.\<close>

definition MakeFromBuffer ::
    "('p, 'd) glyph_header \<Rightarrow> ('r, 'p) reader_ops \<Rightarrow> 'r \<Rightarrow> (('p, 'd) sk_glyph option \<times> 'r) checked" where
  "MakeFromBuffer H R buffer =
     dcheck (isValid R buffer) ''buffer.isValid()''
       (case readUInt R buffer of (packed, buffer1) \<Rightarrow>
        case readPoint R buffer1 of ((x, y), buffer2) \<Rightarrow>
        case readUInt R buffer2 of (dimensions, buffer3) \<Rightarrow>
        case readUInt R buffer3 of (leftTop, buffer4) \<Rightarrow>
        case readUInt R buffer4 of (format_bits, buffer5) \<Rightarrow>
        case validate R buffer5 (format_of H format_bits \<noteq> None) of (ok, buffer6) \<Rightarrow>
          if \<not> ok then Inr (None, buffer6)
          else Inr (map_option (\<lambda>format.
            (SkGlyph_ctor H (PackedGlyphID H packed))
              \<lparr>fAdvanceX := x, fAdvanceY := y,
               fWidth := ucast (drop_bit 16 dimensions), fHeight := ucast (dimensions AND 0xffff),
               fLeft := ucast (drop_bit 16 leftTop), fTop := ucast (leftTop AND 0xffff),
               fMaskFormat := format, fInitialPathDone := True\<rparr>) (format_of H format_bits), buffer6))"

definition flattenMetrics ::
    "('p, 'd) glyph_header \<Rightarrow> ('w, 'p) writer_ops \<Rightarrow> ('p, 'd) sk_glyph \<Rightarrow> 'w \<Rightarrow> 'w" where
  "flattenMetrics H W g buffer =
     (let buffer1 = writeUInt W buffer (fID g);
          buffer2 = writePoint W buffer1 (fAdvanceX g, fAdvanceY g);
          buffer3 = writeUInt W buffer2 (push_bit 16 (ucast (fWidth g)) OR ucast (fHeight g));
          left = ucast (fLeft g); top = ucast (fTop g);
          buffer4 = writeUInt W buffer3 (push_bit 16 left OR top)
      in writeUInt W buffer4 (format_value H (fMaskFormat g)))"

text \<open>\<open>SkMask\<close>: the image, its bounds, row bytes and format; \<open>rect_ops\<close> are \<open>SkIRect\<close>'s members.\<close>

record 'rect rect_ops =
  MakeXYWH :: "int \<Rightarrow> int \<Rightarrow> int \<Rightarrow> int \<Rightarrow> 'rect"
  rect_offset :: "'rect \<Rightarrow> int \<Rightarrow> int \<Rightarrow> 'rect"
  SkScalarIsInt :: "scalar \<Rightarrow> bool"
  SkScalarFloorToInt :: "scalar \<Rightarrow> int"

definition bits_to_bytes :: "64 word \<Rightarrow> 64 word" where
  "bits_to_bytes bits = drop_bit 3 (bits + 7)"

definition format_alignment :: "mask_format \<Rightarrow> 64 word" where
  "format_alignment format =
     (case format of
        kBW_Format \<Rightarrow> 1 | kA8_Format \<Rightarrow> 1 | k3D_Format \<Rightarrow> 1 | kSDF_Format \<Rightarrow> 1
      | kARGB32_Format \<Rightarrow> 4
      | kLCD16_Format \<Rightarrow> 2)"

definition format_rowbytes :: "32 word \<Rightarrow> mask_format \<Rightarrow> 64 word" where
  "format_rowbytes width format =
     (if format = kBW_Format then bits_to_bytes (scast width) else scast width * format_alignment format)"

definition formatAlignment :: "('p, 'd) sk_glyph \<Rightarrow> 64 word" where
  "formatAlignment g = format_alignment (fMaskFormat g)"

definition rowBytes :: "('p, 'd) sk_glyph \<Rightarrow> 64 word" where
  "rowBytes g = format_rowbytes (ucast (fWidth g)) (fMaskFormat g)"

definition rowBytesUsingFormat :: "('p, 'd) sk_glyph \<Rightarrow> mask_format \<Rightarrow> 64 word" where
  "rowBytesUsingFormat g format = format_rowbytes (ucast (fWidth g)) format"

definition imageSize :: "('p, 'd) glyph_header \<Rightarrow> ('p, 'd) sk_glyph \<Rightarrow> 64 word" where
  "imageSize H g =
     (if isEmpty H g \<or> imageTooLarge H g then 0
      else let size = rowBytes g * ucast (fHeight g)
           in if fMaskFormat g = k3D_Format then size * 3 else size)"

definition mask_bounds :: "'rect rect_ops \<Rightarrow> ('p, 'd) sk_glyph \<Rightarrow> 'rect" where
  "mask_bounds I g = MakeXYWH I (sint (fLeft g)) (sint (fTop g)) (uint (fWidth g)) (uint (fHeight g))"

definition mask :: "'rect rect_ops \<Rightarrow> ('p, 'd) sk_glyph \<Rightarrow> bytes option \<times> 'rect \<times> 64 word \<times> mask_format" where
  "mask I g = (fImage g, mask_bounds I g, rowBytes g, fMaskFormat g)"

definition mask_at ::
    "'rect rect_ops \<Rightarrow> ('p, 'd) sk_glyph \<Rightarrow> scalar \<Rightarrow> scalar \<Rightarrow>
       (bytes option \<times> 'rect \<times> 64 word \<times> mask_format) checked" where
  "mask_at I g x y =
     dcheck (SkScalarIsInt I x \<and> SkScalarIsInt I y) ''SkScalarIsInt(position)''
       (Inr (fImage g, rect_offset I (mask_bounds I g) (SkScalarFloorToInt I x) (SkScalarFloorToInt I y),
             rowBytes g, fMaskFormat g))"

definition zeroMetrics :: "('p, 'd) sk_glyph \<Rightarrow> ('p, 'd) sk_glyph" where
  "zeroMetrics g = g\<lparr>fAdvanceX := 0, fAdvanceY := 0, fWidth := 0, fHeight := 0, fTop := 0, fLeft := 0\<rparr>"

section \<open>Images\<close>

text \<open>\<open>arena size alignment\<close> are the bytes \<open>makeBytesAlignedTo\<close> hands out.\<close>

type_synonym arena = "64 word \<Rightarrow> 64 word \<Rightarrow> bytes"

definition allocImage ::
    "('p, 'd) glyph_header \<Rightarrow> arena \<Rightarrow> ('p, 'd) sk_glyph \<Rightarrow> (('p, 'd) sk_glyph \<times> 64 word) checked" where
  "allocImage H alloc g =
     dcheck (\<not> isEmpty H g) ''!this->isEmpty()''
       (let size = imageSize H g
        in Inr (g\<lparr>fImage := Some (alloc size (formatAlignment g))\<rparr>, size))"

definition setImage_scaler ::
    "('p, 'd) glyph_header \<Rightarrow> arena \<Rightarrow> (('p, 'd) sk_glyph \<Rightarrow> ('p, 'd) sk_glyph) \<Rightarrow> ('p, 'd) sk_glyph \<Rightarrow>
       (('p, 'd) sk_glyph \<times> bool) checked" where
  "setImage_scaler H alloc getImage g =
     (if \<not> setImageHasBeenCalled H g then
        bindE (allocImage H alloc g) (\<lambda>(g', _).
          let g'' = getImage g'
          in dcheck (fMaskFormat g = fMaskFormat g'') ''oldFormat == this->maskFormat()'' (Inr (g'', True)))
      else Inr (g, False))"

definition setImage ::
    "('p, 'd) glyph_header \<Rightarrow> arena \<Rightarrow> bytes \<Rightarrow> ('p, 'd) sk_glyph \<Rightarrow> (('p, 'd) sk_glyph \<times> bool) checked" where
  "setImage H alloc img g =
     (if \<not> setImageHasBeenCalled H g then
        bindE (allocImage H alloc g) (\<lambda>(g', _).
          Inr (g'\<lparr>fImage := Some (take (unat (imageSize H g')) img)\<rparr>, True))
      else Inr (g, False))"

definition setMetricsAndImage ::
    "('p, 'd) glyph_header \<Rightarrow> arena \<Rightarrow> ('p, 'd) sk_glyph \<Rightarrow> ('p, 'd) sk_glyph \<Rightarrow>
       (('p, 'd) sk_glyph \<times> 64 word) checked" where
  "setMetricsAndImage H alloc from_glyph g =
     dcheck (fImage g = None \<or> fImage from_glyph = None) ''fImage == nullptr || from.fImage == nullptr''
       (if fImage g = None then
          let g1 = g\<lparr>fAdvanceX := fAdvanceX from_glyph, fAdvanceY := fAdvanceY from_glyph,
                     fWidth := fWidth from_glyph, fHeight := fHeight from_glyph,
                     fTop := fTop from_glyph, fLeft := fLeft from_glyph,
                     fScalerContextBits := fScalerContextBits from_glyph,
                     fMaskFormat := fMaskFormat from_glyph\<rparr>;
              done = (\<lambda>h. h\<lparr>fInitialPathDone := fInitialPathDone from_glyph\<rparr>)
          in (case fImage from_glyph of
                None \<Rightarrow> Inr (done g1, 0)
              | Some img \<Rightarrow>
                  bindE (setImage H alloc img g1) (\<lambda>(g2, was_set).
                    if was_set then Inr (g2, imageSize H g2) else Inr (done g2, 0)))
        else Inr (g, 0))"

definition FitsInAtlas :: "('p, 'd) glyph_header \<Rightarrow> ('p, 'd) sk_glyph \<Rightarrow> bool" where
  "FitsInAtlas H g \<longleftrightarrow> max_dimension H (fWidth g) (fHeight g) \<le> kSkSideTooBigForAtlas H"

definition flattenImage ::
    "('p, 'd) glyph_header \<Rightarrow> ('w, 'p) writer_ops \<Rightarrow> ('p, 'd) sk_glyph \<Rightarrow> 'w \<Rightarrow> 'w checked" where
  "flattenImage H W g buffer =
     dcheck (setImageHasBeenCalled H g) ''this->setImageHasBeenCalled()''
       (if \<not> isEmpty H g \<and> FitsInAtlas H g
        then Inr (writeByteArray W buffer (case fImage g of Some img \<Rightarrow> take (unat (imageSize H g)) img | None \<Rightarrow> []))
        else Inr buffer)"

definition addImageFromBuffer ::
    "('p, 'd) glyph_header \<Rightarrow> ('r, 'p) reader_ops \<Rightarrow> ('p, 'd) sk_glyph \<Rightarrow> 'r \<Rightarrow>
       (('p, 'd) sk_glyph \<times> 64 word \<times> 'r) checked" where
  "addImageFromBuffer H R g buffer =
     dcheck (isValid R buffer) ''buffer.isValid()''
       (if isEmpty H g \<or> \<not> FitsInAtlas H g then Inr (g, 0, buffer)
        else (case readByteArray R buffer (unat (imageSize H g)) of (imageData, buffer1) \<Rightarrow>
          if isValid R buffer1
          then Inr (g\<lparr>fImage := install_image H imageData (fImage g)\<rparr>, imageSize H g, buffer1)
          else Inr (g, 0, buffer1)))"

section \<open>Paths\<close>

definition installPath ::
    "('p, 'd) glyph_header \<Rightarrow> 'p option \<Rightarrow> bool \<Rightarrow> bool \<Rightarrow> ('p, 'd) sk_glyph \<Rightarrow> ('p, 'd) sk_glyph checked" where
  "installPath H path hairline modified g =
     dcheck (fPathData g = None) ''fPathData == nullptr''
       (dcheck (\<not> setPathHasBeenCalled H g) ''!this->setPathHasBeenCalled()''
         (Inr (g\<lparr>fPathData := Some (case path of
             None \<Rightarrow> new_path_data H
           | Some p \<Rightarrow> (new_path_data H)\<lparr>fPath := p, fHasPath := True, fHairline := hairline,
                                         fModified := modified\<rparr>)\<rparr>)))"

text \<open>\<open>path\<close>, \<open>pathIsHairline\<close>, \<open>pathIsModified\<close> dereference \<open>fPathData\<close> after the assertion.\<close>

definition path_data_of ::
    "('p, 'd) glyph_header \<Rightarrow> ('p, 'd) sk_glyph \<Rightarrow> ('p path_data \<Rightarrow> 'a) \<Rightarrow> 'a checked" where
  "path_data_of H g f =
     dcheck (setPathHasBeenCalled H g) ''this->setPathHasBeenCalled()''
       (case fPathData g of Some d \<Rightarrow> Inr (f d) | None \<Rightarrow> Inl (NotReached ''fPathData''))"

definition path :: "('p, 'd) glyph_header \<Rightarrow> ('p, 'd) sk_glyph \<Rightarrow> 'p option checked" where
  "path H g = path_data_of H g (\<lambda>d. if fHasPath d then Some (fPath d) else None)"

definition pathIsHairline :: "('p, 'd) glyph_header \<Rightarrow> ('p, 'd) sk_glyph \<Rightarrow> bool checked" where
  "pathIsHairline H g = path_data_of H g fHairline"

definition pathIsModified :: "('p, 'd) glyph_header \<Rightarrow> ('p, 'd) sk_glyph \<Rightarrow> bool checked" where
  "pathIsModified H g = path_data_of H g fModified"

definition setPath_scaler ::
    "('p, 'd) glyph_header \<Rightarrow> (('p, 'd) sk_glyph \<Rightarrow> ('p, 'd) sk_glyph) \<Rightarrow> ('p, 'd) sk_glyph \<Rightarrow>
       (('p, 'd) sk_glyph \<times> bool) checked" where
  "setPath_scaler H getPath g =
     (if \<not> setPathHasBeenCalled H g then
        let g' = getPath g
        in dcheck (setPathHasBeenCalled H g') ''this->setPathHasBeenCalled()''
             (bindE (path H g') (\<lambda>p. Inr (g', p \<noteq> None)))
      else Inr (g, False))"

definition setPath ::
    "('p, 'd) glyph_header \<Rightarrow> 'p option \<Rightarrow> bool \<Rightarrow> bool \<Rightarrow> ('p, 'd) sk_glyph \<Rightarrow>
       (('p, 'd) sk_glyph \<times> bool) checked" where
  "setPath H p hairline modified g =
     (if \<not> setPathHasBeenCalled H g then
        bindE (installPath H p hairline modified g) (\<lambda>g'. bindE (path H g') (\<lambda>q. Inr (g', q \<noteq> None)))
      else Inr (g, False))"

definition flattenPath ::
    "('p, 'd) glyph_header \<Rightarrow> ('w, 'p) writer_ops \<Rightarrow> ('p, 'd) sk_glyph \<Rightarrow> 'w \<Rightarrow> 'w checked" where
  "flattenPath H W g buffer =
     dcheck (setPathHasBeenCalled H g) ''this->setPathHasBeenCalled()''
       (bindE (path H g) (\<lambda>p.
          let buffer1 = writeBool W buffer (p \<noteq> None)
          in case p of
               None \<Rightarrow> Inr buffer1
             | Some q \<Rightarrow>
                 bindE (pathIsHairline H g) (\<lambda>h. bindE (pathIsModified H g) (\<lambda>m.
                   Inr (writePath W (writeBool W (writeBool W buffer1 h) m) q)))))"

definition addPathFromBuffer ::
    "('p, 'd) glyph_header \<Rightarrow> ('r, 'p) reader_ops \<Rightarrow> ('p \<Rightarrow> 64 word) \<Rightarrow> ('p, 'd) sk_glyph \<Rightarrow> 'r \<Rightarrow>
       (('p, 'd) sk_glyph \<times> 64 word \<times> 'r) checked" where
  "addPathFromBuffer H R approximateBytesUsed g buffer =
     dcheck (isValid R buffer) ''buffer.isValid()''
       (case readBool R buffer of (hasPath, buffer1) \<Rightarrow>
          if \<not> isValid R buffer1 then Inr (g, 0, buffer1)
          else if hasPath then
            (case readBool R buffer1 of (hairline, buffer2) \<Rightarrow>
             case readBool R buffer2 of (modified, buffer3) \<Rightarrow>
             case readPath R buffer3 of
               (None, buffer4) \<Rightarrow> Inr (g, 0, buffer4)
             | (Some p, buffer4) \<Rightarrow>
                 bindE (setPath H (Some p) hairline modified g) (\<lambda>(g', was_set).
                   Inr (g', (if was_set then approximateBytesUsed p else 0), buffer4)))
          else bindE (setPath H None False False g) (\<lambda>(g', _). Inr (g', 0, buffer1)))"

section \<open>Drawables\<close>

definition installDrawable ::
    "('p, 'd) glyph_header \<Rightarrow> 'd option \<Rightarrow> ('p, 'd) sk_glyph \<Rightarrow> ('p, 'd) sk_glyph checked" where
  "installDrawable H d g =
     dcheck (fDrawableData g = None) ''fDrawableData == nullptr''
       (dcheck (\<not> setDrawableHasBeenCalled H g) ''!this->setDrawableHasBeenCalled()''
         (Inr (g\<lparr>fDrawableData := Some (case d of
             None \<Rightarrow> new_drawable_data H
           | Some _ \<Rightarrow> (new_drawable_data H)\<lparr>fDrawable := d, fHasDrawable := True\<rparr>)\<rparr>)))"

definition drawable :: "('p, 'd) glyph_header \<Rightarrow> ('p, 'd) sk_glyph \<Rightarrow> 'd option checked" where
  "drawable H g =
     dcheck (setDrawableHasBeenCalled H g) ''this->setDrawableHasBeenCalled()''
       (case fDrawableData g of
          Some d \<Rightarrow> Inr (if fHasDrawable d then fDrawable d else None)
        | None \<Rightarrow> Inl (NotReached ''fDrawableData''))"

definition setDrawable ::
    "('p, 'd) glyph_header \<Rightarrow> 'd option \<Rightarrow> ('p, 'd) sk_glyph \<Rightarrow> (('p, 'd) sk_glyph \<times> bool) checked" where
  "setDrawable H d g =
     (if \<not> setDrawableHasBeenCalled H g then
        bindE (installDrawable H d g) (\<lambda>g'. bindE (drawable H g') (\<lambda>q. Inr (g', q \<noteq> None)))
      else Inr (g, False))"

definition setDrawable_scaler ::
    "('p, 'd) glyph_header \<Rightarrow> (('p, 'd) sk_glyph \<Rightarrow> 'd option) \<Rightarrow> ('p, 'd) sk_glyph \<Rightarrow>
       (('p, 'd) sk_glyph \<times> bool) checked" where
  "setDrawable_scaler H getDrawable g =
     (if \<not> setDrawableHasBeenCalled H g then
        bindE (installDrawable H (getDrawable g) g) (\<lambda>g'. bindE (drawable H g') (\<lambda>q. Inr (g', q \<noteq> None)))
      else Inr (g, False))"

definition flattenDrawable ::
    "('p, 'd) glyph_header \<Rightarrow> ('w, 'p) writer_ops \<Rightarrow> ('c, 'd, 'cv) picture_ops \<Rightarrow> ('p, 'd) sk_glyph \<Rightarrow> 'w \<Rightarrow>
       'w checked" where
  "flattenDrawable H W P g buffer =
     dcheck (setDrawableHasBeenCalled H g) ''this->setDrawableHasBeenCalled()''
       (if isEmpty H g then Inr (FlattenDrawable W P buffer None)
        else bindE (drawable H g) (\<lambda>d. Inr (FlattenDrawable W P buffer d)))"

definition addDrawableFromBuffer ::
    "('p, 'd) glyph_header \<Rightarrow> ('r, 'p) reader_ops \<Rightarrow> ('c, 'd, 'cv) picture_ops \<Rightarrow> ('p, 'd) sk_glyph \<Rightarrow> 'r \<Rightarrow>
       (('p, 'd) sk_glyph \<times> 64 word \<times> 'r) checked" where
  "addDrawableFromBuffer H R P g buffer =
     dcheck (isValid R buffer) ''buffer.isValid()''
       (bindE (MakeDrawableFromBuffer R P buffer) (\<lambda>(d, buffer1).
          if \<not> isValid R buffer1 then Inr (g, 0, buffer1)
          else bindE (setDrawable H d g) (\<lambda>(g', was_set).
            if was_set then bindE (drawable H g') (\<lambda>q.
              Inr (g', (case q of Some e \<Rightarrow> drawable_bytes_used P e | None \<Rightarrow> 0), buffer1))
            else Inr (g', 0, buffer1))))"

end
