(* ===== verification/Glyph_Codec.thy ===== *)
theory Glyph_Codec
  imports Sk_Glyph
begin

unbundle bit_operations_syntax

text \<open>
  The encodings of a glyph are read back exactly. \<open>sk_buffers\<close> is what the code relies on of
  \<open>SkWriteBuffer\<close> and \<open>SkReadBuffer\<close>: a valid reader returns the items that were written, in order.
  \<open>glyph_header_laws\<close> is what it relies on of the inline members in \<open>SkGlyph.h\<close>. The three parts of
  a glyph that are filled in once share the interface \<open>set_once\<close>.
\<close>

section \<open>Interfaces\<close>

datatype 'p item =
  UIntItem "32 word" | PointItem "scalar \<times> scalar" | BoolItem bool | BytesItem bytes | PathItem 'p

locale sk_buffers =
  fixes W :: "('w, 'p) writer_ops" and R :: "('r, 'p) reader_ops"
    and written :: "'w \<Rightarrow> 'p item list" and ahead :: "'r \<Rightarrow> 'p item list"
  assumes written_UInt: "written (writeUInt W b v) = written b @ [UIntItem v]"
    and written_Point: "written (writePoint W b pt) = written b @ [PointItem pt]"
    and written_Bool: "written (writeBool W b c) = written b @ [BoolItem c]"
    and written_Bytes: "written (writeByteArray W b bs) = written b @ [BytesItem bs]"
    and written_Path: "written (writePath W b p) = written b @ [PathItem p]"
    and read_UInt: "isValid R r \<Longrightarrow> ahead r = UIntItem v # xs \<Longrightarrow>
      \<exists>r'. readUInt R r = (v, r') \<and> isValid R r' \<and> ahead r' = xs"
    and read_Point: "isValid R r \<Longrightarrow> ahead r = PointItem pt # xs \<Longrightarrow>
      \<exists>r'. readPoint R r = (pt, r') \<and> isValid R r' \<and> ahead r' = xs"
    and read_Bool: "isValid R r \<Longrightarrow> ahead r = BoolItem c # xs \<Longrightarrow>
      \<exists>r'. readBool R r = (c, r') \<and> isValid R r' \<and> ahead r' = xs"
    and read_Bytes: "isValid R r \<Longrightarrow> ahead r = BytesItem bs # xs \<Longrightarrow> n = length bs \<Longrightarrow>
      \<exists>r'. readByteArray R r n = (bs, r') \<and> isValid R r' \<and> ahead r' = xs"
    and read_Data: "isValid R r \<Longrightarrow> ahead r = BytesItem bs # xs \<Longrightarrow>
      \<exists>r'. readByteArrayAsData R r = (bs, r') \<and> isValid R r' \<and> ahead r' = xs"
    and read_Path: "isValid R r \<Longrightarrow> ahead r = PathItem p # xs \<Longrightarrow>
      \<exists>r'. readPath R r = (Some p, r') \<and> isValid R r' \<and> ahead r' = xs"
    and validate_passes: "isValid R r \<Longrightarrow> \<exists>r'. validate R r True = (True, r') \<and> isValid R r' \<and> ahead r' = ahead r"

locale glyph_header_laws =
  fixes H :: "('p, 'd) glyph_header"
  assumes format_of_value: "format_of H (format_value H f) = Some f"
    and path_called_iff: "path_called H d \<longleftrightarrow> d \<noteq> None"
    and drawable_called_iff: "drawable_called H e \<longleftrightarrow> e \<noteq> None"
    and image_called_iff: "image_called H has_image no_pixels too_large \<longleftrightarrow> has_image \<or> no_pixels \<or> too_large"
    and new_path_has_none: "\<not> fHasPath (new_path_data H) \<and> fIntercept (new_path_data H) = []"
    and new_drawable_has_none: "\<not> fHasDrawable (new_drawable_data H)"
    and install_image_sets: "install_image H bs old = Some bs"

text \<open>
  A part of a value that is set once: \<open>present\<close> tells whether it has been, \<open>put v\<close> sets it.
\<close>

locale set_once =
  fixes present :: "'g \<Rightarrow> bool" and put :: "'v \<Rightarrow> 'g \<Rightarrow> ('g \<times> bool) checked"
  assumes put_ignored: "present g \<Longrightarrow> put v g = Inr (g, False)"
    and put_present: "\<not> present g \<Longrightarrow> put v g = Inr (g', b) \<Longrightarrow> present g'"
begin

lemma put_again: "put v g = Inr (g1, b) \<Longrightarrow> put v' g1 = Inr (g1, False)"
  by (cases "present g") (auto simp: put_ignored dest: put_present)

fun put_all :: "'v list \<Rightarrow> 'g \<Rightarrow> 'g checked" where
  "put_all [] g = Inr g"
| "put_all (v # vs) g = bindE (put v g) (\<lambda>(g', _). put_all vs g')"

lemma put_all_present: "present g \<Longrightarrow> put_all vs g = Inr g"
  by (induction vs) (simp_all add: put_ignored)

lemma first_put_wins:
  "\<not> present g \<Longrightarrow> put_all (v # vs) g = bindE (put v g) (\<lambda>(g', _). Inr g')"
  by (cases "put v g") (auto simp: put_all_present put_present)

end

section \<open>Packed dimensions\<close>

lemma unpack_low: "ucast ((push_bit 16 (ucast (w :: 16 word)) OR ucast (h :: 16 word) :: 32 word) AND 0xffff) = h"
proof -
  have m: "(0xffff :: 32 word) = Bit_Operations.mask 16" by (simp add: Bit_Operations.mask_eq_exp_minus_1)
  show ?thesis
    unfolding m by (rule bit_word_eqI) (auto simp: bit_simps dest: bit_imp_le_length)
qed

lemma unpack_high:
  "ucast (drop_bit 16 (push_bit 16 (ucast (w :: 16 word))) OR drop_bit 16 (ucast (h :: 16 word)) :: 32 word) = w"
  by (rule bit_word_eqI) (auto simp: bit_simps dest: bit_imp_le_length)

section \<open>Reading back what was written\<close>

locale glyph_codec = sk_buffers W R written ahead + glyph_header_laws H
  for W :: "('w, 'p) writer_ops" and R :: "('r, 'p) reader_ops"
    and written :: "'w \<Rightarrow> 'p item list" and ahead :: "'r \<Rightarrow> 'p item list"
    and H :: "('p, 'd) glyph_header"
begin

lemma flattenMetrics_items:
  "written (flattenMetrics H W g w) = written w @
     [UIntItem (fID g), PointItem (fAdvanceX g, fAdvanceY g),
      UIntItem (push_bit 16 (ucast (fWidth g)) OR ucast (fHeight g)),
      UIntItem (push_bit 16 (ucast (fLeft g)) OR ucast (fTop g)),
      UIntItem (format_value H (fMaskFormat g))]"
  by (simp add: flattenMetrics_def Let_def written_UInt written_Point)

lemma metrics_read_back:
  assumes "isValid R r" and "ahead r = UIntItem (fID g) # PointItem (fAdvanceX g, fAdvanceY g) #
      UIntItem (push_bit 16 (ucast (fWidth g)) OR ucast (fHeight g)) #
      UIntItem (push_bit 16 (ucast (fLeft g)) OR ucast (fTop g)) #
      UIntItem (format_value H (fMaskFormat g)) # xs"
    and "PackedGlyphID H (fID g) = fID g"
  shows "\<exists>r'. MakeFromBuffer H R r = Inr (Some ((SkGlyph_ctor H (fID g))
      \<lparr>fAdvanceX := fAdvanceX g, fAdvanceY := fAdvanceY g, fWidth := fWidth g, fHeight := fHeight g,
       fLeft := fLeft g, fTop := fTop g, fMaskFormat := fMaskFormat g, fInitialPathDone := True\<rparr>), r') \<and>
     isValid R r' \<and> ahead r' = xs"
proof -
  from read_UInt [OF assms(1,2)] obtain r1 where r1: "readUInt R r = (fID g, r1)" "isValid R r1"
    "ahead r1 = PointItem (fAdvanceX g, fAdvanceY g) #
      UIntItem (push_bit 16 (ucast (fWidth g)) OR ucast (fHeight g)) #
      UIntItem (push_bit 16 (ucast (fLeft g)) OR ucast (fTop g)) #
      UIntItem (format_value H (fMaskFormat g)) # xs" by blast
  from read_Point [OF r1(2,3)] obtain r2 where r2: "readPoint R r1 = ((fAdvanceX g, fAdvanceY g), r2)"
    "isValid R r2" "ahead r2 = UIntItem (push_bit 16 (ucast (fWidth g)) OR ucast (fHeight g)) #
      UIntItem (push_bit 16 (ucast (fLeft g)) OR ucast (fTop g)) #
      UIntItem (format_value H (fMaskFormat g)) # xs" by blast
  from read_UInt [OF r2(2,3)] obtain r3 where
    r3: "readUInt R r2 = (push_bit 16 (ucast (fWidth g)) OR ucast (fHeight g), r3)" "isValid R r3"
      "ahead r3 = UIntItem (push_bit 16 (ucast (fLeft g)) OR ucast (fTop g)) #
        UIntItem (format_value H (fMaskFormat g)) # xs" by blast
  from read_UInt [OF r3(2,3)] obtain r4 where
    r4: "readUInt R r3 = (push_bit 16 (ucast (fLeft g)) OR ucast (fTop g), r4)" "isValid R r4"
      "ahead r4 = UIntItem (format_value H (fMaskFormat g)) # xs" by blast
  from read_UInt [OF r4(2,3)] obtain r5 where
    r5: "readUInt R r4 = (format_value H (fMaskFormat g), r5)" "isValid R r5" "ahead r5 = xs" by blast
  from validate_passes [OF r5(2)] obtain r6 where "validate R r5 True = (True, r6)" "isValid R r6" "ahead r6 = xs"
    using r5(3) by auto
  with assms(1,3) r1(1) r2(1) r3(1) r4(1) r5(1) show ?thesis
    by (simp add: MakeFromBuffer_def format_of_value unpack_high unpack_low)
qed

lemma path_parts:
  assumes "fPathData g = Some d"
  shows "path H g = Inr (if fHasPath d then Some (fPath d) else None)"
    and "pathIsHairline H g = Inr (fHairline d)" and "pathIsModified H g = Inr (fModified d)"
  using assms
  by (simp_all add: path_def pathIsHairline_def pathIsModified_def path_data_of_def
    setPathHasBeenCalled_def path_called_iff)

lemma setPath_fresh:
  assumes "fPathData g = None"
  shows "setPath H p h m g = Inr (g\<lparr>fPathData := Some (case p of None \<Rightarrow> new_path_data H
     | Some q \<Rightarrow> (new_path_data H)\<lparr>fPath := q, fHasPath := True, fHairline := h, fModified := m\<rparr>)\<rparr>, p \<noteq> None)"
  using assms new_path_has_none
  by (simp add: setPath_def installPath_def setPathHasBeenCalled_def path_called_iff path_def path_data_of_def
    split: option.split)

lemma path_read_back:
  assumes "flattenPath H W g w = Inr w'" and "written w = []"
    and "isValid R r" and "ahead r = written w' @ xs" and "fPathData g0 = None"
  shows "\<exists>g' n r'. addPathFromBuffer H R used g0 r = Inr (g', n, r') \<and> isValid R r' \<and> ahead r' = xs \<and>
    path H g' = path H g \<and>
    (path H g \<noteq> Inr None \<longrightarrow> pathIsHairline H g' = pathIsHairline H g \<and> pathIsModified H g' = pathIsModified H g)"
proof -
  from assms(1) obtain d where d: "fPathData g = Some d"
    by (auto simp: flattenPath_def dcheck_Inr_iff setPathHasBeenCalled_def path_called_iff)
  show ?thesis
  proof (cases "fHasPath d")
    case False
    with assms d have "ahead r = BoolItem False # xs"
      by (simp add: flattenPath_def path_parts [OF d] setPathHasBeenCalled_def path_called_iff written_Bool)
        (metis append_Cons append_Nil written_Bool)
    from read_Bool [OF assms(3) this] obtain r1 where "readBool R r = (False, r1)" "isValid R r1" "ahead r1 = xs"
      by blast
    with assms(3) show ?thesis
      using d False new_path_has_none
      by (simp add: addPathFromBuffer_def setPath_fresh [OF assms(5)] path_parts)
  next
    case True
    with assms d have "ahead r = BoolItem True # BoolItem (fHairline d) # BoolItem (fModified d) # PathItem (fPath d) # xs"
      by (auto simp: flattenPath_def path_parts [OF d] setPathHasBeenCalled_def path_called_iff written_Bool
        written_Path Let_def)
    from read_Bool [OF assms(3) this] obtain r1 where r1: "readBool R r = (True, r1)" "isValid R r1"
      "ahead r1 = BoolItem (fHairline d) # BoolItem (fModified d) # PathItem (fPath d) # xs" by blast
    from read_Bool [OF r1(2,3)] obtain r2 where r2: "readBool R r1 = (fHairline d, r2)" "isValid R r2"
      "ahead r2 = BoolItem (fModified d) # PathItem (fPath d) # xs" by blast
    from read_Bool [OF r2(2,3)] obtain r3 where r3: "readBool R r2 = (fModified d, r3)" "isValid R r3"
      "ahead r3 = PathItem (fPath d) # xs" by blast
    from read_Path [OF r3(2,3)] obtain r4 where r4: "readPath R r3 = (Some (fPath d), r4)" "isValid R r4"
      "ahead r4 = xs" by blast
    show ?thesis
      using assms(3) r1 r2 r3 r4 d True
      by (simp add: addPathFromBuffer_def setPath_fresh [OF assms(5)] path_parts)
  qed
qed

lemma image_read_back:
  assumes "flattenImage H W g w = Inr w'" and "written w = []"
    and "isValid R r" and "ahead r = written w' @ xs"
    and "fImage g = Some img" and "length img = unat (imageSize H g)"
    and "fWidth g0 = fWidth g" and "fHeight g0 = fHeight g" and "fMaskFormat g0 = fMaskFormat g"
    and "\<not> isEmpty H g" and "FitsInAtlas H g"
  shows "\<exists>r'. addImageFromBuffer H R g0 r = Inr (g0\<lparr>fImage := fImage g\<rparr>, imageSize H g, r') \<and>
    isValid R r' \<and> ahead r' = xs"
proof -
  from assms have size: "imageSize H g0 = imageSize H g" and "isEmpty H g0 = isEmpty H g"
    and "FitsInAtlas H g0 = FitsInAtlas H g"
    by (simp_all add: imageSize_def isEmpty_def imageTooLarge_def rowBytes_def FitsInAtlas_def)
  moreover from assms have "ahead r = BytesItem img # xs"
    by (auto simp: flattenImage_def dcheck_Inr_iff written_Bytes)
  from read_Bytes [OF assms(3) this, of "unat (imageSize H g)"] assms(6) obtain r1 where
    "readByteArray R r (unat (imageSize H g)) = (img, r1)" "isValid R r1" "ahead r1 = xs" by auto
  ultimately show ?thesis
    using assms by (simp add: addImageFromBuffer_def install_image_sets)
qed

lemma setDrawable_fresh:
  assumes "fDrawableData g = None"
  shows "setDrawable H d g = Inr (g\<lparr>fDrawableData := Some (case d of None \<Rightarrow> new_drawable_data H
     | Some _ \<Rightarrow> (new_drawable_data H)\<lparr>fDrawable := d, fHasDrawable := True\<rparr>)\<rparr>, d \<noteq> None)"
  using assms new_drawable_has_none
  by (simp add: setDrawable_def installDrawable_def setDrawableHasBeenCalled_def drawable_called_iff drawable_def
    split: option.split)

lemma drawable_read_back:
  assumes "flattenDrawable H W P g w = Inr w'" and "written w = []"
    and "isValid R r" and "ahead r = written w' @ xs" and "fDrawableData g0 = None"
    and "\<not> isEmpty H g" and "drawable H g = Inr (Some d)"
    and "serialize P (snapshot P d) \<noteq> []" and "length (serialize P (snapshot P d)) < 2 ^ 32"
    and "MakeFromData P (serialize P (snapshot P d)) = Some c"
  shows "\<exists>g' r'. addDrawableFromBuffer H R P g0 r = Inr (g', drawable_bytes_used P (picture_drawable P c), r') \<and>
    isValid R r' \<and> ahead r' = xs \<and> drawable H g' = Inr (Some (picture_drawable P c))"
proof -
  from assms have "ahead r = BytesItem (serialize P (snapshot P d)) # xs"
    by (auto simp: flattenDrawable_def dcheck_Inr_iff FlattenDrawable_def written_Bytes Let_def)
  from read_Data [OF assms(3) this] obtain r1 where r1:
    "readByteArrayAsData R r = (serialize P (snapshot P d), r1)" "isValid R r1" "ahead r1 = xs" by blast
  from validate_passes [OF r1(2)] obtain r2 where "validate R r1 True = (True, r2)" "isValid R r2" "ahead r2 = xs"
    using r1(3) by auto
  with r1 assms(3,8,10) show ?thesis
    by (simp add: addDrawableFromBuffer_def MakeDrawableFromBuffer_def setDrawable_fresh [OF assms(5)]
      drawable_def setDrawableHasBeenCalled_def drawable_called_iff)
qed

end

section \<open>Set once\<close>

context glyph_header_laws begin

lemma setImage_keeps: "setImageHasBeenCalled H g \<Longrightarrow> setImage H alloc img g = Inr (g, False)"
  by (simp add: setImage_def)

lemma setImage_present: "\<not> setImageHasBeenCalled H g \<Longrightarrow> setImage H alloc img g = Inr (g', b) \<Longrightarrow>
    setImageHasBeenCalled H g'"
  by (auto simp: setImage_def bindE_Inr_iff setImageHasBeenCalled_def image_called_iff)

lemma setPath_keeps: "setPathHasBeenCalled H g \<Longrightarrow> setPath H p h m g = Inr (g, False)"
  by (simp add: setPath_def)

lemma setPath_present: "\<not> setPathHasBeenCalled H g \<Longrightarrow> setPath H p h m g = Inr (g', b) \<Longrightarrow> setPathHasBeenCalled H g'"
  by (auto simp: setPath_def installPath_def checked_iffs setPathHasBeenCalled_def path_called_iff)

lemma setDrawable_keeps: "setDrawableHasBeenCalled H g \<Longrightarrow> setDrawable H d g = Inr (g, False)"
  by (simp add: setDrawable_def)

lemma setDrawable_present: "\<not> setDrawableHasBeenCalled H g \<Longrightarrow> setDrawable H d g = Inr (g', b) \<Longrightarrow>
    setDrawableHasBeenCalled H g'"
  by (auto simp: setDrawable_def installDrawable_def checked_iffs setDrawableHasBeenCalled_def drawable_called_iff)

end

sublocale glyph_header_laws \<subseteq> image_once: set_once "setImageHasBeenCalled H" "setImage H alloc" for alloc
  by unfold_locales (rule setImage_keeps setImage_present; assumption)+

sublocale glyph_header_laws \<subseteq> path_once: set_once "setPathHasBeenCalled H" "\<lambda>(p, h, m). setPath H p h m"
  by unfold_locales (auto simp: setPath_keeps intro: setPath_present)

sublocale glyph_header_laws \<subseteq> drawable_once: set_once "setDrawableHasBeenCalled H" "setDrawable H"
  by unfold_locales (rule setDrawable_keeps setDrawable_present; assumption)+

context glyph_header_laws begin

lemma parts_again:
  "setImage H alloc img g = Inr (g1, b) \<Longrightarrow> setImage H alloc img' g1 = Inr (g1, False)"
  "setPath H p h m g = Inr (g1, b) \<Longrightarrow> setPath H p' h' m' g1 = Inr (g1, False)"
  "setDrawable H d g = Inr (g1, b) \<Longrightarrow> setDrawable H d' g1 = Inr (g1, False)"
  using image_once.put_again path_once.put_again [of "(p, h, m)" g g1 b "(p', h', m')"] drawable_once.put_again
  by auto

end

section \<open>Buffers and a header that satisfy the interfaces\<close>

definition list_writer :: "('p item list, 'p) writer_ops" where
  "list_writer =
     \<lparr>writeUInt = (\<lambda>b v. b @ [UIntItem v]), writePoint = (\<lambda>b v. b @ [PointItem v]),
      writeBool = (\<lambda>b v. b @ [BoolItem v]), writeByteArray = (\<lambda>b v. b @ [BytesItem v]),
      writePath = (\<lambda>b v. b @ [PathItem v])\<rparr>"

text \<open>The items left, \<open>None\<close> once a read has failed.\<close>

definition list_reader :: "('p item list option, 'p) reader_ops" where
  "list_reader =
     \<lparr>isValid = (\<lambda>r. r \<noteq> None),
      validate = (\<lambda>r b. if b \<and> r \<noteq> None then (True, r) else (False, None)),
      readUInt = (\<lambda>r. case r of Some (UIntItem v # xs) \<Rightarrow> (v, Some xs) | _ \<Rightarrow> (0, None)),
      readPoint = (\<lambda>r. case r of Some (PointItem v # xs) \<Rightarrow> (v, Some xs) | _ \<Rightarrow> ((0, 0), None)),
      readBool = (\<lambda>r. case r of Some (BoolItem v # xs) \<Rightarrow> (v, Some xs) | _ \<Rightarrow> (False, None)),
      readByteArray = (\<lambda>r n. case r of Some (BytesItem v # xs) \<Rightarrow>
        if length v = n then (v, Some xs) else (replicate n 0, None) | _ \<Rightarrow> (replicate n 0, None)),
      readByteArrayAsData = (\<lambda>r. case r of Some (BytesItem v # xs) \<Rightarrow> (v, Some xs) | _ \<Rightarrow> ([], None)),
      readPath = (\<lambda>r. case r of Some (PathItem v # xs) \<Rightarrow> (Some v, Some xs) | _ \<Rightarrow> (None, None))\<rparr>"

definition list_format_value :: "mask_format \<Rightarrow> 32 word" where
  "list_format_value f = (case f of kBW_Format \<Rightarrow> 0 | kA8_Format \<Rightarrow> 1 | k3D_Format \<Rightarrow> 2 | kARGB32_Format \<Rightarrow> 3
     | kLCD16_Format \<Rightarrow> 4 | kSDF_Format \<Rightarrow> 5)"

definition list_format_of :: "32 word \<Rightarrow> mask_format option" where
  "list_format_of v = (if v = 0 then Some kBW_Format else if v = 1 then Some kA8_Format
     else if v = 2 then Some k3D_Format else if v = 3 then Some kARGB32_Format
     else if v = 4 then Some kLCD16_Format else if v = 5 then Some kSDF_Format else None)"

definition blank_glyph :: "32 word \<Rightarrow> (nat, nat) sk_glyph" where
  "blank_glyph i = \<lparr>fID = i, fAdvanceX = 0, fAdvanceY = 0, fWidth = 0, fHeight = 0, fLeft = 0, fTop = 0,
     fScalerContextBits = 0, fMaskFormat = kBW_Format, fImage = None, fPathData = None, fDrawableData = None,
     fInitialPathDone = False\<rparr>"

definition list_header :: "(nat, nat) glyph_header" where
  "list_header =
     \<lparr>SkGlyph_ctor = blank_glyph, PackedGlyphID = (\<lambda>v. v), is_empty = (\<lambda>w h. w = 0 \<or> h = 0),
      image_too_large = (\<lambda>w h. w \<ge> 8192), max_dimension = (\<lambda>w h. max (unat w) (unat h)),
      kSkSideTooBigForAtlas = 256, image_called = (\<lambda>i e t. i \<or> e \<or> t), path_called = (\<lambda>d. d \<noteq> None),
      drawable_called = (\<lambda>d. d \<noteq> None),
      new_path_data = \<lparr>fIntercept = [], fPath = 0, fHasPath = False, fHairline = False, fModified = False\<rparr>,
      new_drawable_data = \<lparr>fDrawable = None, fHasDrawable = False\<rparr>,
      install_image = (\<lambda>bs _. Some bs), format_value = list_format_value, format_of = list_format_of\<rparr>"

interpretation list_codec: glyph_codec list_writer list_reader "\<lambda>b. b" "\<lambda>r. case r of None \<Rightarrow> [] | Some xs \<Rightarrow> xs" list_header
  by unfold_locales
    (auto simp: list_writer_def list_reader_def list_header_def list_format_value_def list_format_of_def
      split: option.splits mask_format.splits)

section \<open>Properties\<close>

definition ex_glyph :: "(nat, nat) sk_glyph" where
  "ex_glyph = (blank_glyph 77)\<lparr>fAdvanceX := 0x41200000, fWidth := 3, fHeight := 2, fLeft := 0xffff, fTop := 0xfffe,
     fMaskFormat := kA8_Format, fImage := Some [1, 2, 3, 4, 5, 6],
     fPathData := Some \<lparr>fIntercept = [], fPath = 9, fHasPath = True, fHairline = True, fModified = False\<rparr>,
     fDrawableData := Some \<lparr>fDrawable = Some 4, fHasDrawable = True\<rparr>\<rparr>"

definition ex_pictures :: "(nat, nat, nat) picture_ops" where
  "ex_pictures = \<lparr>serialize = (\<lambda>c. [of_nat c]), MakeFromData = (\<lambda>bs. Some (unat (hd bs))), snapshot = (\<lambda>d. d),
     picture_drawable = (\<lambda>c. c), cullRect = (\<lambda>_. (0, 0, 0, 0)), picture_bytes_used = (\<lambda>_. 8),
     drawable_bytes_used = (\<lambda>_. 16), drawPicture = (\<lambda>cv _. cv), sizeof_picture_drawable = 8\<rparr>"

lemmas glyph_ex_defs = ex_glyph_def ex_pictures_def blank_glyph_def list_header_def list_writer_def list_reader_def
  isEmpty_def imageTooLarge_def imageSize_def rowBytes_def format_rowbytes_def format_alignment_def
  FitsInAtlas_def setImageHasBeenCalled_def setPathHasBeenCalled_def setDrawableHasBeenCalled_def

text \<open>
  C28. Metrics round trip: reading the fields \<open>flattenMetrics\<close> wrote gives a glyph with the same
  identity, advance, dimensions, signed offsets and mask format, and leaves the reader valid right
  after them.
\<close>

theorem metrics_roundtrip:
  assumes "glyph_codec W R written ahead H" and "written w = []" and "isValid R r"
    and "ahead r = written (flattenMetrics H W g w) @ xs" and "PackedGlyphID H (fID g) = fID g"
  shows "\<exists>g' r'. MakeFromBuffer H R r = Inr (Some g', r') \<and> isValid R r' \<and> ahead r' = xs \<and>
    g' = (SkGlyph_ctor H (fID g))\<lparr>fAdvanceX := fAdvanceX g, fAdvanceY := fAdvanceY g, fWidth := fWidth g,
      fHeight := fHeight g, fLeft := fLeft g, fTop := fTop g, fMaskFormat := fMaskFormat g, fInitialPathDone := True\<rparr>"
  using glyph_codec.metrics_read_back [OF assms(1,3) _ assms(5), of xs]
    glyph_codec.flattenMetrics_items [OF assms(1), of g w] assms(2,4) by auto

lemma metrics_roundtrip_witness:
  "\<exists>g' r'. MakeFromBuffer list_header list_reader (Some (flattenMetrics list_header list_writer ex_glyph []))
     = Inr (Some g', r') \<and> fLeft g' = -1 \<and> fTop g' = -2 \<and> fWidth g' = 3"
proof -
  have "PackedGlyphID list_header (fID ex_glyph) = fID ex_glyph" by (simp add: list_header_def)
  then obtain g' r' where "MakeFromBuffer list_header list_reader
      (Some (flattenMetrics list_header list_writer ex_glyph [])) = Inr (Some g', r')"
    "g' = (SkGlyph_ctor list_header (fID ex_glyph))\<lparr>fAdvanceX := fAdvanceX ex_glyph, fAdvanceY := fAdvanceY ex_glyph,
      fWidth := fWidth ex_glyph, fHeight := fHeight ex_glyph, fLeft := fLeft ex_glyph, fTop := fTop ex_glyph,
      fMaskFormat := fMaskFormat ex_glyph, fInitialPathDone := True\<rparr>"
    using metrics_roundtrip [OF list_codec.glyph_codec_axioms refl,
        of "Some (flattenMetrics list_header list_writer ex_glyph [])" ex_glyph "[]"]
    by (auto simp: list_reader_def)
  then show ?thesis by (simp add: ex_glyph_def)
qed

text \<open>
  Image round trip: for a glyph that has pixels and fits in the atlas, the image written by
  \<open>flattenImage\<close> is the one a glyph with the same metrics reads back, of exactly \<open>imageSize\<close> bytes.
\<close>

theorem image_roundtrip:
  assumes "glyph_codec W R written ahead H" and "flattenImage H W g w = Inr w'" and "written w = []"
    and "isValid R r" and "ahead r = written w' @ xs"
    and "fImage g = Some img" and "length img = unat (imageSize H g)"
    and "fWidth g0 = fWidth g" and "fHeight g0 = fHeight g" and "fMaskFormat g0 = fMaskFormat g"
    and "\<not> isEmpty H g" and "FitsInAtlas H g"
  shows "\<exists>r'. addImageFromBuffer H R g0 r = Inr (g0\<lparr>fImage := fImage g\<rparr>, imageSize H g, r') \<and>
    isValid R r' \<and> ahead r' = xs"
  by (rule glyph_codec.image_read_back [OF assms])

lemma image_roundtrip_witness:
  "\<exists>r'. addImageFromBuffer list_header list_reader (ex_glyph\<lparr>fImage := None\<rparr>) (Some [BytesItem [1, 2, 3, 4, 5, 6]])
     = Inr (ex_glyph, 6, r')"
proof -
  have fl: "flattenImage list_header list_writer ex_glyph [] = Inr [BytesItem [1, 2, 3, 4, 5, 6]]"
    and size: "imageSize list_header ex_glyph = 6" and img: "fImage ex_glyph = Some [1, 2, 3, 4, 5, 6]"
    and fits: "\<not> isEmpty list_header ex_glyph" "FitsInAtlas list_header ex_glyph"
    by (simp_all add: flattenImage_def glyph_ex_defs)
  have valid: "isValid list_reader (Some xs)" for xs :: "nat item list" by (simp add: list_reader_def)
  have same: "ex_glyph\<lparr>fImage := None\<rparr>\<lparr>fImage := fImage ex_glyph\<rparr> = ex_glyph" by simp
  have "\<exists>r'. addImageFromBuffer list_header list_reader (ex_glyph\<lparr>fImage := None\<rparr>) (Some [BytesItem [1, 2, 3, 4, 5, 6]])
     = Inr (ex_glyph\<lparr>fImage := None\<rparr>\<lparr>fImage := fImage ex_glyph\<rparr>, imageSize list_header ex_glyph, r') \<and>
       isValid list_reader r' \<and> (case r' of None \<Rightarrow> [] | Some xs \<Rightarrow> xs) = []"
    by (rule image_roundtrip [OF list_codec.glyph_codec_axioms fl refl valid _ img]) (simp_all add: size fits)
  then show ?thesis unfolding same size by blast
qed

text \<open>
  Path round trip: a glyph without path data that reads what \<open>flattenPath\<close> wrote has the same
  path, or likewise none, and the same hairline and modified flags.
\<close>

theorem path_roundtrip:
  assumes "glyph_codec W R written ahead H" and "flattenPath H W g w = Inr w'" and "written w = []"
    and "isValid R r" and "ahead r = written w' @ xs" and "fPathData g0 = None"
  shows "\<exists>g' n r'. addPathFromBuffer H R used g0 r = Inr (g', n, r') \<and> isValid R r' \<and> ahead r' = xs \<and>
    path H g' = path H g \<and>
    (path H g \<noteq> Inr None \<longrightarrow> pathIsHairline H g' = pathIsHairline H g \<and> pathIsModified H g' = pathIsModified H g)"
  by (rule glyph_codec.path_read_back [OF assms])

lemma path_roundtrip_witness:
  "\<exists>g' n r'. addPathFromBuffer list_header list_reader (\<lambda>_. 40) (blank_glyph 77)
     (Some [BoolItem True, BoolItem True, BoolItem False, PathItem 9]) = Inr (g', n, r') \<and>
     path list_header g' = Inr (Some 9)"
proof -
  have "flattenPath list_header list_writer ex_glyph [] = Inr [BoolItem True, BoolItem True, BoolItem False, PathItem 9]"
    and "path list_header ex_glyph = Inr (Some 9)"
    by (simp_all add: flattenPath_def path_def pathIsHairline_def pathIsModified_def path_data_of_def glyph_ex_defs)
  with path_roundtrip [OF list_codec.glyph_codec_axioms this(1) refl,
      of "Some [BoolItem True, BoolItem True, BoolItem False, PathItem 9]" "[]" "blank_glyph 77" "\<lambda>_. 40"]
  show ?thesis by (auto simp: list_reader_def blank_glyph_def)
qed

text \<open>
  Drawable round trip: the drawable read back is the picture-backed drawable of the picture the
  written drawable's snapshot serialises to, when that serialisation is not empty and fits 32 bits.
\<close>

theorem drawable_roundtrip:
  assumes "glyph_codec W R written ahead H" and "flattenDrawable H W P g w = Inr w'" and "written w = []"
    and "isValid R r" and "ahead r = written w' @ xs" and "fDrawableData g0 = None"
    and "\<not> isEmpty H g" and "drawable H g = Inr (Some d)"
    and "serialize P (snapshot P d) \<noteq> []" and "length (serialize P (snapshot P d)) < 2 ^ 32"
    and "MakeFromData P (serialize P (snapshot P d)) = Some c"
  shows "\<exists>g' r'. addDrawableFromBuffer H R P g0 r = Inr (g', drawable_bytes_used P (picture_drawable P c), r') \<and>
    isValid R r' \<and> ahead r' = xs \<and> drawable H g' = Inr (Some (picture_drawable P c))"
  by (rule glyph_codec.drawable_read_back [OF assms])

lemma drawable_roundtrip_witness:
  "\<exists>g' r'. addDrawableFromBuffer list_header list_reader ex_pictures (blank_glyph 77) (Some [BytesItem [4]])
     = Inr (g', 16, r') \<and> drawable list_header g' = Inr (Some 4)"
proof -
  have "flattenDrawable list_header list_writer ex_pictures ex_glyph [] = Inr [BytesItem [4]]"
    and "drawable list_header ex_glyph = Inr (Some 4)"
    by (simp_all add: flattenDrawable_def drawable_def FlattenDrawable_def glyph_ex_defs)
  with drawable_roundtrip [OF list_codec.glyph_codec_axioms this(1) refl,
      of "Some [BytesItem [4]]" "[]" "blank_glyph 77" 4 4]
  show ?thesis by (auto simp: glyph_ex_defs)
qed

text \<open>
  The image, the path and the drawable of a glyph are set once: whatever a call installs, every
  later call returns false and leaves the glyph as it is.
\<close>

theorem glyph_parts_are_set_once:
  assumes "glyph_header_laws H"
  shows "(setImage H alloc img g = Inr (g1, b) \<longrightarrow> setImage H alloc img' g1 = Inr (g1, False)) \<and>
    (setPath H p h m g = Inr (g1, b) \<longrightarrow> setPath H p' h' m' g1 = Inr (g1, False)) \<and>
    (setDrawable H d g = Inr (g1, b) \<longrightarrow> setDrawable H d' g1 = Inr (g1, False))"
  using glyph_header_laws.parts_again [OF assms] by blast

lemma glyph_parts_are_set_once_witness:
  "setPath list_header (Some 3) False True ex_glyph = Inr (ex_glyph, False)"
proof -
  have "setPath list_header (Some 5) False False ex_glyph = Inr (ex_glyph, False)"
    by (simp add: setPath_def glyph_ex_defs)
  then show ?thesis
    using glyph_parts_are_set_once [OF list_codec.glyph_header_laws_axioms] by blast
qed

end
