(* ===== verification/Glyph_Digest.thy ===== *)
theory Glyph_Digest
  imports Glyph_Codec
begin

unbundle bit_operations_syntax

text \<open>
  The rest of \<open>src/app/graphics/glyph/main_gr.cpp\<close> that computes on words: the digest of a glyph
  and the actions it caches per use, the position rounding, and the exact size of an image. The
  packing of actions into \<open>fActions\<close> is declared in \<open>SkGlyph.h\<close> and a parameter; \<open>packed_actions\<close>
  is a packing that satisfies its laws.
\<close>

section \<open>Digests\<close>

datatype action_type = kDirectMask | kDirectMaskCPU | kMask | kSDFT | kPath | kDrawable

datatype glyph_action = kUnset | kAccept | kReject | kDrop

record sk_glyph_digest =
  dPackedID :: "64 word"
  dIndex :: "64 word"
  dIsEmpty :: bool
  dFormat :: mask_format
  dActions :: "32 word"
  dLeft :: "16 word"
  dTop :: "16 word"
  dWidth :: "16 word"
  dHeight :: "16 word"

text \<open>\<open>actionFor\<close>, \<open>setAction\<close>, the enumerators' values and the atlas tests of the header.\<close>

record digest_ops =
  action_for :: "32 word \<Rightarrow> action_type \<Rightarrow> glyph_action"
  set_action :: "32 word \<Rightarrow> action_type \<Rightarrow> glyph_action \<Rightarrow> 32 word"
  action_shift :: "action_type \<Rightarrow> nat"
  action_value :: "glyph_action \<Rightarrow> 32 word"
  fitsInAtlasDirect :: "sk_glyph_digest \<Rightarrow> bool"
  fitsInAtlasInterpolated :: "sk_glyph_digest \<Rightarrow> bool"

record ('p, 'd) strike_ops =
  prepareForImage :: "('p, 'd) sk_glyph \<Rightarrow> bool \<times> ('p, 'd) sk_glyph"
  prepareForPath :: "('p, 'd) sk_glyph \<Rightarrow> bool \<times> ('p, 'd) sk_glyph"
  prepareForDrawable :: "('p, 'd) sk_glyph \<Rightarrow> bool \<times> ('p, 'd) sk_glyph"

definition all_drop :: "digest_ops \<Rightarrow> 32 word" where
  "all_drop D =
     (let kD = action_value D kDrop
      in push_bit (action_shift D kDirectMask) kD OR
         push_bit (action_shift D kDirectMaskCPU) kD OR
         push_bit (action_shift D kMask) kD OR
         push_bit (action_shift D kSDFT) kD OR
         push_bit (action_shift D kPath) kD OR
         push_bit (action_shift D kDrawable) kD)"

definition init_actions :: "('p, 'd) glyph_header \<Rightarrow> digest_ops \<Rightarrow> ('p, 'd) sk_glyph \<Rightarrow> 32 word" where
  "init_actions H D g = (if isEmpty H g then all_drop D else 0)"

definition SkGlyphDigest ::
    "('p, 'd) glyph_header \<Rightarrow> digest_ops \<Rightarrow> 64 word \<Rightarrow> ('p, 'd) sk_glyph \<Rightarrow> sk_glyph_digest" where
  "SkGlyphDigest H D index g =
     \<lparr>dPackedID = ucast (fID g), dIndex = index, dIsEmpty = isEmpty H g, dFormat = fMaskFormat g,
      dActions = init_actions H D g, dLeft = fLeft g, dTop = fTop g, dWidth = fWidth g, dHeight = fHeight g\<rparr>"

definition actionFor :: "digest_ops \<Rightarrow> sk_glyph_digest \<Rightarrow> action_type \<Rightarrow> glyph_action" where
  "actionFor D d t = action_for D (dActions d) t"

definition setActionFor ::
    "('p, 'd) glyph_header \<Rightarrow> digest_ops \<Rightarrow> ('p, 'd) strike_ops \<Rightarrow> action_type \<Rightarrow>
       sk_glyph_digest \<times> ('p, 'd) sk_glyph \<Rightarrow> (sk_glyph_digest \<times> ('p, 'd) sk_glyph) checked" where
  "setActionFor H D S t = (\<lambda>(d, g).
     if actionFor D d t = kUnset then
       let store = (\<lambda>ok g'. (d\<lparr>dActions := set_action D (dActions d) t (if ok then kAccept else kReject)\<rparr>, g'))
       in (case t of
             kDirectMask \<Rightarrow> Inr (store (fitsInAtlasDirect D d) g)
           | kDirectMaskCPU \<Rightarrow>
               (case prepareForImage S g of (ok, g') \<Rightarrow>
                  if ok then dcheck (\<not> isEmpty H g') ''!glyph->isEmpty()'' (Inr (store True g'))
                  else Inr (store False g'))
           | kMask \<Rightarrow> Inr (store (fitsInAtlasInterpolated D d) g)
           | kSDFT \<Rightarrow> Inr (store (fitsInAtlasDirect D d \<and> dFormat d = kSDF_Format) g)
           | kPath \<Rightarrow> (case prepareForPath S g of (ok, g') \<Rightarrow> Inr (store ok g'))
           | kDrawable \<Rightarrow> (case prepareForDrawable S g of (ok, g') \<Rightarrow> Inr (store ok g')))
     else Inr (d, g))"

section \<open>Position rounding\<close>

datatype axis_alignment = kX | kY | kNone

record rounding_constants =
  SK_ScalarHalf :: scalar
  kSubpixelRound :: scalar
  kXYFieldMask :: "32 word \<times> 32 word"

definition HalfAxisSampleFreq :: "rounding_constants \<Rightarrow> bool \<Rightarrow> axis_alignment \<Rightarrow> scalar \<times> scalar" where
  "HalfAxisSampleFreq K isSubpixel axisAlignment =
     (if \<not> isSubpixel then (SK_ScalarHalf K, SK_ScalarHalf K)
      else case axisAlignment of
        kX \<Rightarrow> (kSubpixelRound K, SK_ScalarHalf K)
      | kY \<Rightarrow> (SK_ScalarHalf K, kSubpixelRound K)
      | kNone \<Rightarrow> (kSubpixelRound K, kSubpixelRound K))"

definition IgnorePositionMask :: "bool \<Rightarrow> axis_alignment \<Rightarrow> 32 word \<times> 32 word" where
  "IgnorePositionMask isSubpixel axisAlignment =
     (if \<not> isSubpixel \<or> axisAlignment = kY then 0 else NOT 0,
      if \<not> isSubpixel \<or> axisAlignment = kX then 0 else NOT 0)"

definition IgnorePositionFieldMask :: "rounding_constants \<Rightarrow> bool \<Rightarrow> axis_alignment \<Rightarrow> 32 word \<times> 32 word" where
  "IgnorePositionFieldMask K isSubpixel axisAlignment =
     (case IgnorePositionMask isSubpixel axisAlignment of
        (x, y) \<Rightarrow> (x AND fst (kXYFieldMask K), y AND snd (kXYFieldMask K)))"

record rounding_spec =
  halfAxisSampleFreq :: "scalar \<times> scalar"
  ignorePositionMask :: "32 word \<times> 32 word"
  ignorePositionFieldMask :: "32 word \<times> 32 word"

definition SkGlyphPositionRoundingSpec :: "rounding_constants \<Rightarrow> bool \<Rightarrow> axis_alignment \<Rightarrow> rounding_spec" where
  "SkGlyphPositionRoundingSpec K isSubpixel axisAlignment =
     \<lparr>halfAxisSampleFreq = HalfAxisSampleFreq K isSubpixel axisAlignment,
      ignorePositionMask = IgnorePositionMask isSubpixel axisAlignment,
      ignorePositionFieldMask = IgnorePositionFieldMask K isSubpixel axisAlignment\<rparr>"

text \<open>A series of requests for actions, as the text painters make them.\<close>

fun ask :: "('p, 'd) glyph_header \<Rightarrow> digest_ops \<Rightarrow> ('p, 'd) strike_ops \<Rightarrow> action_type list \<Rightarrow>
    sk_glyph_digest \<times> ('p, 'd) sk_glyph \<Rightarrow> (sk_glyph_digest \<times> ('p, 'd) sk_glyph) checked" where
  "ask H D S [] x = Inr x"
| "ask H D S (t # ts) x = bindE (setActionFor H D S t x) (ask H D S ts)"

section \<open>Fields of two bits\<close>

lemma three_mask: "(3 :: 32 word) = Bit_Operations.mask 2"
  by (simp add: Bit_Operations.mask_eq_exp_minus_1)

lemma drop_or_push_same:
  assumes "s + 2 \<le> 32" and "v AND 3 = v"
  shows "drop_bit s (bits OR push_bit s v) AND 3 = (drop_bit s bits AND 3) OR (v :: 32 word)"
proof -
  have v: "bit v n \<Longrightarrow> n < 2" for n
    using assms(2) unfolding three_mask by (metis bit_and_iff bit_mask_iff)
  have "bit v n \<Longrightarrow> s + n < 32" for n
    using v [of n] assms(1) by simp
  with v show ?thesis
    unfolding three_mask by (intro bit_word_eqI) (auto simp: bit_simps)
qed

lemma drop_or_push_other:
  assumes "s + 2 \<le> s' \<or> s' + 2 \<le> s" and "v AND 3 = v"
  shows "drop_bit s' (bits OR push_bit s v) AND 3 = drop_bit s' bits AND (3 :: 32 word)"
proof -
  have v: "bit v n \<Longrightarrow> n < 2" for n
    using assms(2) unfolding three_mask by (metis bit_and_iff bit_mask_iff)
  show ?thesis
    unfolding three_mask using assms(1)
    by (intro bit_word_eqI) (auto simp: bit_simps dest!: v)
qed

lemma field_or: "drop_bit s (a OR b) AND 3 = (drop_bit s a AND 3) OR (drop_bit s b AND (3 :: 32 word))"
  by (simp add: word_ao_dist)

lemma field_of_push:
  assumes "v AND 3 = v"
  shows "s + 2 \<le> 32 \<Longrightarrow> drop_bit s (push_bit s v) AND 3 = (v :: 32 word)"
    and "s + 2 \<le> s' \<or> s' + 2 \<le> s \<Longrightarrow> drop_bit s' (push_bit s v) AND 3 = (0 :: 32 word)"
  using drop_or_push_same [of s v 0] drop_or_push_other [of s s' v 0] assms by simp_all

section \<open>Actions are decided once\<close>

text \<open>
  What the header documents of its packing: an action type is the offset of its field of two bits, the fields do not
  overlap, an action is the value of its field, an unset one 0, and \<open>setAction\<close> fills an unset field. The effect of
  \<open>kAllDrop\<close> is not among the laws: it is computed from its definition.
\<close>

locale digest_laws =
  fixes D :: digest_ops
  assumes shift_fits: "action_shift D t + 2 \<le> 32"
    and shifts_apart: "t' \<noteq> t \<Longrightarrow> action_shift D t + 2 \<le> action_shift D t' \<or> action_shift D t' + 2 \<le> action_shift D t"
    and value_small: "action_value D a AND 3 = action_value D a"
    and value_unset: "action_value D kUnset = 0"
    and reads_field: "drop_bit (action_shift D t) bits AND 3 = action_value D a \<Longrightarrow> action_for D bits t = a"
    and set_then_get: "action_for D bits t = kUnset \<Longrightarrow>
      action_for D (set_action D bits t a) t' = (if t' = t then a else action_for D bits t')"
begin

lemma none_unset: "action_for D 0 t = kUnset"
  by (rule reads_field) (simp add: value_unset)

lemma dropped_field:
  "drop_bit (action_shift D t') (push_bit (action_shift D t) (action_value D kDrop)) AND 3 =
     (if t' = t then action_value D kDrop else 0)"
  using field_of_push [OF value_small [of kDrop]] shift_fits [of t] shifts_apart [of t' t] by simp

text \<open>Each of the six types has its term in \<open>kAllDrop\<close>.\<close>

lemma all_dropped: "action_for D (all_drop D) t = kDrop"
  by (rule reads_field, cases t) (simp_all only: all_drop_def Let_def field_or dropped_field action_type.distinct
      if_True if_False simp_thms or.left_neutral or.right_neutral)

lemma setActionFor_decides:
  assumes "setActionFor H D S t (d, g) = Inr (d', g')"
  shows "actionFor D d' t \<noteq> kUnset" and "t' \<noteq> t \<Longrightarrow> actionFor D d' t' = actionFor D d t'"
    and "d' = d\<lparr>dActions := dActions d'\<rparr>"
  using assms
  by (auto simp: setActionFor_def actionFor_def set_then_get Let_def dcheck_Inr_iff
      split: if_splits action_type.splits prod.splits)

lemma decided_stays: "actionFor D d t \<noteq> kUnset \<Longrightarrow> setActionFor H D S t (d, g) = Inr (d, g)"
  by (simp add: setActionFor_def)

lemma digest_of_empty: "isEmpty H g \<Longrightarrow> actionFor D (SkGlyphDigest H D i g) t = kDrop"
  by (simp add: actionFor_def SkGlyphDigest_def init_actions_def all_dropped)

lemma digest_of_nonempty: "\<not> isEmpty H g \<Longrightarrow> actionFor D (SkGlyphDigest H D i g) t = kUnset"
  by (simp add: actionFor_def SkGlyphDigest_def init_actions_def none_unset)

lemma setActionFor_extends:
  "setActionFor H D S t (d, g) = Inr (d', g') \<Longrightarrow> actionFor D d t' \<noteq> kUnset \<Longrightarrow> actionFor D d' t' = actionFor D d t'"
  using setActionFor_decides [of H S t d g d' g'] decided_stays [of d t H S g] by (cases "t' = t") auto

lemma ask_extends:
  "ask H D S ts (d, g) = Inr (d', g') \<Longrightarrow> actionFor D d t \<noteq> kUnset \<Longrightarrow> actionFor D d' t = actionFor D d t"
proof (induction ts arbitrary: d g)
  case Nil
  then show ?case by simp
next
  case (Cons u ts)
  then show ?case by (fastforce simp: bindE_Inr_iff dest: setActionFor_extends)
qed

lemma ask_decides:
  "ask H D S ts (d, g) = Inr (d', g') \<Longrightarrow> t \<in> set ts \<Longrightarrow> actionFor D d' t \<noteq> kUnset"
proof (induction ts arbitrary: d g)
  case Nil
  then show ?case by simp
next
  case (Cons u ts)
  from Cons.prems(1) obtain d1 g1 where st: "setActionFor H D S u (d, g) = Inr (d1, g1)"
    and rest: "ask H D S ts (d1, g1) = Inr (d', g')" by (auto simp: bindE_Inr_iff)
  show ?case
  proof (cases "t = u")
    case True
    with setActionFor_decides(1) [OF st] ask_extends [OF rest] show ?thesis by metis
  next
    case False
    with Cons.prems(2) Cons.IH [OF rest] show ?thesis by simp
  qed
qed

lemma ask_all_decided: "\<forall>t \<in> set ts. actionFor D d t \<noteq> kUnset \<Longrightarrow> ask H D S ts (d, g) = Inr (d, g)"
  by (induction ts) (simp_all add: decided_stays)

end

section \<open>A packing of the actions\<close>

definition shift_of :: "action_type \<Rightarrow> nat" where
  "shift_of t = (case t of kDirectMask \<Rightarrow> 0 | kDirectMaskCPU \<Rightarrow> 2 | kMask \<Rightarrow> 4 | kSDFT \<Rightarrow> 6 | kPath \<Rightarrow> 8 | kDrawable \<Rightarrow> 10)"

definition value_of :: "glyph_action \<Rightarrow> 32 word" where
  "value_of a = (case a of kUnset \<Rightarrow> 0 | kAccept \<Rightarrow> 1 | kReject \<Rightarrow> 2 | kDrop \<Rightarrow> 3)"

definition action_of :: "32 word \<Rightarrow> glyph_action" where
  "action_of v = (if v = 0 then kUnset else if v = 1 then kAccept else if v = 2 then kReject else kDrop)"

definition packed_actions :: digest_ops where
  "packed_actions =
     \<lparr>action_for = (\<lambda>bits t. action_of (drop_bit (shift_of t) bits AND 3)),
      set_action = (\<lambda>bits t a. bits OR push_bit (shift_of t) (value_of a)),
      action_shift = shift_of, action_value = value_of,
      fitsInAtlasDirect = (\<lambda>d. max (unat (dWidth d)) (unat (dHeight d)) \<le> 256),
      fitsInAtlasInterpolated = (\<lambda>d. max (unat (dWidth d)) (unat (dHeight d)) \<le> 254)\<rparr>"

lemma shift_of_cases: "shift_of t \<le> 10 \<and> (t' \<noteq> t \<longrightarrow> shift_of t' + 2 \<le> shift_of t \<or> shift_of t + 2 \<le> shift_of t')"
  by (cases t; cases t') (simp_all add: shift_of_def)

lemma value_of_small: "value_of a AND 3 = value_of a"
  by (cases a) (simp_all add: value_of_def)

lemma action_of_value: "action_of (value_of a) = a"
  by (cases a) (simp_all add: value_of_def action_of_def)

lemma action_of_unset: "action_of (drop_bit s bits AND 3) = kUnset \<longleftrightarrow> drop_bit s bits AND 3 = 0"
  by (auto simp: action_of_def)

interpretation packed: digest_laws packed_actions
proof unfold_locales
  show "action_shift packed_actions t + 2 \<le> 32" for t
    using shift_of_cases [of t t] by (simp add: packed_actions_def)
  show "action_shift packed_actions t + 2 \<le> action_shift packed_actions t' \<or>
      action_shift packed_actions t' + 2 \<le> action_shift packed_actions t" if "t' \<noteq> t" for t t'
    using shift_of_cases [of t t'] that by (auto simp: packed_actions_def)
  show "action_value packed_actions a AND 3 = action_value packed_actions a" for a
    by (simp add: packed_actions_def value_of_small)
  show "action_value packed_actions kUnset = 0"
    by (simp add: packed_actions_def value_of_def)
  show "action_for packed_actions bits t = a"
    if "drop_bit (action_shift packed_actions t) bits AND 3 = action_value packed_actions a" for bits t a
    using that by (simp add: packed_actions_def action_of_value)
  show "action_for packed_actions (set_action packed_actions bits t a) t' =
      (if t' = t then a else action_for packed_actions bits t')"
    if "action_for packed_actions bits t = kUnset" for bits t a t'
  proof (cases "t' = t")
    case True
    with that drop_or_push_same [of "shift_of t" "value_of a" bits] shift_of_cases [of t t'] value_of_small
    show ?thesis by (simp add: packed_actions_def action_of_unset action_of_value)
  next
    case False
    with shift_of_cases [of t t'] have "shift_of t + 2 \<le> shift_of t' \<or> shift_of t' + 2 \<le> shift_of t" by blast
    from drop_or_push_other [OF this value_of_small, of bits a] False
    show ?thesis unfolding packed_actions_def digest_ops.simps by (simp only: if_False)
  qed
qed

section \<open>The size of an image\<close>

lemma unat_ucast_16_64: "unat (ucast (w :: 16 word) :: 64 word) = unat w"
  by (simp add: unsigned_ucast_eq take_bit_nat_eq_self_iff less_trans [OF unsigned_less])

lemma unat_rowBytes:
  "unat (rowBytes g) = (if fMaskFormat g = kBW_Format then (unat (fWidth g) + 7) div 8
     else unat (fWidth g) * unat (format_alignment (fMaskFormat g)))"
proof -
  have w: "unat (fWidth g) < 65536" using unsigned_less [of "fWidth g"] by simp
  have sc: "(scast (ucast (fWidth g) :: 32 word) :: 64 word) = ucast (fWidth g)"
    by (rule bit_word_eqI) (auto simp: bit_simps min_def dest: bit_imp_le_length)
  have al: "unat (format_alignment f) \<le> 4" for f by (cases f) (simp_all add: format_alignment_def)
  have uc: "unat (ucast (fWidth g) :: 64 word) = unat (fWidth g)" by (rule unat_ucast_16_64)
  show ?thesis
  proof (cases "fMaskFormat g = kBW_Format")
    case True
    have "unat (ucast (fWidth g) + 7 :: 64 word) = unat (fWidth g) + 7"
      using w by (subst unat_add_lem [THEN iffD1]) (simp_all add: uc)
    with True show ?thesis
      by (simp add: rowBytes_def format_rowbytes_def bits_to_bytes_def sc unat_div drop_bit_eq_div)
  next
    case False
    have "unat (fWidth g) * unat (format_alignment (fMaskFormat g)) \<le> 65536 * 4"
      using w al [of "fMaskFormat g"] by (intro mult_mono) auto
    with False show ?thesis
      by (simp add: rowBytes_def format_rowbytes_def sc unat_word_ariths uc)
  qed
qed

lemma rowBytes_bound: "unat (rowBytes g) \<le> 65536 * 4"
proof -
  have w: "unat (fWidth g) < 65536" using unsigned_less [of "fWidth g"] by simp
  have al: "unat (format_alignment (fMaskFormat g)) \<le> 4"
    by (cases "fMaskFormat g") (simp_all add: format_alignment_def)
  have "unat (fWidth g) * unat (format_alignment (fMaskFormat g)) \<le> 65536 * 4"
    using w al by (intro mult_mono) auto
  moreover from w have "(unat (fWidth g) + 7) div 8 \<le> 65536 * 4" by linarith
  ultimately show ?thesis by (simp add: unat_rowBytes)
qed

section \<open>Properties\<close>

definition ex_strike :: "(nat, nat) strike_ops" where
  "ex_strike = \<lparr>prepareForImage = (\<lambda>g. (True, g)), prepareForPath = (\<lambda>g. (False, g)),
     prepareForDrawable = (\<lambda>g. (False, g))\<rparr>"

text \<open>
  The byte count of an image is computed without wrap-around in 64 bits: for a glyph with pixels
  that is not too large it is rows times the bytes of a row, three planes of them in the 3D format,
  a row being the bits rounded up to bytes for the bitmap format and whole pixels otherwise.
\<close>

theorem image_size_exact:
  assumes "\<not> isEmpty H g" and "\<not> imageTooLarge H g"
  shows "unat (imageSize H g) =
    (if fMaskFormat g = kBW_Format then (unat (fWidth g) + 7) div 8
     else unat (fWidth g) * unat (format_alignment (fMaskFormat g))) * unat (fHeight g) *
    (if fMaskFormat g = k3D_Format then 3 else 1)"
proof -
  let ?h = "ucast (fHeight g) :: 64 word"
  have h: "unat ?h = unat (fHeight g)" "unat (fHeight g) < 65536"
    using unat_ucast_16_64 unsigned_less [of "fHeight g"] by auto
  have "unat (rowBytes g) * unat ?h \<le> 65536 * 4 * 65536"
    using rowBytes_bound [of g] h by (intro mult_mono) auto
  then have prod: "unat (rowBytes g * ?h) = unat (rowBytes g) * unat (fHeight g)"
    and "unat (rowBytes g) * unat (fHeight g) * 3 < 2 ^ 64"
    by (simp_all add: unat_word_ariths h)
  then have "unat (rowBytes g * ?h * 3) = unat (rowBytes g) * unat (fHeight g) * 3"
    by (simp add: unat_word_ariths(2) [of "rowBytes g * ?h" 3])
  with prod assms show ?thesis by (simp add: imageSize_def Let_def unat_rowBytes)
qed

lemma image_size_exact_witness:
  "unat (imageSize list_header (ex_glyph\<lparr>fMaskFormat := k3D_Format\<rparr>)) = 3 * 1 * 2 * 3"
  using image_size_exact [of list_header "ex_glyph\<lparr>fMaskFormat := k3D_Format\<rparr>"]
  by (simp add: glyph_ex_defs)

text \<open>
  C33. Over any series of requests a digest decides each action once: what was decided stays, what was
  asked for is decided, and asking again changes neither the digest nor the glyph. For an empty
  glyph each of the six actions is to drop it, which is what \<open>kAllDrop\<close> holds in their fields, and
  no request reaches the strike.
\<close>

theorem digest_actions_are_final:
  assumes "digest_laws D" and "ask H D S ts (SkGlyphDigest H D i g, g) = Inr (d', g')"
  shows "(\<forall>us. set us \<subseteq> set ts \<longrightarrow> ask H D S us (d', g') = Inr (d', g')) \<and>
    (isEmpty H g \<longrightarrow> d' = SkGlyphDigest H D i g \<and> g' = g \<and> (\<forall>t. actionFor D d' t = kDrop))"
proof (intro conjI allI impI)
  fix us assume "set us \<subseteq> set ts"
  then show "ask H D S us (d', g') = Inr (d', g')"
    using digest_laws.ask_decides [OF assms] digest_laws.ask_all_decided [OF assms(1)] by blast
next
  assume "isEmpty H g"
  then have drop: "actionFor D (SkGlyphDigest H D i g) t = kDrop" for t
    by (rule digest_laws.digest_of_empty [OF assms(1)])
  then have "ask H D S ts (SkGlyphDigest H D i g, g) = Inr (SkGlyphDigest H D i g, g)"
    using digest_laws.ask_all_decided [OF assms(1)] by (metis glyph_action.distinct(5))
  with assms(2) show "d' = SkGlyphDigest H D i g" "g' = g" by auto
  then show "actionFor D d' t = kDrop" for t using drop by simp
qed

lemma digest_actions_are_final_witness:
  "ask list_header packed_actions ex_strike [kPath, kDirectMask]
     (SkGlyphDigest list_header packed_actions 5 (blank_glyph 3), blank_glyph 3) =
   Inr (SkGlyphDigest list_header packed_actions 5 (blank_glyph 3), blank_glyph 3)"
proof -
  let ?d = "SkGlyphDigest list_header packed_actions 5 (blank_glyph 3)"
  have "isEmpty list_header (blank_glyph 3)" by (simp add: glyph_ex_defs)
  have "\<forall>t. actionFor packed_actions ?d t = kDrop"
    using digest_actions_are_final [OF packed.digest_laws_axioms,
        of list_header ex_strike "[]" 5 "blank_glyph 3" ?d "blank_glyph 3"] \<open>isEmpty _ _\<close> by simp
  then show ?thesis by (simp add: setActionFor_def)
qed

text \<open>
  Positions are rounded per axis: the mask keeps an axis exactly when positions are subpixel and
  the other axis is not the aligned one, the field mask is that mask cut to the packed field, and the
  rounding added on an axis is the subpixel one exactly when its mask is not zero.
\<close>

theorem rounding_follows_the_mask:
  shows "let r = SkGlyphPositionRoundingSpec K sub axis;
         (hx, hy) = halfAxisSampleFreq r; (mx, my) = ignorePositionMask r; (fx, fy) = ignorePositionFieldMask r
     in mx = (if sub \<and> axis \<noteq> kY then -1 else 0) \<and> my = (if sub \<and> axis \<noteq> kX then -1 else 0) \<and>
        fx = (if mx = 0 then 0 else fst (kXYFieldMask K)) \<and> fy = (if my = 0 then 0 else snd (kXYFieldMask K)) \<and>
        hx = (if mx = 0 then SK_ScalarHalf K else kSubpixelRound K) \<and>
        hy = (if my = 0 then SK_ScalarHalf K else kSubpixelRound K)"
  by (cases axis)
    (simp_all add: SkGlyphPositionRoundingSpec_def HalfAxisSampleFreq_def IgnorePositionMask_def
      IgnorePositionFieldMask_def)

end
