(* ===== verification/Glyph_Intercepts.thy ===== *)
theory Glyph_Intercepts
  imports Glyph_Codec
begin

unbundle bit_operations_syntax

text \<open>
  \<open>calculate_path_gap\<close> and \<open>SkGlyph::ensureIntercepts\<close> of \<open>src/app/graphics/glyph/main_gr.cpp\<close>:
  where the outline of a glyph crosses a horizontal band, computed once per band and cached with the
  path. The float operations are the parameter \<open>float_ops\<close>; a scalar that is not a number makes
  every comparison false, as in the code. \<open>ieee\<close> compares the bits of a float the IEEE way.
\<close>

section \<open>Parameters\<close>

record float_ops =
  flt :: "scalar \<Rightarrow> scalar \<Rightarrow> bool"
  fle :: "scalar \<Rightarrow> scalar \<Rightarrow> bool"
  feq :: "scalar \<Rightarrow> scalar \<Rightarrow> bool"
  fadd :: "scalar \<Rightarrow> scalar \<Rightarrow> scalar"
  fsub :: "scalar \<Rightarrow> scalar \<Rightarrow> scalar"
  fmul :: "scalar \<Rightarrow> scalar \<Rightarrow> scalar"
  ieee_float_divide :: "scalar \<Rightarrow> scalar \<Rightarrow> scalar"
  SK_ScalarMax :: scalar
  SK_ScalarMin :: scalar

type_synonym point = "scalar \<times> scalar"

datatype path_verb = kMove | kLine | kQuad | kConic | kCubic | kClose

type_synonym segment = "path_verb \<times> point list"

text \<open>\<open>SkPath\<close> and the Bezier intersections.\<close>

record 'p path_ops =
  segments :: "'p \<Rightarrow> segment list"
  bounds_top_bottom :: "'p \<Rightarrow> scalar \<times> scalar"
  quad_crossings :: "point list \<Rightarrow> scalar \<Rightarrow> scalar list"
  cubic_crossings :: "point list \<Rightarrow> scalar \<Rightarrow> scalar list"

section \<open>The gap\<close>

definition expandGap :: "float_ops \<Rightarrow> scalar \<Rightarrow> scalar \<times> scalar \<Rightarrow> scalar \<times> scalar" where
  "expandGap F v = (\<lambda>(left, right). (if flt F v left then v else left, if flt F right v then v else right))"

definition addLine :: "float_ops \<Rightarrow> point list \<Rightarrow> scalar \<Rightarrow> scalar \<times> scalar \<Rightarrow> scalar \<times> scalar" where
  "addLine F pts offset gap =
     (let (x0, y0) = pts ! 0; (x1, y1) = pts ! 1;
          t = ieee_float_divide F (fsub F offset y0) (fsub F y1 y0)
      in if fle F 0 t \<and> flt F t 0x3f800000
         then expandGap F (fadd F x0 (fmul F t (fsub F x1 x0))) gap else gap)"

definition addQuad :: "float_ops \<Rightarrow> 'p path_ops \<Rightarrow> point list \<Rightarrow> scalar \<Rightarrow> scalar \<times> scalar \<Rightarrow> scalar \<times> scalar" where
  "addQuad F P pts offset gap = fold (expandGap F) (quad_crossings P pts offset) gap"

definition addCubic :: "float_ops \<Rightarrow> 'p path_ops \<Rightarrow> point list \<Rightarrow> scalar \<Rightarrow> scalar \<times> scalar \<Rightarrow> scalar \<times> scalar" where
  "addCubic F P pts offset gap = fold (expandGap F) (cubic_crossings P pts offset) gap"

definition addPts :: "float_ops \<Rightarrow> scalar \<Rightarrow> scalar \<Rightarrow> point list \<Rightarrow> scalar \<times> scalar \<Rightarrow> scalar \<times> scalar" where
  "addPts F topOffset bottomOffset pts gap =
     fold (\<lambda>(x, y) g. if flt F topOffset y \<and> flt F y bottomOffset then expandGap F x g else g) pts gap"

text \<open>\<open>std::minmax\<close> of the y coordinates: the first smallest and the last largest.\<close>

fun std_minmax :: "float_ops \<Rightarrow> scalar list \<Rightarrow> scalar \<times> scalar" where
  "std_minmax F [] = (0, 0)"
| "std_minmax F (y # ys) =
     fold (\<lambda>v (lo, hi). (if flt F v lo then v else lo, if flt F v hi then hi else v)) ys (y, y)"

definition in_band :: "float_ops \<Rightarrow> scalar \<Rightarrow> scalar \<Rightarrow> point list \<Rightarrow> bool" where
  "in_band F topOffset bottomOffset pts \<longleftrightarrow>
     (case std_minmax F (map snd pts) of (lo, hi) \<Rightarrow> fle F topOffset hi \<and> fle F lo bottomOffset)"

definition gap_step ::
    "float_ops \<Rightarrow> 'p path_ops \<Rightarrow> scalar \<Rightarrow> scalar \<Rightarrow> segment \<Rightarrow> scalar \<times> scalar \<Rightarrow> (scalar \<times> scalar) checked" where
  "gap_step F P topOffset bottomOffset rec gap =
     (case rec of (verb, pts) \<Rightarrow>
       case verb of
         kMove \<Rightarrow> Inr gap
       | kLine \<Rightarrow>
           Inr (if in_band F topOffset bottomOffset (take 2 pts)
                then addPts F topOffset bottomOffset pts (addLine F pts bottomOffset (addLine F pts topOffset gap)) else gap)
       | kQuad \<Rightarrow>
           Inr (if in_band F topOffset bottomOffset (take 3 pts)
                then addPts F topOffset bottomOffset pts (addQuad F P pts bottomOffset (addQuad F P pts topOffset gap)) else gap)
       | kConic \<Rightarrow> Inl (DCheckFailed ''There should be no conic primitives in glyph outlines.'')
       | kCubic \<Rightarrow>
           Inr (if in_band F topOffset bottomOffset (take 4 pts)
                then addPts F topOffset bottomOffset pts (addCubic F P pts bottomOffset (addCubic F P pts topOffset gap)) else gap)
       | kClose \<Rightarrow> Inr gap)"

fun gap_loop ::
    "float_ops \<Rightarrow> 'p path_ops \<Rightarrow> scalar \<Rightarrow> scalar \<Rightarrow> segment list \<Rightarrow> scalar \<times> scalar \<Rightarrow> (scalar \<times> scalar) checked" where
  "gap_loop F P topOffset bottomOffset [] gap = Inr gap"
| "gap_loop F P topOffset bottomOffset (r # rs) gap = bindE (gap_step F P topOffset bottomOffset r gap) (gap_loop F P topOffset bottomOffset rs)"

definition calculate_path_gap ::
    "float_ops \<Rightarrow> 'p path_ops \<Rightarrow> scalar \<Rightarrow> scalar \<Rightarrow> 'p \<Rightarrow> (scalar \<times> scalar) checked" where
  "calculate_path_gap F P topOffset bottomOffset p =
     gap_loop F P topOffset bottomOffset (segments P p) (SK_ScalarMax F, SK_ScalarMin F)"

section \<open>The cache\<close>

text \<open>The array and count after \<open>offsetResults\<close>; the array is the optional destination.\<close>

definition offsetResults ::
    "float_ops \<Rightarrow> scalar \<Rightarrow> scalar \<Rightarrow> scalar \<times> scalar \<Rightarrow> scalar list option \<times> nat \<Rightarrow> scalar list option \<times> nat" where
  "offsetResults F scl xPos interval = (\<lambda>(array, count).
     (map_option (\<lambda>a. a[count := fadd F (fmul F (fst interval) scl) xPos,
                        count + 1 := fadd F (fmul F (snd interval) scl) xPos]) array, count + 2))"

definition find_intercept :: "float_ops \<Rightarrow> scalar \<times> scalar \<Rightarrow> intercept list \<Rightarrow> intercept option" where
  "find_intercept F bounds cache =
     find (\<lambda>i. feq F (fst bounds) (fst (fBounds i)) \<and> feq F (snd bounds) (snd (fBounds i))) cache"

definition ensureIntercepts ::
    "float_ops \<Rightarrow> 'p path_ops \<Rightarrow> scalar \<times> scalar \<Rightarrow> scalar \<Rightarrow> scalar \<Rightarrow> scalar list option \<times> nat \<Rightarrow>
       ('p, 'd) sk_glyph \<Rightarrow> (('p, 'd) sk_glyph \<times> scalar list option \<times> nat) checked" where
  "ensureIntercepts F P bounds scl xPos dest g =
     (case fPathData g of
        None \<Rightarrow> Inl (NotReached ''fPathData'')
      | Some d \<Rightarrow>
          (case find_intercept F bounds (fIntercept d) of
             Some i \<Rightarrow>
               Inr (g, if flt F (fst (fInterval i)) (snd (fInterval i))
                       then offsetResults F scl xPos (fInterval i) dest else dest)
           | None \<Rightarrow>
               let unset = (SK_ScalarMax F, SK_ScalarMin F);
                   store = (\<lambda>interval. g\<lparr>fPathData := Some (d\<lparr>fIntercept :=
                     \<lparr>fBounds = bounds, fInterval = interval\<rparr> # fIntercept d\<rparr>)\<rparr>);
                   (path_top, path_bottom) = bounds_top_bottom P (fPath d)
               in if flt F path_bottom (fst bounds) \<or> flt F (snd bounds) path_top then Inr (store unset, dest)
                  else bindE (calculate_path_gap F P (fst bounds) (snd bounds) (fPath d)) (\<lambda>(left, right).
                    if fle F right left then Inr (store unset, dest)
                    else Inr (store (left, right), offsetResults F scl xPos (left, right) dest))))"

section \<open>Laws of the order\<close>

locale float_laws =
  fixes F :: float_ops and num :: "scalar \<Rightarrow> bool" and rank :: "scalar \<Rightarrow> int"
  assumes flt_iff: "flt F x y \<longleftrightarrow> num x \<and> num y \<and> rank x < rank y"
    and fle_iff: "fle F x y \<longleftrightarrow> num x \<and> num y \<and> rank x \<le> rank y"
    and feq_iff: "feq F x y \<longleftrightarrow> num x \<and> num y \<and> rank x = rank y"
    and extremes_num: "num (SK_ScalarMax F)" "num (SK_ScalarMin F)"
    and extremes: "rank (SK_ScalarMin F) < rank (SK_ScalarMax F)"
begin

definition gap_num :: "scalar \<times> scalar \<Rightarrow> bool" where
  "gap_num gap \<longleftrightarrow> num (fst gap) \<and> num (snd gap)"

definition inside :: "scalar \<Rightarrow> scalar \<times> scalar \<Rightarrow> bool" where
  "inside v gap \<longleftrightarrow> rank (fst gap) \<le> rank v \<and> rank v \<le> rank (snd gap)"

definition wider :: "scalar \<times> scalar \<Rightarrow> scalar \<times> scalar \<Rightarrow> bool" where
  "wider gap gap' \<longleftrightarrow> gap_num gap' \<and> rank (fst gap') \<le> rank (fst gap) \<and> rank (snd gap) \<le> rank (snd gap')"

lemma wider_refl: "gap_num gap \<Longrightarrow> wider gap gap"
  by (simp add: wider_def)

lemma wider_trans: "wider a b \<Longrightarrow> wider b c \<Longrightarrow> wider a c"
  by (auto simp: wider_def)

lemma wider_num: "wider a b \<Longrightarrow> gap_num b"
  by (simp add: wider_def)

lemma inside_wider: "inside v a \<Longrightarrow> wider a b \<Longrightarrow> inside v b"
  by (auto simp: inside_def wider_def)

lemma expandGap_wider: "gap_num gap \<Longrightarrow> wider gap (expandGap F v gap)"
  by (cases gap) (auto simp: wider_def gap_num_def expandGap_def flt_iff)

lemma expandGap_inside: "gap_num gap \<Longrightarrow> num v \<Longrightarrow> inside v (expandGap F v gap)"
  by (cases gap) (auto simp: inside_def gap_num_def expandGap_def flt_iff)

lemma fold_expandGap_wider: "gap_num gap \<Longrightarrow> wider gap (fold (expandGap F) vs gap)"
proof (induction vs arbitrary: gap)
  case Nil
  then show ?case by (simp add: wider_refl)
next
  case (Cons v vs)
  then show ?case using expandGap_wider [of gap v] wider_num wider_trans by simp
qed

lemma addLine_wider: "gap_num gap \<Longrightarrow> wider gap (addLine F pts offset gap)"
  by (auto simp: addLine_def Let_def wider_refl expandGap_wider split: prod.splits)

lemma addQuad_wider: "gap_num gap \<Longrightarrow> wider gap (addQuad F P pts offset gap)"
  by (simp add: addQuad_def fold_expandGap_wider)

lemma addCubic_wider: "gap_num gap \<Longrightarrow> wider gap (addCubic F P pts offset gap)"
  by (simp add: addCubic_def fold_expandGap_wider)

lemma addPts_wider: "gap_num gap \<Longrightarrow> wider gap (addPts F topOffset bottomOffset pts gap)"
  unfolding addPts_def
proof (induction pts arbitrary: gap)
  case Nil
  then show ?case by (simp add: wider_refl)
next
  case (Cons p pts)
  obtain x y where p: "p = (x, y)" by (cases p)
  define gap' where "gap' = (if flt F topOffset y \<and> flt F y bottomOffset then expandGap F x gap else gap)"
  have "wider gap gap'" using Cons.prems by (simp add: gap'_def wider_refl expandGap_wider)
  with Cons.IH [of gap'] show ?case by (simp add: p gap'_def [symmetric]) (blast intro: wider_trans wider_num)
qed

lemma addPts_inside:
  "gap_num gap \<Longrightarrow> (x, y) \<in> set pts \<Longrightarrow> flt F topOffset y \<Longrightarrow> flt F y bottomOffset \<Longrightarrow> num x \<Longrightarrow>
     inside x (addPts F topOffset bottomOffset pts gap)"
proof (induction pts arbitrary: gap)
  case Nil
  then show ?case by simp
next
  case (Cons p pts)
  obtain x' y' where p: "p = (x', y')" by (cases p)
  define gap' where "gap' = (if flt F topOffset y' \<and> flt F y' bottomOffset then expandGap F x' gap else gap)"
  have step: "addPts F topOffset bottomOffset (p # pts) gap = addPts F topOffset bottomOffset pts gap'"
    by (simp add: addPts_def p gap'_def)
  have num: "gap_num gap'"
    using Cons.prems(1) wider_num [OF expandGap_wider [OF Cons.prems(1)]] by (simp add: gap'_def)
  show ?case
  proof (cases "p = (x, y)")
    case True
    with Cons.prems p have "inside x gap'" by (simp add: gap'_def expandGap_inside)
    then show ?thesis unfolding step using addPts_wider [OF num] by (rule inside_wider)
  next
    case False
    with Cons.prems Cons.IH [OF num] show ?thesis unfolding step by simp
  qed
qed

lemma minmax_fold:
  assumes "\<forall>v \<in> set ys. num v" and "num lo" and "num hi"
  shows "case fold (\<lambda>v (lo, hi). (if flt F v lo then v else lo, if flt F v hi then hi else v)) ys (lo, hi) of
     (lo', hi') \<Rightarrow> num lo' \<and> num hi' \<and> rank lo' \<le> rank lo \<and> rank hi \<le> rank hi' \<and>
       (\<forall>v \<in> set ys. rank lo' \<le> rank v \<and> rank v \<le> rank hi')"
  using assms
proof (induction ys arbitrary: lo hi)
  case Nil
  then show ?case by simp
next
  case (Cons v ys)
  define lo1 hi1 where "lo1 = (if flt F v lo then v else lo)" and "hi1 = (if flt F v hi then hi else v)"
  from Cons.prems have "num lo1" "num hi1" "rank lo1 \<le> rank lo" "rank lo1 \<le> rank v" "rank hi \<le> rank hi1"
    "rank v \<le> rank hi1"
    by (auto simp: lo1_def hi1_def flt_iff)
  with Cons.IH [of lo1 hi1] Cons.prems(1) show ?case
    by (simp add: lo1_def [symmetric] hi1_def [symmetric]) (auto split: prod.splits)
qed

lemma in_band_point:
  assumes "\<forall>p \<in> set pts. num (snd p)" and "(x, y) \<in> set pts" and "flt F t y" and "flt F y b"
  shows "in_band F t b pts"
proof -
  from assms(2) obtain p ps where pts: "pts = p # ps" by (cases pts) auto
  obtain lo hi where mm: "std_minmax F (map snd pts) = (lo, hi)" by (cases "std_minmax F (map snd pts)")
  have "num lo \<and> num hi \<and> rank lo \<le> rank (snd p) \<and> rank (snd p) \<le> rank hi \<and>
      (\<forall>v \<in> set (map snd ps). rank lo \<le> rank v \<and> rank v \<le> rank hi)"
    using minmax_fold [of "map snd ps" "snd p" "snd p"] assms(1) mm by (simp add: pts)
  with assms(2) have "num lo" "num hi" "rank lo \<le> rank y" "rank y \<le> rank hi"
    by (auto simp: pts)
  with assms(3,4) show ?thesis by (auto simp: in_band_def mm flt_iff fle_iff)
qed

lemma gap_step_wider: "gap_num gap \<Longrightarrow> gap_step F P t b r gap = Inr gap' \<Longrightarrow> wider gap gap'"
  by (cases r)
    (auto simp: gap_step_def wider_refl split: path_verb.splits if_splits
      intro!: wider_trans [OF _ addPts_wider] wider_trans [OF _ addLine_wider] wider_trans [OF _ addQuad_wider]
        wider_trans [OF _ addCubic_wider] addLine_wider addQuad_wider addCubic_wider
      intro: wider_num)

text \<open>The segments of an outline: lines, quadratics and cubics with their two, three or four points.\<close>

definition drawn :: "segment \<Rightarrow> bool" where
  "drawn r \<longleftrightarrow> (fst r, length (snd r)) \<in> {(kLine, 2), (kQuad, 3), (kCubic, 4)} \<and> (\<forall>p \<in> set (snd r). num (snd p))"

lemma gap_step_inside:
  assumes "gap_num gap" and "gap_step F P t b r gap = Inr gap'" and "drawn r"
    and "(x, y) \<in> set (snd r)" and "flt F t y" and "flt F y b" and "num x"
  shows "inside x gap'"
proof -
  obtain verb pts where r: "r = (verb, pts)" by (cases r)
  from assms(3,4) have nums: "\<forall>p \<in> set pts. num (snd p)" and mem: "(x, y) \<in> set pts"
    by (auto simp: drawn_def r)
  note band = in_band_point [OF nums mem assms(5,6)]
  note line = wider_num [OF addLine_wider [OF wider_num [OF addLine_wider [OF assms(1)]]]]
  note quad = wider_num [OF addQuad_wider [OF wider_num [OF addQuad_wider [OF assms(1)]]]]
  note cubic = wider_num [OF addCubic_wider [OF wider_num [OF addCubic_wider [OF assms(1)]]]]
  from assms(3) consider "verb = kLine" "length pts = 2" | "verb = kQuad" "length pts = 3" | "verb = kCubic" "length pts = 4"
    by (auto simp: drawn_def r)
  then show ?thesis
  proof cases
    case 1
    with assms(2) band have "gap' = addPts F t b pts (addLine F pts b (addLine F pts t gap))"
      by (simp add: gap_step_def r)
    with addPts_inside [OF line mem assms(5-7)] show ?thesis by simp
  next
    case 2
    with assms(2) band have "gap' = addPts F t b pts (addQuad F P pts b (addQuad F P pts t gap))"
      by (simp add: gap_step_def r)
    with addPts_inside [OF quad mem assms(5-7)] show ?thesis by simp
  next
    case 3
    with assms(2) band have "gap' = addPts F t b pts (addCubic F P pts b (addCubic F P pts t gap))"
      by (simp add: gap_step_def r)
    with addPts_inside [OF cubic mem assms(5-7)] show ?thesis by simp
  qed
qed

lemma gap_loop_wider: "gap_num gap \<Longrightarrow> gap_loop F P t b rs gap = Inr gap' \<Longrightarrow> wider gap gap'"
proof (induction rs arbitrary: gap)
  case Nil
  then show ?case by (simp add: wider_refl)
next
  case (Cons r rs)
  from Cons.prems(2) obtain gap1 where "gap_step F P t b r gap = Inr gap1" "gap_loop F P t b rs gap1 = Inr gap'"
    by (auto simp: bindE_Inr_iff)
  with Cons show ?case by (meson gap_step_wider wider_num wider_trans)
qed

lemma gap_loop_inside:
  assumes "gap_num gap" and "gap_loop F P t b rs gap = Inr gap'" and "r \<in> set rs" and "drawn r"
    and "(x, y) \<in> set (snd r)" and "flt F t y" and "flt F y b" and "num x"
  shows "inside x gap'"
  using assms(1-3)
proof (induction rs arbitrary: gap)
  case Nil
  then show ?case by simp
next
  case (Cons q rs)
  from Cons.prems(2) obtain gap1 where st: "gap_step F P t b q gap = Inr gap1"
    and rest: "gap_loop F P t b rs gap1 = Inr gap'"
    by (auto simp: bindE_Inr_iff)
  have num: "gap_num gap1" using gap_step_wider [OF Cons.prems(1) st] by (rule wider_num)
  show ?case
  proof (cases "r = q")
    case True
    with gap_step_inside [OF Cons.prems(1) st _ _ assms(6-8)] assms(4,5) have "inside x gap1" by simp
    then show ?thesis using gap_loop_wider [OF num rest] by (rule inside_wider)
  next
    case False
    with Cons.prems(3) have "r \<in> set rs" by simp
    with Cons.IH [OF num rest] show ?thesis .
  qed
qed

lemma path_gap_num: "calculate_path_gap F P t b p = Inr gap \<Longrightarrow> gap_num gap"
  unfolding calculate_path_gap_def
  by (rule wider_num, rule gap_loop_wider [of "(SK_ScalarMax F, SK_ScalarMin F)"])
    (simp_all add: gap_num_def extremes_num)

lemma cache_hit: "num (fst bds) \<Longrightarrow> num (snd bds) \<Longrightarrow>
    find_intercept F bds (\<lparr>fBounds = bds, fInterval = iv\<rparr> # cache) = Some \<lparr>fBounds = bds, fInterval = iv\<rparr>"
  by (simp add: find_intercept_def feq_iff)

lemma ensure_cached:
  assumes first: "ensureIntercepts F P bds s x dest g = Inr (g1, dest1)"
    and num: "num (fst bds)" "num (snd bds)"
    and fresh: "ensureIntercepts F P bds s' x' dest' g = Inr (g2, dest2)"
  shows "g2 = g1" and "ensureIntercepts F P bds s' x' dest' g1 = Inr (g1, dest2)"
proof -
  from first obtain d where d: "fPathData g = Some d" by (auto simp: ensureIntercepts_def split: option.splits)
  have "g2 = g1 \<and> ensureIntercepts F P bds s' x' dest' g1 = Inr (g1, dest2)"
  proof (cases "find_intercept F bds (fIntercept d)")
    case (Some i)
    with first fresh d show ?thesis by (simp add: ensureIntercepts_def)
  next
    case None
    obtain pt pb where tb: "bounds_top_bottom P (fPath d) = (pt, pb)" by (cases "bounds_top_bottom P (fPath d)")
    show ?thesis
    proof (cases "flt F pb (fst bds) \<or> flt F (snd bds) pt")
      case True
      with None first fresh d tb num extremes show ?thesis
        by (auto simp: ensureIntercepts_def Let_def cache_hit flt_iff)
    next
      case False
      with None first d tb obtain l r where gap: "calculate_path_gap F P (fst bds) (snd bds) (fPath d) = Inr (l, r)"
        by (auto simp: ensureIntercepts_def Let_def bindE_Inr_iff)
      have lr: "num l" "num r" using path_gap_num [OF gap] by (simp_all add: gap_num_def)
      show ?thesis
      proof (cases "fle F r l")
        case True
        with False None first fresh d tb gap num extremes show ?thesis
          by (auto simp: ensureIntercepts_def Let_def cache_hit flt_iff)
      next
        case far: False
        with lr have "flt F l r" by (auto simp: flt_iff fle_iff)
        with far False None first fresh d tb gap num show ?thesis
          by (auto simp: ensureIntercepts_def Let_def cache_hit)
      qed
    qed
  qed
  then show "g2 = g1" "ensureIntercepts F P bds s' x' dest' g1 = Inr (g1, dest2)" by simp_all
qed

end

section \<open>IEEE comparison\<close>

definition ieee_num :: "scalar \<Rightarrow> bool" where
  "ieee_num w \<longleftrightarrow> w AND 0x7fffffff \<le> 0x7f800000"

definition ieee_rank :: "scalar \<Rightarrow> int" where
  "ieee_rank w = (if bit w 31 then - uint (w AND 0x7fffffff) else uint (w AND 0x7fffffff))"

text \<open>Comparison of the bits; the arithmetic is integer arithmetic on them, any would do here.\<close>

definition ieee :: float_ops where
  "ieee =
     \<lparr>flt = (\<lambda>x y. ieee_num x \<and> ieee_num y \<and> ieee_rank x < ieee_rank y),
      fle = (\<lambda>x y. ieee_num x \<and> ieee_num y \<and> ieee_rank x \<le> ieee_rank y),
      feq = (\<lambda>x y. ieee_num x \<and> ieee_num y \<and> ieee_rank x = ieee_rank y),
      fadd = (+), fsub = (-), fmul = (*), ieee_float_divide = (\<lambda>x y. x div y),
      SK_ScalarMax = 0x7f7fffff, SK_ScalarMin = 0xff7fffff\<rparr>"

interpretation ieee_order: float_laws ieee ieee_num ieee_rank
  by unfold_locales (simp_all add: ieee_def ieee_num_def ieee_rank_def)

section \<open>Properties\<close>

text \<open>A triangle of three lines, with top 0 and bottom 8 when read as small integers.\<close>

definition ex_outline :: "nat path_ops" where
  "ex_outline =
     \<lparr>segments = (\<lambda>_. [(kMove, [(0, 0)]), (kLine, [(0, 0), (5, 4)]), (kLine, [(5, 4), (2, 8)]),
        (kLine, [(2, 8), (0, 0)]), (kClose, [])]),
      bounds_top_bottom = (\<lambda>_. (0, 8)), quad_crossings = (\<lambda>_ _. []), cubic_crossings = (\<lambda>_ _. [])\<rparr>"

text \<open>
  The gap of a band covers the outline inside it: every control point of a line, quadratic or
  cubic that lies strictly between top and bottom has its x coordinate between the ends returned.
\<close>

theorem gap_covers_outline:
  assumes "float_laws F num rank"
    and "calculate_path_gap F P t b p = Inr (left, right)"
    and "(verb, pts) \<in> set (segments P p)"
    and "(verb, length pts) \<in> {(kLine, 2), (kQuad, 3), (kCubic, 4)}"
    and "\<forall>q \<in> set pts. num (snd q)"
    and "(x, y) \<in> set pts" and "flt F t y" and "flt F y b" and "num x"
  shows "rank left \<le> rank x \<and> rank x \<le> rank right"
proof -
  have "float_laws.inside rank x (left, right)"
  proof (rule float_laws.gap_loop_inside [OF assms(1) _ _ assms(3)])
    show "float_laws.gap_num num (SK_ScalarMax F, SK_ScalarMin F)"
      by (simp add: float_laws.gap_num_def [OF assms(1)] float_laws.extremes_num [OF assms(1)])
    show "gap_loop F P t b (segments P p) (SK_ScalarMax F, SK_ScalarMin F) = Inr (left, right)"
      using assms(2) by (simp add: calculate_path_gap_def)
    show "float_laws.drawn num (verb, pts)"
      using assms(4,5) by (simp add: float_laws.drawn_def [OF assms(1)])
  qed (use assms in simp_all)
  then show ?thesis by (simp add: float_laws.inside_def [OF assms(1)])
qed

lemma ex_gap: "calculate_path_gap ieee ex_outline 1 6 0 = Inr (0, 5)"
  by code_simp

lemma gap_covers_outline_witness: "ieee_rank 0 \<le> ieee_rank 5 \<and> ieee_rank 5 \<le> ieee_rank 5"
  by (rule gap_covers_outline [OF ieee_order.float_laws_axioms ex_gap, of kLine "[(0, 0), (5, 4)]" 5 4])
    (simp_all add: ex_outline_def ieee_def ieee_num_def ieee_rank_def)





end
