(* ===== verification/Bucket_Host.thy ===== *)
theory Bucket_Host
  imports Prelude
begin

text \<open>
  \<open>src/muim/bucket/host.cpp\<close>: a \<open>BucketHost\<close> serves one storage bucket to its renderers. Most calls
  ask the quota manager and answer when it replies; the copy of the bucket's information is replaced
  by each reply and becomes null when the bucket is gone.

  The host is the record \<open>bucket_host\<close>; every method is a definition that returns the new host and the
  calls it makes, in order. A callback is a number. A request at the quota manager is its
  continuation (\<open>quota_cont\<close>): the nested \<open>BindOnce\<close> of the code with the callback it holds.
\<close>

section \<open>Data\<close>

record bucket_info =
  is_null :: bool
  persistent :: bool
  durability :: nat
  expiration :: "nat option"

datatype permission_status = GRANTED | DENIED | ASK

record bucket_context =
  context_id :: nat
  persistent_storage_status :: permission_status
  client_info :: nat

text \<open>\<open>storage::BucketInfo()\<close>, \<open>InitializePendingRemote\<close> and \<open>ToBucketLocator\<close>, declared elsewhere.\<close>

record host_env =
  null_info :: bucket_info
  InitializePendingRemote :: "nat \<Rightarrow> nat option"
  ToBucketLocator :: "bucket_info \<Rightarrow> nat"

record bucket_host =
  bucket_info :: bucket_info
  bucket_id :: nat
  receivers :: "(nat \<times> nat) list"

datatype quota_cont =
    ForPersist nat
  | ForDurability nat
  | ForExpires nat
  | ForSetExpires nat
  | ForEstimate nat

datatype answer =
    PersistAnswer bool bool
  | EstimateAnswer int int bool
  | DurabilityAnswer nat bool
  | SetExpiresAnswer bool
  | ExpiresAnswer "nat option" bool

datatype quota_request =
    UpdateBucketPersistence nat bool
  | GetBucketById nat
  | GetBucketUsageAndReportedQuota nat
  | UpdateBucketExpiration nat nat

datatype host_call =
    RunCallback nat answer
  | DropCallback nat
  | AskQuota quota_request quota_cont
  | BindIndexedDB nat nat nat nat
  | BindCacheStorageForBucket nat bucket_info nat
  | GetSandboxedFileSystemForBucket nat bucket_info "string list" nat
  | BindLockManager nat nat
  | RemoveBucketHost nat

type_synonym host_result = "bucket_host \<times> host_call list"

definition BucketHost :: "bucket_info \<Rightarrow> nat \<Rightarrow> bucket_host" where
  "BucketHost info bid = \<lparr>bucket_info = info, bucket_id = bid, receivers = []\<rparr>"

section \<open>Bindings\<close>

definition CreateStorageBucketBinding :: "bucket_context option \<Rightarrow> nat \<Rightarrow> bucket_host \<Rightarrow> bucket_host checked" where
  "CreateStorageBucketBinding ctx remote h =
     (case ctx of
        None \<Rightarrow> Inl (DCheckFailed ''bucket_context'')
      | Some c \<Rightarrow> Inr (h\<lparr>receivers := receivers h @ [(remote, context_id c)]\<rparr>))"

definition PassStorageBucketBinding :: "bucket_context option \<Rightarrow> nat \<Rightarrow> bucket_host \<Rightarrow> bucket_host checked" where
  "PassStorageBucketBinding ctx receiver h =
     (case ctx of
        None \<Rightarrow> Inl (DCheckFailed ''bucket_context'')
      | Some c \<Rightarrow> Inr (h\<lparr>receivers := receivers h @ [(receiver, context_id c)]\<rparr>))"

text \<open>The receiver set has removed the disconnected receiver when it calls the handler.\<close>

definition OnReceiverDisconnected :: "bucket_host \<Rightarrow> host_result" where
  "OnReceiverDisconnected h = (h, if receivers h \<noteq> [] then [] else [RemoveBucketHost (bucket_id h)])"

section \<open>Calls of the renderer\<close>

text \<open>\<open>ctx\<close> is \<open>receivers_.current_context()\<close>, a weak pointer that may be null.\<close>

definition Persist :: "bucket_context option \<Rightarrow> nat \<Rightarrow> bucket_host \<Rightarrow> host_result" where
  "Persist ctx cb h =
     (case ctx of
        None \<Rightarrow> (h, [RunCallback cb (PersistAnswer False False)])
      | Some c \<Rightarrow>
          if is_null (bucket_info h) then (h, [RunCallback cb (PersistAnswer False False)])
          else if persistent (bucket_info h) then (h, [RunCallback cb (PersistAnswer True True)])
          else if persistent_storage_status c = GRANTED
          then (h, [AskQuota (UpdateBucketPersistence (bucket_id h) True) (ForPersist cb)])
          else (h, [RunCallback cb (PersistAnswer False True)]))"

definition Persisted :: "nat \<Rightarrow> bucket_host \<Rightarrow> host_result" where
  "Persisted cb h =
     (if is_null (bucket_info h) then (h, [RunCallback cb (PersistAnswer False False)])
      else (h, [AskQuota (GetBucketById (bucket_id h)) (ForPersist cb)]))"

definition Estimate :: "nat \<Rightarrow> bucket_host \<Rightarrow> host_result" where
  "Estimate cb h =
     (if is_null (bucket_info h) then (h, [RunCallback cb (EstimateAnswer 0 0 False)])
      else (h, [AskQuota (GetBucketUsageAndReportedQuota (bucket_id h)) (ForEstimate cb)]))"

definition Durability :: "nat \<Rightarrow> bucket_host \<Rightarrow> host_result" where
  "Durability cb h =
     (if is_null (bucket_info h) then (h, [RunCallback cb (DurabilityAnswer 0 False)])
      else (h, [AskQuota (GetBucketById (bucket_id h)) (ForDurability cb)]))"

definition SetExpires :: "nat \<Rightarrow> nat \<Rightarrow> bucket_host \<Rightarrow> host_result" where
  "SetExpires time cb h = (h, [AskQuota (UpdateBucketExpiration (bucket_id h) time) (ForSetExpires cb)])"

definition Expires :: "nat \<Rightarrow> bucket_host \<Rightarrow> host_result" where
  "Expires cb h =
     (if is_null (bucket_info h) then (h, [RunCallback cb (ExpiresAnswer None False)])
      else (h, [AskQuota (GetBucketById (bucket_id h)) (ForExpires cb)]))"

definition GetIdbFactory :: "host_env \<Rightarrow> bucket_context option \<Rightarrow> nat \<Rightarrow> bucket_host \<Rightarrow> host_result" where
  "GetIdbFactory E ctx receiver h =
     (case ctx of
        None \<Rightarrow> (h, [])
      | Some c \<Rightarrow>
          (case InitializePendingRemote E (client_info c) of
             None \<Rightarrow> (h, [])
           | Some checker \<Rightarrow>
               (h, [BindIndexedDB (ToBucketLocator E (bucket_info h)) (client_info c) checker receiver])))"

definition GetCaches :: "bucket_context option \<Rightarrow> nat \<Rightarrow> bucket_host \<Rightarrow> host_result" where
  "GetCaches ctx caches h =
     (case ctx of
        None \<Rightarrow> (h, [])
      | Some c \<Rightarrow> (h, [BindCacheStorageForBucket (context_id c) (bucket_info h) caches]))"

definition GetDirectory :: "bucket_context option \<Rightarrow> nat \<Rightarrow> bucket_host \<Rightarrow> host_result" where
  "GetDirectory ctx cb h =
     (case ctx of
        None \<Rightarrow> (h, [DropCallback cb])
      | Some c \<Rightarrow> (h, [GetSandboxedFileSystemForBucket (context_id c) (bucket_info h) [] cb]))"

definition GetDirectoryForDevtools ::
    "bucket_context option \<Rightarrow> string list \<Rightarrow> nat \<Rightarrow> bucket_host \<Rightarrow> host_result" where
  "GetDirectoryForDevtools ctx components cb h =
     (case ctx of
        None \<Rightarrow> (h, [DropCallback cb])
      | Some c \<Rightarrow> (h, [GetSandboxedFileSystemForBucket (context_id c) (bucket_info h) components cb]))"

definition GetLockManager :: "nat \<Rightarrow> bucket_host \<Rightarrow> host_result" where
  "GetLockManager receiver h = (h, [BindLockManager (bucket_id h) receiver])"

section \<open>Replies of the quota manager\<close>

definition DidValidateForPersist :: "nat \<Rightarrow> bool \<Rightarrow> bucket_host \<Rightarrow> host_call list" where
  "DidValidateForPersist cb bucket_exists h =
     [RunCallback cb (PersistAnswer (persistent (bucket_info h)) bucket_exists)]"

definition DidValidateForDurability :: "nat \<Rightarrow> bool \<Rightarrow> bucket_host \<Rightarrow> host_call list" where
  "DidValidateForDurability cb bucket_exists h =
     [RunCallback cb (DurabilityAnswer (durability (bucket_info h)) bucket_exists)]"

definition DidValidateForExpires :: "nat \<Rightarrow> bool \<Rightarrow> bucket_host \<Rightarrow> host_call list" where
  "DidValidateForExpires cb bucket_exists h =
     [RunCallback cb (ExpiresAnswer
        (if bucket_exists \<and> expiration (bucket_info h) \<noteq> None then expiration (bucket_info h) else None)
        bucket_exists)]"

text \<open>What the callback bound into a \<open>DidGetBucket\<close> reply does; \<open>SetExpires\<close> binds its own callback.\<close>

definition run_cont :: "quota_cont \<Rightarrow> bool \<Rightarrow> bucket_host \<Rightarrow> host_call list" where
  "run_cont k bucket_exists h =
     (case k of
        ForPersist cb \<Rightarrow> DidValidateForPersist cb bucket_exists h
      | ForDurability cb \<Rightarrow> DidValidateForDurability cb bucket_exists h
      | ForExpires cb \<Rightarrow> DidValidateForExpires cb bucket_exists h
      | ForSetExpires cb \<Rightarrow> [RunCallback cb (SetExpiresAnswer bucket_exists)]
      | ForEstimate cb \<Rightarrow> [])"

definition DidGetBucket :: "host_env \<Rightarrow> quota_cont \<Rightarrow> bucket_info option \<Rightarrow> bucket_host \<Rightarrow> host_result" where
  "DidGetBucket E k reply h =
     (let h' = h\<lparr>bucket_info := (case reply of Some i \<Rightarrow> i | None \<Rightarrow> null_info E)\<rparr>
      in (h', run_cont k (reply \<noteq> None) h'))"

definition DidGetUsageAndQuota ::
    "host_env \<Rightarrow> nat \<Rightarrow> bool \<Rightarrow> int \<Rightarrow> int \<Rightarrow> bucket_host \<Rightarrow> host_result" where
  "DidGetUsageAndQuota E cb code_ok usage quota h =
     ((if \<not> code_ok then h\<lparr>bucket_info := null_info E\<rparr> else h),
      [RunCallback cb (EstimateAnswer usage quota code_ok)])"

section \<open>The life of a host\<close>

text \<open>
  Events as the surroundings deliver them. The quota manager keeps the requests in \<open>pending\<close> and
  answers any of them; the host is gone once \<open>RemoveBucketHost\<close> was called, after which its weak
  pointers are null and a reply drops the callback it holds.
\<close>

datatype host_method =
    CPersist nat | CPersisted nat | CEstimate nat | CDurability nat | CSetExpires nat nat | CExpires nat
  | CGetIdbFactory nat | CGetCaches nat | CGetDirectory nat | CGetDirectoryForDevtools "string list" nat
  | CGetLockManager nat

datatype quota_reply = BucketReply "bucket_info option" | UsageReply bool int int

datatype host_event =
    Create "bucket_context option" nat
  | Bind "bucket_context option" nat
  | Call "bucket_context option" host_method
  | Reply nat quota_reply
  | Disconnect nat

record host_world =
  host :: bucket_host
  alive :: bool
  pending :: "quota_cont list"

fun cont_callback :: "quota_cont \<Rightarrow> nat" where
  "cont_callback (ForPersist cb) = cb"
| "cont_callback (ForDurability cb) = cb"
| "cont_callback (ForExpires cb) = cb"
| "cont_callback (ForSetExpires cb) = cb"
| "cont_callback (ForEstimate cb) = cb"

definition do_call :: "host_env \<Rightarrow> bucket_context option \<Rightarrow> host_method \<Rightarrow> bucket_host \<Rightarrow> host_result" where
  "do_call E ctx m h =
     (case m of
        CPersist cb \<Rightarrow> Persist ctx cb h
      | CPersisted cb \<Rightarrow> Persisted cb h
      | CEstimate cb \<Rightarrow> Estimate cb h
      | CDurability cb \<Rightarrow> Durability cb h
      | CSetExpires t cb \<Rightarrow> SetExpires t cb h
      | CExpires cb \<Rightarrow> Expires cb h
      | CGetIdbFactory r \<Rightarrow> GetIdbFactory E ctx r h
      | CGetCaches r \<Rightarrow> GetCaches ctx r h
      | CGetDirectory cb \<Rightarrow> GetDirectory ctx cb h
      | CGetDirectoryForDevtools cs cb \<Rightarrow> GetDirectoryForDevtools ctx cs cb h
      | CGetLockManager r \<Rightarrow> GetLockManager r h)"

definition do_reply :: "host_env \<Rightarrow> quota_cont \<Rightarrow> quota_reply \<Rightarrow> bucket_host \<Rightarrow> host_result" where
  "do_reply E k r h =
     (case (k, r) of
        (ForEstimate cb, UsageReply ok usage quota) \<Rightarrow> DidGetUsageAndQuota E cb ok usage quota h
      | (ForEstimate cb, BucketReply _) \<Rightarrow> (h, [])
      | (_, BucketReply i) \<Rightarrow> DidGetBucket E k i h
      | (_, UsageReply _ _ _) \<Rightarrow> (h, []))"

definition asked :: "host_call list \<Rightarrow> quota_cont list" where
  "asked out = concat (map (\<lambda>c. case c of AskQuota _ k \<Rightarrow> [k] | _ \<Rightarrow> []) out)"

definition remove_nth :: "nat \<Rightarrow> 'a list \<Rightarrow> 'a list" where
  "remove_nth i xs = take i xs @ drop (Suc i) xs"

definition host_step :: "host_env \<Rightarrow> host_world \<Rightarrow> host_event \<Rightarrow> (host_world \<times> host_call list) checked" where
  "host_step E w e =
     (case e of
        Create ctx r \<Rightarrow> bindE (CreateStorageBucketBinding ctx r (host w)) (\<lambda>h. Inr (w\<lparr>host := h\<rparr>, []))
      | Bind ctx r \<Rightarrow> bindE (PassStorageBucketBinding ctx r (host w)) (\<lambda>h. Inr (w\<lparr>host := h\<rparr>, []))
      | Call ctx m \<Rightarrow>
          (case do_call E ctx m (host w) of
             (h, out) \<Rightarrow> Inr (w\<lparr>host := h, pending := pending w @ asked out\<rparr>, out))
      | Reply i r \<Rightarrow>
          if i < length (pending w) then
            if alive w then
              (case do_reply E (pending w ! i) r (host w) of
                 (h, out) \<Rightarrow> Inr (w\<lparr>host := h, pending := remove_nth i (pending w)\<rparr>, out))
            else Inr (w\<lparr>pending := remove_nth i (pending w)\<rparr>, [DropCallback (cont_callback (pending w ! i))])
          else Inr (w, [])
      | Disconnect r \<Rightarrow>
          (case OnReceiverDisconnected ((host w)\<lparr>receivers := filter (\<lambda>x. fst x \<noteq> r) (receivers (host w))\<rparr>) of
             (h, out) \<Rightarrow> Inr (w\<lparr>host := h, alive := (out = [])\<rparr>, out)))"

text \<open>A reply is of the kind its request asks for.\<close>

definition fits :: "quota_cont \<Rightarrow> quota_reply \<Rightarrow> bool" where
  "fits k r \<longleftrightarrow>
     (case k of ForEstimate _ \<Rightarrow> True | _ \<Rightarrow> False) = (case r of UsageReply _ _ _ \<Rightarrow> True | BucketReply _ \<Rightarrow> False)"

text \<open>
  Calls, bindings and disconnections reach a live host only, bindings come with a context, and a
  reply is of the kind its request asks for.
\<close>

definition host_en :: "host_world \<Rightarrow> host_event \<Rightarrow> bool" where
  "host_en w e =
     (case e of
        Create ctx r \<Rightarrow> alive w \<and> ctx \<noteq> None
      | Bind ctx r \<Rightarrow> alive w \<and> ctx \<noteq> None
      | Call ctx m \<Rightarrow> alive w
      | Reply i r \<Rightarrow> i < length (pending w) \<and> fits (pending w ! i) r
      | Disconnect r \<Rightarrow> alive w)"

definition new_world :: "bucket_info \<Rightarrow> nat \<Rightarrow> host_world" where
  "new_world info bid = \<lparr>host = BucketHost info bid, alive = True, pending = []\<rparr>"

section \<open>Callbacks\<close>

definition held :: "host_world \<Rightarrow> nat multiset" where
  "held w = mset (map cont_callback (pending w))"

definition brought :: "host_event \<Rightarrow> nat multiset" where
  "brought e =
     (case e of
        Call ctx m \<Rightarrow>
          (case m of
             CPersist cb \<Rightarrow> {#cb#} | CPersisted cb \<Rightarrow> {#cb#} | CEstimate cb \<Rightarrow> {#cb#} | CDurability cb \<Rightarrow> {#cb#}
           | CSetExpires t cb \<Rightarrow> {#cb#} | CExpires cb \<Rightarrow> {#cb#} | CGetDirectory cb \<Rightarrow> {#cb#}
           | CGetDirectoryForDevtools cs cb \<Rightarrow> {#cb#} | _ \<Rightarrow> {#})
      | _ \<Rightarrow> {#})"

text \<open>Callbacks answered, passed on to the file system, or dropped.\<close>

definition answered :: "host_call list \<Rightarrow> nat multiset" where
  "answered out = mset (concat (map (\<lambda>c. case c of RunCallback cb _ \<Rightarrow> [cb] | _ \<Rightarrow> []) out))"

definition passed_on :: "host_call list \<Rightarrow> nat multiset" where
  "passed_on out =
     mset (concat (map (\<lambda>c. case c of GetSandboxedFileSystemForBucket _ _ _ cb \<Rightarrow> [cb] | _ \<Rightarrow> []) out))"

definition dropped :: "host_call list \<Rightarrow> nat multiset" where
  "dropped out = mset (concat (map (\<lambda>c. case c of DropCallback cb \<Rightarrow> [cb] | _ \<Rightarrow> []) out))"

definition settled :: "host_call list \<Rightarrow> nat multiset" where
  "settled out = answered out + passed_on out + dropped out"

lemmas host_op_defs = Persist_def Persisted_def Estimate_def Durability_def SetExpires_def Expires_def
  GetIdbFactory_def GetCaches_def GetDirectory_def GetDirectoryForDevtools_def GetLockManager_def

lemmas count_defs = held_def brought_def settled_def answered_def passed_on_def dropped_def asked_def

lemma do_call_balance:
  "do_call E ctx m h = (h', out) \<Longrightarrow>
     h' = h \<and> brought (Call ctx m) = settled out + mset (map cont_callback (asked out))"
  by (cases m) (auto simp: do_call_def host_op_defs count_defs split: option.splits if_splits)

lemma mset_remove_nth: "i < length xs \<Longrightarrow> mset (map f xs) = add_mset (f (xs ! i)) (mset (map f (remove_nth i xs)))"
proof -
  assume "i < length xs"
  then have "map f xs = map f (take i xs @ xs ! i # drop (Suc i) xs)"
    using id_take_nth_drop by metis
  then show ?thesis by (simp add: remove_nth_def)
qed

lemmas validate_defs = DidValidateForPersist_def DidValidateForDurability_def DidValidateForExpires_def

lemma run_cont_settled: "(\<forall>cb. k \<noteq> ForEstimate cb) \<Longrightarrow> settled (run_cont k b h) = {#cont_callback k#}"
  by (cases k) (simp_all add: run_cont_def validate_defs settled_def answered_def passed_on_def dropped_def)

lemma do_reply_fits:
  assumes "fits k r"
  obtains i where "r = BucketReply i" "\<forall>cb. k \<noteq> ForEstimate cb" "do_reply E k r h = DidGetBucket E k i h"
  | cb ok u q where "k = ForEstimate cb" "r = UsageReply ok u q" "do_reply E k r h = DidGetUsageAndQuota E cb ok u q h"
  using assms by (cases k; cases r) (simp_all add: fits_def do_reply_def)

lemma settled_answer: "settled [RunCallback cb a] = {#cb#}"
  by (simp add: settled_def answered_def passed_on_def dropped_def)

lemma do_reply_balance: "fits k r \<Longrightarrow> do_reply E k r h = (h', out) \<Longrightarrow> settled out = {#cont_callback k#}"
  by (erule do_reply_fits [of k r E h])
    (auto simp: DidGetBucket_def Let_def run_cont_settled DidGetUsageAndQuota_def settled_answer)

lemma host_step_ok: "host_en w e \<Longrightarrow> \<exists>w' out. host_step E w e = Inr (w', out)"
  by (cases e) (auto simp: host_en_def host_step_def CreateStorageBucketBinding_def PassStorageBucketBinding_def
    split: prod.splits option.splits)

lemma host_step_balance:
  assumes "host_en w e" and "host_step E w e = Inr (w', out)"
  shows "held w + brought e = settled out + held w'"
proof (cases e)
  case (Call ctx m)
  obtain h out' where c: "do_call E ctx m (host w) = (h, out')" by (cases "do_call E ctx m (host w)")
  with do_call_balance [OF c] assms(2) Call show ?thesis
    by (auto simp: host_step_def held_def)
next
  case (Reply i r)
  with assms(1) have i: "i < length (pending w)" by (simp add: host_en_def)
  show ?thesis
  proof (cases "alive w")
    case True
    obtain h out' where c: "do_reply E (pending w ! i) r (host w) = (h, out')"
      by (cases "do_reply E (pending w ! i) r (host w)")
    with do_reply_balance [OF _ c] assms Reply i True mset_remove_nth [OF i, of cont_callback] show ?thesis
      by (auto simp: host_step_def host_en_def held_def brought_def)
  next
    case False
    with assms(2) Reply i mset_remove_nth [OF i, of cont_callback] show ?thesis
      by (auto simp: host_step_def count_defs)
  qed
qed (use assms(2) in \<open>auto simp: host_step_def count_defs OnReceiverDisconnected_def bindE_Inr_iff split: if_splits\<close>)

interpretation callbacks: balanced_machine "host_step E" host_en "\<lambda>w. True" held brought "\<lambda>out. {#}" settled
proof unfold_locales
  show "\<exists>w' out. host_step E w e = Inr (w', out) \<and> True" if "host_en w e" for w e
    using host_step_ok [OF that] by simp
  show "settled (o1 @ o2) = settled o1 + settled o2" for o1 o2
    by (simp add: settled_def answered_def passed_on_def dropped_def)
  show "settled [] = {#}" by (simp add: settled_def answered_def passed_on_def dropped_def)
  show "held w + brought e + {#} = settled out + held w'"
    if "host_en w e" "host_step E w e = Inr (w', out)" for w e w' out
    using host_step_balance [OF that] by simp
qed simp_all

section \<open>A bucket that is gone\<close>

definition query_callback :: "host_method \<Rightarrow> (nat \<times> answer) option" where
  "query_callback m =
     (case m of
        CPersist cb \<Rightarrow> Some (cb, PersistAnswer False False)
      | CPersisted cb \<Rightarrow> Some (cb, PersistAnswer False False)
      | CEstimate cb \<Rightarrow> Some (cb, EstimateAnswer 0 0 False)
      | CDurability cb \<Rightarrow> Some (cb, DurabilityAnswer 0 False)
      | CExpires cb \<Rightarrow> Some (cb, ExpiresAnswer None False)
      | _ \<Rightarrow> None)"

lemma null_query:
  "is_null (bucket_info h) \<Longrightarrow> query_callback m = Some (cb, ans) \<Longrightarrow> do_call E ctx m h = (h, [RunCallback cb ans])"
  by (cases m) (auto simp: query_callback_def do_call_def host_op_defs split: option.splits)

lemma null_queries_run:
  assumes "is_null (bucket_info (host w))" and "\<forall>(ctx, m) \<in> set qs. query_callback m \<noteq> None"
  shows "run (host_step E) w (map (\<lambda>(ctx, m). Call ctx m) qs) =
    Inr (w, map (\<lambda>(ctx, m). RunCallback (fst (the (query_callback m))) (snd (the (query_callback m)))) qs)"
  using assms(2)
proof (induction qs)
  case Nil
  then show ?case by simp
next
  case (Cons q qs)
  obtain ctx m where q: "q = (ctx, m)" by (cases q)
  with Cons.prems obtain cb ans where m: "query_callback m = Some (cb, ans)" by auto
  have "host_step E w (Call ctx m) = Inr (w, [RunCallback cb ans])"
    by (simp add: host_step_def null_query [OF assms(1) m] asked_def)
  with Cons m q show ?case by simp
qed

lemma failed_reply_is_null:
  assumes "is_null (null_info E)" and "alive w" and "i < length (pending w)"
    and "fits (pending w ! i) r" and "r = BucketReply None \<or> (\<exists>u q. r = UsageReply False u q)"
  shows "\<exists>w' out. host_step E w (Reply i r) = Inr (w', out) \<and> is_null (bucket_info (host w'))"
proof -
  obtain h out where c: "do_reply E (pending w ! i) r (host w) = (h, out)"
    by (cases "do_reply E (pending w ! i) r (host w)")
  with assms have "is_null (bucket_info h)"
    by (auto simp: do_reply_def fits_def DidGetBucket_def DidGetUsageAndQuota_def Let_def split: quota_cont.splits)
  with assms c show ?thesis by (simp add: host_step_def)
qed

section \<open>Removal\<close>

lemma call_no_removal: "do_call E ctx m h = (h', out) \<Longrightarrow> h' = h \<and> RemoveBucketHost b \<notin> set out"
  by (cases m) (auto simp: do_call_def host_op_defs split: option.splits if_splits)

lemma reply_no_removal:
  "fits k r \<Longrightarrow> do_reply E k r h = (h', out) \<Longrightarrow> receivers h' = receivers h \<and> RemoveBucketHost b \<notin> set out"
  by (erule do_reply_fits [of k r E h])
    (auto simp: DidGetBucket_def Let_def run_cont_def validate_defs DidGetUsageAndQuota_def split: quota_cont.splits)

lemma host_step_removal:
  assumes "host_en w e" and "host_step E w e = Inr (w', out)"
  shows "(\<exists>b. RemoveBucketHost b \<in> set out) \<longleftrightarrow> alive w \<and> \<not> alive w'"
    and "alive w \<and> \<not> alive w' \<longrightarrow> receivers (host w') = []"
    and "\<not> alive w \<Longrightarrow> \<not> alive w' \<and> receivers (host w') = receivers (host w)"
proof -
  have "((\<exists>b. RemoveBucketHost b \<in> set out) \<longleftrightarrow> alive w \<and> \<not> alive w') \<and>
    (alive w \<and> \<not> alive w' \<longrightarrow> receivers (host w') = []) \<and>
    (\<not> alive w \<longrightarrow> \<not> alive w' \<and> receivers (host w') = receivers (host w))"
  proof (cases e)
    case (Call ctx m)
    obtain h out' where c: "do_call E ctx m (host w) = (h, out')" by (cases "do_call E ctx m (host w)")
    with call_no_removal [OF c] assms Call show ?thesis by (auto simp: host_step_def host_en_def)
  next
    case (Reply i r)
    obtain h out' where c: "do_reply E (pending w ! i) r (host w) = (h, out')"
      by (cases "do_reply E (pending w ! i) r (host w)")
    with reply_no_removal [OF _ c] assms Reply show ?thesis
      by (auto simp: host_step_def host_en_def split: if_splits)
  next
    case (Disconnect r)
    with assms show ?thesis
      by (auto simp: host_step_def host_en_def OnReceiverDisconnected_def split: if_splits)
  qed (use assms in \<open>auto simp: host_step_def host_en_def bindE_Inr_iff\<close>)
  then show "(\<exists>b. RemoveBucketHost b \<in> set out) \<longleftrightarrow> alive w \<and> \<not> alive w'"
    and "alive w \<and> \<not> alive w' \<longrightarrow> receivers (host w') = []"
    and "\<not> alive w \<Longrightarrow> \<not> alive w' \<and> receivers (host w') = receivers (host w)"
    by blast+
qed

lemma run_removal:
  "alive w = a \<Longrightarrow> (\<not> a \<longrightarrow> receivers (host w) = []) \<Longrightarrow> admissible (host_step E) host_en w es \<Longrightarrow>
     run (host_step E) w es = Inr (t, out) \<Longrightarrow>
     ((\<exists>b. RemoveBucketHost b \<in> set out) \<longleftrightarrow> a \<and> \<not> alive t) \<and> (\<not> alive t \<longrightarrow> receivers (host t) = []) \<and>
     (\<not> a \<longrightarrow> \<not> alive t)"
proof (induction es arbitrary: w out a)
  case Nil
  then show ?case by simp
next
  case (Cons e es)
  from Cons.prems(4) obtain w1 o1 o2 where st: "host_step E w e = Inr (w1, o1)"
    and rest: "run (host_step E) w1 es = Inr (t, o2)" and out: "out = o1 @ o2"
    unfolding run_Cons_Inr by blast
  from Cons.prems(3) st have en: "host_en w e" and adm: "admissible (host_step E) host_en w1 es" by auto
  note removal = host_step_removal [OF en st]
  have "\<not> alive w1 \<longrightarrow> receivers (host w1) = []"
    using removal(2,3) Cons.prems(1,2) by (cases "alive w") auto
  from Cons.IH [OF refl this adm rest] removal(1,3) Cons.prems(1) show ?case
    by (auto simp: out)
qed

section \<open>Properties\<close>

definition ex_env :: host_env where
  "ex_env = \<lparr>null_info = \<lparr>is_null = True, persistent = False, durability = 0, expiration = None\<rparr>,
     InitializePendingRemote = (\<lambda>c. Some c), ToBucketLocator = (\<lambda>_. 1)\<rparr>"

definition ex_context :: bucket_context where
  "ex_context = \<lparr>context_id = 2, persistent_storage_status = GRANTED, client_info = 5\<rparr>"

definition ex_info :: "bucket_info" where
  "ex_info = \<lparr>is_null = False, persistent = False, durability = 1, expiration = Some 90\<rparr>"

definition ex_events :: "host_event list" where
  "ex_events =
     [Bind (Some ex_context) 1, Call (Some ex_context) (CPersist 11), Call (Some ex_context) (CExpires 12),
      Call None (CGetDirectory 13), Call (Some ex_context) (CEstimate 14),
      Reply 1 (BucketReply (Some ex_info)), Reply 0 (BucketReply None), Call (Some ex_context) (CPersisted 15),
      Disconnect 1, Reply 0 (UsageReply True 3 9)]"

definition ex_out :: "host_call list" where
  "ex_out =
     [AskQuota (UpdateBucketPersistence 7 True) (ForPersist 11), AskQuota (GetBucketById 7) (ForExpires 12),
      DropCallback 13, AskQuota (GetBucketUsageAndReportedQuota 7) (ForEstimate 14),
      RunCallback 12 (ExpiresAnswer (Some 90) True), RunCallback 11 (PersistAnswer False False),
      RunCallback 15 (PersistAnswer False False), RemoveBucketHost 7, DropCallback 14]"

definition ex_final :: host_world where
  "ex_final = \<lparr>host = \<lparr>bucket_info = null_info ex_env, bucket_id = 7, receivers = []\<rparr>, alive = False, pending = []\<rparr>"

lemma ex_events_run: "run (host_step ex_env) (new_world ex_info 7) ex_events = Inr (ex_final, ex_out)"
  by code_simp

lemma ex_events_admissible: "admissible (host_step ex_env) host_en (new_world ex_info 7) ex_events"
  by code_simp

text \<open>
  C10. Every callback handed to the host is, over any admissible life, exactly once either answered,
  passed on to the file system, dropped or still with a request at the quota manager.
\<close>

theorem every_callback_settled_once:
  assumes "admissible (host_step E) host_en (new_world info bid) es"
    and "run (host_step E) (new_world info bid) es = Inr (w, out)"
  shows "sum_list (map brought es) = answered out + passed_on out + dropped out + held w"
  using callbacks.run_balance [OF TrueI assms] by (simp add: new_world_def held_def settled_def)

lemma every_callback_settled_once_witness:
  "sum_list (map brought ex_events) = answered ex_out + passed_on ex_out + dropped ex_out + held ex_final"
  by (rule every_callback_settled_once [OF ex_events_admissible ex_events_run])

text \<open>
  After a reply that fails, the bucket is taken to be gone: every later question about it, however
  many and from whatever context, is answered at once with failure, no request is made and the host
  does not change.
\<close>

theorem gone_bucket_answers_at_once:
  assumes "is_null (null_info E)" and "alive w" and "i < length (pending w)" and "fits (pending w ! i) r"
    and "r = BucketReply None \<or> (\<exists>u q. r = UsageReply False u q)"
    and "\<forall>(ctx, m) \<in> set qs. query_callback m \<noteq> None"
  shows "\<exists>w' out. host_step E w (Reply i r) = Inr (w', out) \<and>
    run (host_step E) w' (map (\<lambda>(ctx, m). Call ctx m) qs) =
      Inr (w', map (\<lambda>(ctx, m). RunCallback (fst (the (query_callback m))) (snd (the (query_callback m)))) qs)"
  using failed_reply_is_null [OF assms(1-5)] null_queries_run [OF _ assms(6)] by blast

lemma gone_bucket_answers_at_once_witness:
  "\<exists>w' out. host_step ex_env ((new_world ex_info 7)\<lparr>pending := [ForPersist 3]\<rparr>) (Reply 0 (BucketReply None)) = Inr (w', out) \<and>
     run (host_step ex_env) w' [Call None (CExpires 4)] = Inr (w', [RunCallback 4 (ExpiresAnswer None False)])"
  using gone_bucket_answers_at_once [of ex_env "(new_world ex_info 7)\<lparr>pending := [ForPersist 3]\<rparr>" 0 "BucketReply None"
      "[(None, CExpires 4)]"]
  by (simp add: ex_env_def new_world_def fits_def query_callback_def)

text \<open>
  The manager is asked to remove the host only when no receiver is left, and a host for which that
  was never asked is alive.
\<close>

theorem removed_with_last_receiver:
  assumes "admissible (host_step E) host_en (new_world info bid) es"
    and "run (host_step E) (new_world info bid) es = Inr (w, out)"
  shows "((\<exists>b. RemoveBucketHost b \<in> set out) \<longleftrightarrow> \<not> alive w) \<and> (\<not> alive w \<longrightarrow> receivers (host w) = [])"
  using run_removal [OF _ _ assms, of True] by (simp add: new_world_def)

lemma removed_with_last_receiver_witness: "\<not> alive ex_final \<and> receivers (host ex_final) = []"
proof -
  have "RemoveBucketHost 7 \<in> set ex_out" by (simp add: ex_out_def)
  then show ?thesis using removed_with_last_receiver [OF ex_events_admissible ex_events_run] by blast
qed

end
