(* ===== verification/Android_Net.thy ===== *)
theory Android_Net
  imports Net_Error
begin

text \<open>
  Network calls on Android, \<open>src/networking/android/n_lib.cpp\<close>, \<open>stats.cpp\<close> and \<open>out_result.cpp\<close>: thin
  functions over Java methods, and three over functions of the system library that are looked up once and kept
  in a static variable. The Java side and the loader are parameters. The lemmas show that a symbol is looked up
  at most once and that every answer is the one a fresh look-up gives.
\<close>

section \<open>The Java side\<close>

text \<open>What \<open>getCurrentDnsStatus\<close> and \<open>getDnsStatusForNetwork\<close> return, and the result of a verification.\<close>

record dns_status =
  getDnsServers :: "8 word list list"
  getPrivateDnsActive :: bool
  getPrivateDnsServerName :: string
  getSearchDomains :: string

record java_verify_result =
  getStatus :: int
  isIssuedByKnownRoot :: bool
  getCertificateChainEncoded :: "string list"

record java_side =
  getUserAddedRoots :: "string list"
  verifyServerCertificates ::
    "string list \<Rightarrow> string \<Rightarrow> string \<Rightarrow> string option \<Rightarrow> string option \<Rightarrow> java_verify_result"
  getMimeTypeFromExtension :: "string \<Rightarrow> string option"
  getWifiSignalLevel :: "int \<Rightarrow> int"
  isCleartextPermitted :: "string \<Rightarrow> bool"
  haveOnlyLoopbackAddresses :: bool
  getNetworkOperator :: string
  getIsRoaming :: bool
  getIsCaptivePortal :: bool
  getWifiSSID :: string
  reportBadDefaultNetwork :: bool
  getCurrentDnsStatus :: "dns_status option"
  getDnsStatusForNetwork :: "int \<Rightarrow> dns_status option"
  getTotalTxBytes :: int
  getTotalRxBytes :: int
  getCurrentUidTxBytes :: int
  getCurrentUidRxBytes :: int

text \<open>The methods that change something on the Java side.\<close>

datatype java_change =
    AddTestRoot "8 word list"
  | ClearTestRoots
  | SetWifiEnabled bool
  | ReportedBadDefaultNetwork
  | Tag int int int
  | RegisterPayload int "8 word list"
  | UnregisterPayload int

section \<open>Thin functions\<close>

text \<open>Strings and arrays are converted to Java's, which never gives a null reference.\<close>

definition GetUserAddedRoots :: "java_side \<Rightarrow> string list" where
  "GetUserAddedRoots J = getUserAddedRoots J"

text \<open>\<open>CertVerifyStatusAndroid\<close> is the number Java returned.\<close>

definition ExtractCertVerifyResult :: "java_verify_result \<Rightarrow> int \<times> bool \<times> string list" where
  "ExtractCertVerifyResult result = (getStatus result, isIssuedByKnownRoot result, getCertificateChainEncoded result)"

text \<open>The two optional arguments are null unless the feature is enabled and the response is not empty.\<close>

definition VerifyX509CertChain ::
    "java_side \<Rightarrow> bool \<Rightarrow> string list \<Rightarrow> string \<Rightarrow> string \<Rightarrow> string \<Rightarrow> string \<Rightarrow> int \<times> bool \<times> string list" where
  "VerifyX509CertChain J kUseCertTransparencyAwareApiForOsCertVerify cert_chain auth_type host ocsp_response sct_list =
     (let given = (\<lambda>s. if kUseCertTransparencyAwareApiForOsCertVerify \<and> s \<noteq> [] then Some s else None)
      in ExtractCertVerifyResult
           (verifyServerCertificates J cert_chain auth_type host (given ocsp_response) (given sct_list)))"

text \<open>The result, and what \<open>result\<close> points to.\<close>

definition GetMimeTypeFromExtension :: "java_side \<Rightarrow> string \<Rightarrow> string \<Rightarrow> bool \<times> string" where
  "GetMimeTypeFromExtension J extension result =
     (case getMimeTypeFromExtension J extension of None \<Rightarrow> (False, result) | Some t \<Rightarrow> (True, t))"

definition IsCleartextPermitted :: "java_side \<Rightarrow> string \<Rightarrow> bool" where
  "IsCleartextPermitted J host = isCleartextPermitted J host"

definition HaveOnlyLoopbackAddresses :: "java_side \<Rightarrow> bool" where
  "HaveOnlyLoopbackAddresses J = haveOnlyLoopbackAddresses J"

definition GetTelephonyNetworkOperator :: "java_side \<Rightarrow> string" where
  "GetTelephonyNetworkOperator J = getNetworkOperator J"

definition GetIsRoaming :: "java_side \<Rightarrow> bool" where "GetIsRoaming J = getIsRoaming J"

definition GetIsCaptivePortal :: "java_side \<Rightarrow> bool" where "GetIsCaptivePortal J = getIsCaptivePortal J"

definition GetWifiSSID :: "java_side \<Rightarrow> string" where "GetWifiSSID J = getWifiSSID J"

definition AddTestRootCertificate :: "8 word list \<Rightarrow> java_change list" where
  "AddTestRootCertificate cert = [AddTestRoot cert]"

definition ClearTestRootCertificates :: "java_change list" where "ClearTestRootCertificates = [ClearTestRoots]"

definition SetWifiEnabledForTesting :: "bool \<Rightarrow> java_change list" where
  "SetWifiEnabledForTesting enabled = [SetWifiEnabled enabled]"

definition ReportBadDefaultNetwork :: "java_side \<Rightarrow> bool \<times> java_change list" where
  "ReportBadDefaultNetwork J = (reportBadDefaultNetwork J, [ReportedBadDefaultNetwork])"

definition TagSocket :: "int \<Rightarrow> int \<Rightarrow> int \<Rightarrow> java_change list" where
  "TagSocket socket uid tag = [Tag socket uid tag]"

definition RegisterQuicConnectionClosePayload :: "int \<Rightarrow> 8 word list \<Rightarrow> java_change list" where
  "RegisterQuicConnectionClosePayload fd payload = [RegisterPayload fd payload]"

definition UnregisterQuicConnectionClosePayload :: "int \<Rightarrow> java_change list" where
  "UnregisterQuicConnectionClosePayload fd = [UnregisterPayload fd]"

definition GetWifiSignalLevel :: "java_side \<Rightarrow> int option checked" where
  "GetWifiSignalLevel J =
     (let count_buckets = 5;
          signal_strength = getWifiSignalLevel J count_buckets
      in if signal_strength < 0 then Inr None
         else dcheck (0 \<le> signal_strength) ''0 <= signal_strength'' (
              dcheck (count_buckets - 1 \<ge> signal_strength) ''count_buckets - 1 >= signal_strength'' (
                Inr (Some signal_strength))))"

text \<open>\<open>ERROR_NOT_SUPPORTED\<close> is 0.\<close>

definition traffic_result :: "int \<Rightarrow> bool \<times> int" where
  "traffic_result bytes = (bytes \<noteq> 0, bytes)"

definition GetTotalTxBytes :: "java_side \<Rightarrow> bool \<times> int" where "GetTotalTxBytes J = traffic_result (getTotalTxBytes J)"

definition GetTotalRxBytes :: "java_side \<Rightarrow> bool \<times> int" where "GetTotalRxBytes J = traffic_result (getTotalRxBytes J)"

definition GetCurrentUidTxBytes :: "java_side \<Rightarrow> bool \<times> int" where
  "GetCurrentUidTxBytes J = traffic_result (getCurrentUidTxBytes J)"

definition GetCurrentUidRxBytes :: "java_side \<Rightarrow> bool \<times> int" where
  "GetCurrentUidRxBytes J = traffic_result (getCurrentUidRxBytes J)"

section \<open>DNS servers\<close>

text \<open>The variables the four pointers of a caller name; an end point is the bytes of its address and a port.\<close>

record dns_out =
  dns_servers :: "(8 word list \<times> nat) list"
  dns_over_tls_active :: bool
  dns_over_tls_hostname :: string
  search_suffixes :: "string list"

text \<open>A caller's variables before a call: no servers; the others are only read after a call that set them.\<close>

definition unset_dns_out :: dns_out where
  "unset_dns_out = \<lparr>dns_servers = [], dns_over_tls_active = False, dns_over_tls_hostname = [], search_suffixes = []\<rparr>"

definition kDefaultPort :: nat where "kDefaultPort = 53"

definition GetDnsServersInternal :: "(string \<Rightarrow> string list) \<Rightarrow> dns_status \<Rightarrow> dns_out \<Rightarrow> bool \<times> dns_out" where
  "GetDnsServersInternal SplitString dns_status out =
     (let servers = dns_servers out @ map (\<lambda>a. (a, kDefaultPort)) (getDnsServers dns_status)
      in (servers \<noteq> [],
          \<lparr>dns_servers = servers, dns_over_tls_active = getPrivateDnsActive dns_status,
           dns_over_tls_hostname = getPrivateDnsServerName dns_status,
           search_suffixes = SplitString (getSearchDomains dns_status)\<rparr>))"

definition GetCurrentDnsServers :: "java_side \<Rightarrow> (string \<Rightarrow> string list) \<Rightarrow> dns_out \<Rightarrow> bool \<times> dns_out" where
  "GetCurrentDnsServers J SplitString out = (case getCurrentDnsStatus J of
     None \<Rightarrow> (False, out)
   | Some result \<Rightarrow> GetDnsServersInternal SplitString result out)"

definition GetDnsServersForNetwork ::
    "java_side \<Rightarrow> (string \<Rightarrow> string list) \<Rightarrow> int \<Rightarrow> int \<Rightarrow> int \<Rightarrow> dns_out \<Rightarrow> (bool \<times> dns_out) checked" where
  "GetDnsServersForNetwork J SplitString sdk_int SDK_VERSION_P network out =
     dcheck (sdk_int \<ge> SDK_VERSION_P) ''sdk_int >= SDK_VERSION_P'' (Inr (
       case getDnsStatusForNetwork J network of
         None \<Rightarrow> (False, out)
       | Some result \<Rightarrow> GetDnsServersInternal SplitString result out))"

section \<open>Functions of the system library\<close>

text \<open>
  A function pointer is \<open>Some f\<close>, with what the function does, or null. Errors are numbers; the functions that
  are called give their result and the \<open>errno\<close> they leave.
\<close>

type_synonym setsocknetwork = "int \<Rightarrow> int \<Rightarrow> int \<times> int"
type_synonym getaddrinfofornetwork = "int \<Rightarrow> string \<Rightarrow> string \<Rightarrow> int \<times> int"
type_synonym getnetworkblockedreason = "int \<Rightarrow> int"

record loader =
  dlopen_android :: bool
  dlsym_setsocknetwork :: "setsocknetwork option"
  dlsym_getaddrinfofornetwork :: "getaddrinfofornetwork option"
  dlsym_getnetworkblockedreason :: "getnetworkblockedreason option"

record net_numbers =
  kInvalidSocket :: int
  kInvalidNetworkHandle :: int
  ENONET :: int
  EINVAL :: int
  ENOSYS :: int
  EAI_SYSTEM :: int
  MapSystemError :: "int \<Rightarrow> net_error"
  kLnp :: int

text \<open>The static variables: \<open>None\<close> until their declaration is first reached.\<close>

record net_statics =
  marshmallow_set_network_for_socket :: "setsocknetwork option option"
  get_addrinfo_for_network :: "getaddrinfofornetwork option option"
  get_network_blocked_reason :: "getnetworkblockedreason option option"

definition new_statics :: net_statics where
  "new_statics = \<lparr>marshmallow_set_network_for_socket = None, get_addrinfo_for_network = None, get_network_blocked_reason = None\<rparr>"

datatype net_symbol = Setsocknetwork | Getaddrinfofornetwork | Getnetworkblockedreason

datatype blocked_reason = kNone | Lnp

datatype net_output = LookedUp net_symbol | BindResult net_error | AddrInfoResult int int | BlockedReason blocked_reason

text \<open>Without a check of \<open>dlopen\<close>'s result \<open>dlsym\<close> decides; the third look-up checks it.\<close>

definition GetMarshmallowSetNetworkForSocket :: "loader \<Rightarrow> setsocknetwork option" where
  "GetMarshmallowSetNetworkForSocket L = dlsym_setsocknetwork L"

definition GetMarshmallowGetAddrInfoForNetwork :: "loader \<Rightarrow> getaddrinfofornetwork option" where
  "GetMarshmallowGetAddrInfoForNetwork L = dlsym_getaddrinfofornetwork L"

definition GetAndroidGetNetworkBlockedReason :: "loader \<Rightarrow> getnetworkblockedreason option" where
  "GetAndroidGetNetworkBlockedReason L = (if dlopen_android L then dlsym_getnetworkblockedreason L else None)"

definition BindToNetwork ::
    "net_numbers \<Rightarrow> loader \<Rightarrow> net_statics \<Rightarrow> int \<Rightarrow> int \<Rightarrow> (net_statics \<times> net_output list) checked" where
  "BindToNetwork N L s socket network =
     dcheck (socket \<noteq> kInvalidSocket N) ''socket != kInvalidSocket'' (Inr (
       if network = kInvalidNetworkHandle N then (s, [BindResult ERR_INVALID_ARGUMENT])
       else
         let (s, looked, f) = (case marshmallow_set_network_for_socket s of
               Some f \<Rightarrow> (s, [], f)
             | None \<Rightarrow> let f = GetMarshmallowSetNetworkForSocket L
                       in (s\<lparr>marshmallow_set_network_for_socket := Some f\<rparr>, [LookedUp Setsocknetwork], f))
         in (s, looked @ [BindResult (case f of
               None \<Rightarrow> ERR_NOT_IMPLEMENTED
             | Some set_network \<Rightarrow>
                 let (rv, errno) = set_network network socket;
                     rv = (if rv \<noteq> 0 then errno else rv)
                 in if rv = ENONET N then ERR_NETWORK_CHANGED else MapSystemError N rv)])))"

text \<open>The result with \<open>errno\<close>.\<close>

definition GetAddrInfoForNetwork ::
    "net_numbers \<Rightarrow> loader \<Rightarrow> net_statics \<Rightarrow> int \<Rightarrow> string \<Rightarrow> string \<Rightarrow> (net_statics \<times> net_output list) checked" where
  "GetAddrInfoForNetwork N L s network node service = Inr (
     if network = kInvalidNetworkHandle N then (s, [AddrInfoResult (EAI_SYSTEM N) (EINVAL N)])
     else
       let (s, looked, f) = (case get_addrinfo_for_network s of
             Some f \<Rightarrow> (s, [], f)
           | None \<Rightarrow> let f = GetMarshmallowGetAddrInfoForNetwork L
                     in (s\<lparr>get_addrinfo_for_network := Some f\<rparr>, [LookedUp Getaddrinfofornetwork], f))
       in (s, looked @ [case f of
             None \<Rightarrow> AddrInfoResult (EAI_SYSTEM N) (ENOSYS N)
           | Some getaddrinfo \<Rightarrow> (case getaddrinfo network node service of (rv, errno) \<Rightarrow> AddrInfoResult rv errno)]))"

definition GetNetworkBlockedReason ::
    "net_numbers \<Rightarrow> loader \<Rightarrow> net_statics \<Rightarrow> bool \<Rightarrow> int \<Rightarrow> (net_statics \<times> net_output list) checked" where
  "GetNetworkBlockedReason N L s kLocalNetworkPermissionCheck fd = Inr (
     let (s, looked, f) = (case get_network_blocked_reason s of
           Some f \<Rightarrow> (s, [], f)
         | None \<Rightarrow> let f = GetAndroidGetNetworkBlockedReason L
                   in (s\<lparr>get_network_blocked_reason := Some f\<rparr>, [LookedUp Getnetworkblockedreason], f))
     in (s, looked @ [BlockedReason (
           if \<not> kLocalNetworkPermissionCheck then kNone
           else case f of
             None \<Rightarrow> kNone
           | Some get_reason \<Rightarrow> if get_reason fd = kLnp N then Lnp else kNone)]))"

datatype net_event = Bind int int | AddrInfo int string string | Blocked bool int

definition net_step :: "net_numbers \<Rightarrow> loader \<Rightarrow> net_statics \<Rightarrow> net_event \<Rightarrow> (net_statics \<times> net_output list) checked" where
  "net_step N L s e = (case e of
     Bind socket network \<Rightarrow> BindToNetwork N L s socket network
   | AddrInfo network node service \<Rightarrow> GetAddrInfoForNetwork N L s network node service
   | Blocked feature fd \<Rightarrow> GetNetworkBlockedReason N L s feature fd)"

section \<open>A look-up is made once\<close>

text \<open>What a call answers with the functions looked up afresh.\<close>

definition fresh_answer :: "net_numbers \<Rightarrow> loader \<Rightarrow> net_event \<Rightarrow> net_output" where
  "fresh_answer N L e = (case e of
     Bind socket network \<Rightarrow> BindResult (
       if network = kInvalidNetworkHandle N then ERR_INVALID_ARGUMENT
       else case dlsym_setsocknetwork L of
         None \<Rightarrow> ERR_NOT_IMPLEMENTED
       | Some f \<Rightarrow>
           let (rv, errno) = f network socket
           in if (if rv \<noteq> 0 then errno else rv) = ENONET N then ERR_NETWORK_CHANGED
              else MapSystemError N (if rv \<noteq> 0 then errno else rv))
   | AddrInfo network node service \<Rightarrow>
       (if network = kInvalidNetworkHandle N then AddrInfoResult (EAI_SYSTEM N) (EINVAL N)
        else case dlsym_getaddrinfofornetwork L of
          None \<Rightarrow> AddrInfoResult (EAI_SYSTEM N) (ENOSYS N)
        | Some f \<Rightarrow> AddrInfoResult (fst (f network node service)) (snd (f network node service)))
   | Blocked feature fd \<Rightarrow> BlockedReason (
       case dlsym_getnetworkblockedreason L of
         Some f \<Rightarrow> if feature \<and> dlopen_android L \<and> f fd = kLnp N then Lnp else kNone
       | None \<Rightarrow> kNone))"

text \<open>A static variable holds nothing or what the loader gives.\<close>

definition statics_ok :: "loader \<Rightarrow> net_statics \<Rightarrow> bool" where
  "statics_ok L s \<longleftrightarrow>
     marshmallow_set_network_for_socket s \<in> {None, Some (GetMarshmallowSetNetworkForSocket L)} \<and>
     get_addrinfo_for_network s \<in> {None, Some (GetMarshmallowGetAddrInfoForNetwork L)} \<and>
     get_network_blocked_reason s \<in> {None, Some (GetAndroidGetNetworkBlockedReason L)}"

fun looked_up :: "net_statics \<Rightarrow> net_symbol \<Rightarrow> bool" where
  "looked_up s Setsocknetwork = (marshmallow_set_network_for_socket s \<noteq> None)"
| "looked_up s Getaddrinfofornetwork = (get_addrinfo_for_network s \<noteq> None)"
| "looked_up s Getnetworkblockedreason = (get_network_blocked_reason s \<noteq> None)"

definition socket_given :: "net_numbers \<Rightarrow> net_statics \<Rightarrow> net_event \<Rightarrow> bool" where
  "socket_given N s e \<longleftrightarrow> (case e of Bind socket network \<Rightarrow> socket \<noteq> kInvalidSocket N | _ \<Rightarrow> True)"

definition looks :: "net_symbol \<Rightarrow> net_output list \<Rightarrow> nat" where
  "looks y out = length (filter (\<lambda>c. c = LookedUp y) out)"

definition answers :: "net_output list \<Rightarrow> net_output list" where
  "answers out = filter (\<lambda>c. \<forall>y. c \<noteq> LookedUp y) out"

lemma all_symbols: "(\<forall>y. P y) \<longleftrightarrow> P Setsocknetwork \<and> P Getaddrinfofornetwork \<and> P Getnetworkblockedreason"
  by (metis net_symbol.exhaust)

lemmas net_step_defs = net_step_def answers_def looks_def fresh_answer_def Let_def all_symbols statics_ok_def
  case_prod_unfold

lemma net_step_ok:
  assumes "statics_ok L s" and "socket_given N s e"
  shows "\<exists>s' out. net_step N L s e = Inr (s', out) \<and> statics_ok L s' \<and> answers out = [fresh_answer N L e] \<and>
    (\<forall>y. looks y out = (if looked_up s' y then 1 else 0) - (if looked_up s y then 1 else 0) \<and>
      (looked_up s y \<longrightarrow> looked_up s' y))"
proof (cases e)
  case (Bind socket network)
  show ?thesis
  proof (cases "network = kInvalidNetworkHandle N")
    case True
    with Bind assms show ?thesis
      by (simp add: net_step_def BindToNetwork_def socket_given_def answers_def looks_def fresh_answer_def)
  next
    case False
    let ?f = "GetMarshmallowSetNetworkForSocket L"
    show ?thesis
    proof (cases "marshmallow_set_network_for_socket s")
      case None
      with Bind False assms show ?thesis
        by (simp add: net_step_defs BindToNetwork_def socket_given_def GetMarshmallowSetNetworkForSocket_def
            cong: option.case_cong)
    next
      case (Some f)
      with assms(1) have "f = ?f" by (simp add: statics_ok_def)
      with Some Bind False assms show ?thesis
        by (simp add: net_step_defs BindToNetwork_def socket_given_def GetMarshmallowSetNetworkForSocket_def
            cong: option.case_cong)
    qed
  qed
next
  case (AddrInfo network node service)
  let ?f = "GetMarshmallowGetAddrInfoForNetwork L"
  show ?thesis
  proof (cases "network = kInvalidNetworkHandle N")
    case True
    with AddrInfo assms show ?thesis
      by (simp add: net_step_def GetAddrInfoForNetwork_def answers_def looks_def fresh_answer_def)
  next
    case False
    have "(case ?f of None \<Rightarrow> AddrInfoResult (EAI_SYSTEM N) (ENOSYS N)
      | Some g \<Rightarrow> (case g network node service of (rv, errno) \<Rightarrow> AddrInfoResult rv errno)) = fresh_answer N L e"
      "fresh_answer N L e \<noteq> LookedUp y" for y
      using AddrInfo False by (simp_all add: fresh_answer_def GetMarshmallowGetAddrInfoForNetwork_def case_prod_unfold split: option.split)
    note fresh = this
    from assms(1) have "get_addrinfo_for_network s = None \<or> get_addrinfo_for_network s = Some ?f"
      by (auto simp: statics_ok_def)
    then show ?thesis using AddrInfo False assms(1) fresh
      by (elim disjE) (simp_all add: net_step_def GetAddrInfoForNetwork_def Let_def statics_ok_def answers_def looks_def all_symbols)
  qed
next
  case (Blocked feature fd)
  let ?f = "GetAndroidGetNetworkBlockedReason L"
  have "BlockedReason (if \<not> feature then kNone
      else case ?f of None \<Rightarrow> kNone | Some g \<Rightarrow> if g fd = kLnp N then Lnp else kNone) = fresh_answer N L e"
    "fresh_answer N L e \<noteq> LookedUp y" for y
    using Blocked by (simp_all add: fresh_answer_def GetAndroidGetNetworkBlockedReason_def split: option.split)
  note fresh = this
  from assms(1) have "get_network_blocked_reason s = None \<or> get_network_blocked_reason s = Some ?f"
    by (auto simp: statics_ok_def)
  then show ?thesis using Blocked assms(1) fresh
    by (cases feature; elim disjE) (simp_all add: net_step_def GetNetworkBlockedReason_def Let_def case_prod_unfold statics_ok_def answers_def looks_def all_symbols)
qed

interpretation net: safe_machine "net_step N L" "socket_given N" "statics_ok L"
proof
  show "\<exists>s' out. net_step N L s e = Inr (s', out) \<and> statics_ok L s'" if "statics_ok L s" "socket_given N s e" for s e
    using net_step_ok [OF that] by blast
qed

text \<open>
  C25. Over any calls with valid sockets, the answers are those of functions looked up afresh for each call, no check
  fails, and each symbol is looked up at most once.
\<close>

theorem symbols_looked_up_once:
  assumes "list_all (socket_given N new_statics) es"
  shows "\<exists>s out. run (net_step N L) new_statics es = Inr (s, out) \<and> answers out = map (fresh_answer N L) es \<and>
    (\<forall>y. looks y out \<le> 1)"
proof -
  have additive: "looks y (a @ b) = looks y a + looks y b" "answers (a @ b) = answers a @ answers b" for y a b
    by (simp_all add: looks_def answers_def)
  have "\<exists>t out. run (net_step N L) s es = Inr (t, out) \<and> answers out = map (fresh_answer N L) es \<and>
      (\<forall>y. looks y out \<le> (if looked_up s y then 0 else 1))" if "statics_ok L s" for s
    using assms that
  proof (induction es arbitrary: s)
    case Nil
    then show ?case by (simp add: answers_def looks_def)
  next
    case (Cons e es)
    from Cons.prems have given: "socket_given N s e" by (simp add: socket_given_def)
    from net_step_ok [OF Cons.prems(2) given] obtain s1 out1
      where st: "net_step N L s e = Inr (s1, out1)" "statics_ok L s1" "answers out1 = [fresh_answer N L e]"
        and once: "\<And>y. looks y out1 = (if looked_up s1 y then 1 else 0) - (if looked_up s y then 1 else 0)"
        and mono: "\<And>y. looked_up s y \<Longrightarrow> looked_up s1 y" by auto
    from Cons.IH [OF _ st(2)] Cons.prems(1) obtain t out2
      where rest: "run (net_step N L) s1 es = Inr (t, out2)" "answers out2 = map (fresh_answer N L) es"
        and le: "\<And>y. looks y out2 \<le> (if looked_up s1 y then 0 else 1)" by auto
    have "looks y (out1 @ out2) \<le> (if looked_up s y then 0 else 1)" for y
      using once [of y] le [of y] mono [of y] by (auto simp: additive split: if_splits)
    with st rest show ?case by (simp add: additive)
  qed
  note run_ok = this
  have "statics_ok L new_statics" "\<not> looked_up new_statics y" for y
    by (cases y; simp add: statics_ok_def new_statics_def)+
  with run_ok [of new_statics] show ?thesis by simp
qed

text \<open>A library without the third symbol.\<close>

theorem symbols_looked_up_once_witness:
  "\<exists>s out. run (net_step
      \<lparr>kInvalidSocket = -1, kInvalidNetworkHandle = -1, ENONET = 64, EINVAL = 22, ENOSYS = 38, EAI_SYSTEM = -11,
       MapSystemError = (\<lambda>e. if e = 0 then NET_OK else ERR_OTHER e), kLnp = 1\<rparr>
      \<lparr>dlopen_android = True, dlsym_setsocknetwork = Some (\<lambda>n fd. (-1, 64)), dlsym_getaddrinfofornetwork = None,
       dlsym_getnetworkblockedreason = None\<rparr>)
      new_statics [Bind 3 100, Bind 4 100, Blocked True 3] = Inr (s, out) \<and>
    answers out = [BindResult ERR_NETWORK_CHANGED, BindResult ERR_NETWORK_CHANGED, BlockedReason kNone]"
proof -
  let ?N = "\<lparr>kInvalidSocket = -1, kInvalidNetworkHandle = -1, ENONET = 64, EINVAL = 22, ENOSYS = 38, EAI_SYSTEM = -11,
       MapSystemError = (\<lambda>e. if e = 0 then NET_OK else ERR_OTHER e), kLnp = 1\<rparr>"
  let ?L = "\<lparr>dlopen_android = True, dlsym_setsocknetwork = Some (\<lambda>n fd. (-1, 64)), dlsym_getaddrinfofornetwork = None,
       dlsym_getnetworkblockedreason = None\<rparr>"
  have "list_all (socket_given ?N new_statics) [Bind 3 100, Bind 4 100, Blocked True 3]" by (simp add: socket_given_def)
  from symbols_looked_up_once [OF this, of ?L] show ?thesis by (auto simp: fresh_answer_def)
qed

section \<open>DNS servers\<close>

text \<open>
  The servers of a status are added, with the default port, behind those the caller's list already holds; the
  result tells whether the list is then empty, so a list that was not empty hides that no server is known.
  Without a status nothing is written.
\<close>

theorem dns_servers_are_appended:
  "GetCurrentDnsServers J SplitString out = (case getCurrentDnsStatus J of
     None \<Rightarrow> (False, out)
   | Some st \<Rightarrow> (dns_servers out \<noteq> [] \<or> getDnsServers st \<noteq> [],
       \<lparr>dns_servers = dns_servers out @ map (\<lambda>a. (a, 53)) (getDnsServers st), dns_over_tls_active = getPrivateDnsActive st,
        dns_over_tls_hostname = getPrivateDnsServerName st, search_suffixes = SplitString (getSearchDomains st)\<rparr>))"
  by (auto simp: GetCurrentDnsServers_def GetDnsServersInternal_def Let_def kDefaultPort_def split: option.split)

end
