(* ===== verification/Host_Resolver.thy ===== *)
theory Host_Resolver
  imports Android_Net "HOL-Library.Sublist"
begin

unbundle bit_operations_syntax

text \<open>
  \<open>src/muim/screen/host_resolver.cpp\<close>: the host a resolver is asked for, the requests that only fail,
  the options read from a dictionary or from features, the composition of resolvers, the network
  bound resolver of Android, which asks \<open>Android_Net\<close> for its servers, and the small conversions of
  \<open>net::HostResolver\<close>.

  Base methods that are \<open>NOTREACHED\<close> until a subclass overrides them return a failed check.
\<close>

section \<open>Hosts\<close>

record scheme_host_port =
  shp_scheme :: string
  shp_host :: string
  shp_port :: "16 word"

record host_port_pair =
  hpp_host :: string
  hpp_port :: "16 word"

datatype resolver_host = SchemeHost scheme_host_port | PairHost host_port_pair

text \<open>Methods of \<open>url::SchemeHostPort\<close> and \<open>HostPortPair\<close>.\<close>

record host_ops =
  IsValid :: "scheme_host_port \<Rightarrow> bool"
  IsEmpty :: "host_port_pair \<Rightarrow> bool"
  HostForURL :: "host_port_pair \<Rightarrow> string"
  Serialize :: "scheme_host_port \<Rightarrow> string"
  PairToString :: "host_port_pair \<Rightarrow> string"

definition Host :: "host_ops \<Rightarrow> resolver_host \<Rightarrow> resolver_host checked" where
  "Host ops host =
     (case host of
        SchemeHost s \<Rightarrow> dcheck (IsValid ops s) ''IsValid()'' (Inr host)
      | PairHost p \<Rightarrow> dcheck (\<not> IsEmpty ops p) ''!IsEmpty()'' (Inr host))"

definition HasScheme :: "resolver_host \<Rightarrow> bool" where
  "HasScheme host = (case host of SchemeHost _ \<Rightarrow> True | PairHost _ \<Rightarrow> False)"

definition GetScheme :: "resolver_host \<Rightarrow> string checked" where
  "GetScheme host =
     (case host of
        SchemeHost s \<Rightarrow> Inr (shp_scheme s)
      | PairHost _ \<Rightarrow> Inl (DCheckFailed ''holds_alternative<SchemeHostPort>''))"

definition GetHostname :: "host_ops \<Rightarrow> resolver_host \<Rightarrow> string" where
  "GetHostname ops host = (case host of SchemeHost s \<Rightarrow> shp_host s | PairHost p \<Rightarrow> HostForURL ops p)"

definition GetHostnameWithoutBrackets :: "resolver_host \<Rightarrow> string" where
  "GetHostnameWithoutBrackets host =
     (case host of
        SchemeHost s \<Rightarrow>
          let hostname = shp_host s in
          if length hostname > 2 \<and> hd hostname = CHR ''['' \<and> last hostname = CHR '']''
          then take (length hostname - 2) (drop 1 hostname) else hostname
      | PairHost p \<Rightarrow> hpp_host p)"

definition GetPort :: "resolver_host \<Rightarrow> 16 word" where
  "GetPort host = (case host of SchemeHost s \<Rightarrow> shp_port s | PairHost p \<Rightarrow> hpp_port p)"

definition HostToString :: "host_ops \<Rightarrow> resolver_host \<Rightarrow> string" where
  "HostToString ops host = (case host of SchemeHost s \<Rightarrow> Serialize ops s | PairHost p \<Rightarrow> PairToString ops p)"

definition AsSchemeHostPort :: "resolver_host \<Rightarrow> scheme_host_port checked" where
  "AsSchemeHostPort host =
     (case host of SchemeHost s \<Rightarrow> Inr s | PairHost _ \<Rightarrow> Inl (DCheckFailed ''scheme_host_port''))"

definition AsHostPortPair :: "resolver_host \<Rightarrow> host_port_pair checked" where
  "AsHostPortPair host =
     (case host of PairHost p \<Rightarrow> Inr p | SchemeHost _ \<Rightarrow> Inl (DCheckFailed ''host_port_pair''))"

section \<open>Address lists\<close>

record endpoint_result =
  ip_endpoints :: "nat list"
  is_alternative :: bool

record address_list =
  al_endpoints :: "nat list"
  dns_aliases :: "string list"

definition empty_address_list :: address_list where
  "empty_address_list = \<lparr>al_endpoints = [], dns_aliases = []\<rparr>"

text \<open>\<open>aliases\<close> is the \<open>std::set\<close> in its iteration order.\<close>

definition EndpointResultToAddressList :: "endpoint_result list \<Rightarrow> string list \<Rightarrow> address_list" where
  "EndpointResultToAddressList endpoints aliases =
     (case dropWhile is_alternative endpoints of
        [] \<Rightarrow> empty_address_list
      | authority_endpoint # _ \<Rightarrow> \<lparr>al_endpoints = ip_endpoints authority_endpoint, dns_aliases = aliases\<rparr>)"

section \<open>Requests that fail\<close>

text \<open>What the methods of \<open>FailingRequestImpl\<close> and \<open>FailingServiceEndpointRequestImpl\<close> return.\<close>

record failing_request =
  Start :: net_error
  GetAddressResults :: address_list
  GetEndpointResults :: "endpoint_result list"
  GetTextResults :: "string list"
  GetHostnameResults :: "host_port_pair list"
  GetDnsAliasResults :: "string list"
  GetResolveErrorInfo :: net_error
  GetStaleInfo :: "nat option"
  GetResolutionDetails :: "nat option"

definition FailingRequestImpl :: "net_error \<Rightarrow> failing_request" where
  "FailingRequestImpl error =
     \<lparr>Start = error, GetAddressResults = empty_address_list, GetEndpointResults = [], GetTextResults = [],
      GetHostnameResults = [], GetDnsAliasResults = [], GetResolveErrorInfo = error, GetStaleInfo = None,
      GetResolutionDetails = None\<rparr>"

record failing_service_request =
  ServiceStart :: net_error
  ServiceEndpoints :: "nat list"
  ServiceAliases :: "string list"
  EndpointsCryptoReady :: bool
  ServiceErrorInfo :: net_error
  ServiceStaleInfo :: "nat option"
  IsStaleWhileRefresing :: bool
  ServiceResolutionDetails :: "nat option"

definition FailingServiceEndpointRequestImpl :: "net_error \<Rightarrow> failing_service_request" where
  "FailingServiceEndpointRequestImpl error =
     \<lparr>ServiceStart = error, ServiceEndpoints = [], ServiceAliases = [], EndpointsCryptoReady = False,
      ServiceErrorInfo = error, ServiceStaleInfo = None, IsStaleWhileRefresing = False,
      ServiceResolutionDetails = None\<rparr>"

definition CreateFailingRequest :: "net_error \<Rightarrow> failing_request" where
  "CreateFailingRequest error = FailingRequestImpl error"

definition CreateFailingProbeRequest :: "net_error \<Rightarrow> failing_request" where
  "CreateFailingProbeRequest error = FailingRequestImpl error"

definition CreateFailingServiceEndpointRequest :: "net_error \<Rightarrow> failing_service_request" where
  "CreateFailingServiceEndpointRequest error = FailingServiceEndpointRequestImpl error"

section \<open>HTTPS service binding options\<close>

record https_svcb_options =
  insecure_extra_time_max :: time_delta
  insecure_extra_time_percent :: int
  insecure_extra_time_min :: time_delta
  secure_extra_time_max :: time_delta
  secure_extra_time_percent :: int
  secure_extra_time_min :: time_delta

record dict_value =
  FindString :: "string \<Rightarrow> string option"
  FindInt :: "string \<Rightarrow> int option"

definition GetTimeDeltaFromDictString ::
    "(string \<Rightarrow> time_delta option) \<Rightarrow> dict_value \<Rightarrow> string \<Rightarrow> time_delta \<Rightarrow> time_delta" where
  "GetTimeDeltaFromDictString TimeDeltaFromString args key out =
     (case FindString args key of
        None \<Rightarrow> out
      | Some value_string \<Rightarrow> (case TimeDeltaFromString value_string of Some d \<Rightarrow> d | None \<Rightarrow> out))"

definition value_or :: "'a option \<Rightarrow> 'a \<Rightarrow> 'a" where
  "value_or m d = (case m of Some x \<Rightarrow> x | None \<Rightarrow> d)"

definition FromDict ::
    "(string \<Rightarrow> time_delta option) \<Rightarrow> https_svcb_options \<Rightarrow> dict_value \<Rightarrow> https_svcb_options" where
  "FromDict TimeDeltaFromString default_options dict =
     (let o0 = default_options;
          o1 = o0\<lparr>insecure_extra_time_max :=
                 GetTimeDeltaFromDictString TimeDeltaFromString dict ''insecure_extra_time_max'' (insecure_extra_time_max o0)\<rparr>;
          o2 = o1\<lparr>insecure_extra_time_percent :=
                 value_or (FindInt dict ''insecure_extra_time_percent'') (insecure_extra_time_percent o1)\<rparr>;
          o3 = o2\<lparr>insecure_extra_time_min :=
                 GetTimeDeltaFromDictString TimeDeltaFromString dict ''insecure_extra_time_min'' (insecure_extra_time_min o2)\<rparr>;
          o4 = o3\<lparr>secure_extra_time_max :=
                 GetTimeDeltaFromDictString TimeDeltaFromString dict ''secure_extra_time_max'' (secure_extra_time_max o3)\<rparr>;
          o5 = o4\<lparr>secure_extra_time_percent :=
                 value_or (FindInt dict ''secure_extra_time_percent'') (secure_extra_time_percent o4)\<rparr>
      in o5\<lparr>secure_extra_time_min :=
           GetTimeDeltaFromDictString TimeDeltaFromString dict ''secure_extra_time_min'' (secure_extra_time_min o5)\<rparr>)"

text \<open>The feature parameters are the record of their current values.\<close>

definition FromFeatures :: "https_svcb_options \<Rightarrow> https_svcb_options \<Rightarrow> https_svcb_options" where
  "FromFeatures features default_options =
     default_options
       \<lparr>insecure_extra_time_max := insecure_extra_time_max features,
        insecure_extra_time_percent := insecure_extra_time_percent features,
        insecure_extra_time_min := insecure_extra_time_min features,
        secure_extra_time_max := secure_extra_time_max features,
        secure_extra_time_percent := secure_extra_time_percent features,
        secure_extra_time_min := secure_extra_time_min features\<rparr>"

section \<open>Resolvers\<close>

record dns_config_overrides =
  nameservers :: "(8 word list \<times> nat) list option"
  dns_over_tls_active :: "bool option"
  dns_over_tls_hostname :: "string option"
  search_list :: "string list option"
  other_overrides :: nat

record manager_options =
  insecure_dns_client_enabled :: bool
  additional_types_via_insecure_dns_enabled :: bool
  config_overrides :: dns_config_overrides
  other_options :: nat

datatype resolver_manager =
    GivenManager nat
  | HostResolverManager manager_options nat
  | NetworkBoundHostResolverManager manager_options int nat

text \<open>A resolve context is created without a request context; its caching flag remains.\<close>

datatype resolver =
    ContextHostResolver resolver_manager bool
  | StaleHostResolver resolver
  | MappedHostResolver string resolver

definition CreateResolver :: "nat option \<Rightarrow> string \<Rightarrow> bool \<Rightarrow> bool \<Rightarrow> resolver checked" where
  "CreateResolver manager host_mapping_rules enable_caching enable_stale =
     (case manager of
        None \<Rightarrow> Inl (DCheckFailed ''manager'')
      | Some m \<Rightarrow>
          let context_resolver = ContextHostResolver (GivenManager m) enable_caching;
              resolver = (if enable_stale then StaleHostResolver context_resolver else context_resolver)
          in Inr (if host_mapping_rules \<noteq> [] then MappedHostResolver host_mapping_rules resolver else resolver))"

definition CreateStandaloneContextResolver ::
    "manager_options \<Rightarrow> nat \<Rightarrow> manager_options option \<Rightarrow> bool \<Rightarrow> resolver" where
  "CreateStandaloneContextResolver default_options net_log options enable_caching =
     ContextHostResolver (HostResolverManager (value_or options default_options) net_log) enable_caching"

definition CreateStandaloneResolver ::
    "manager_options \<Rightarrow> nat \<Rightarrow> manager_options option \<Rightarrow> string \<Rightarrow> bool \<Rightarrow> bool \<Rightarrow> resolver" where
  "CreateStandaloneResolver default_options net_log options host_mapping_rules enable_caching enable_stale =
     (let context_resolver = CreateStandaloneContextResolver default_options net_log options enable_caching;
          resolver = (if enable_stale then StaleHostResolver context_resolver else context_resolver)
      in if host_mapping_rules \<noteq> [] then MappedHostResolver host_mapping_rules resolver else resolver)"

definition FactoryCreateResolver :: "nat option \<Rightarrow> string \<Rightarrow> bool \<Rightarrow> bool \<Rightarrow> resolver checked" where
  "FactoryCreateResolver manager rules caching stale = CreateResolver manager rules caching stale"

definition FactoryCreateStandaloneResolver ::
    "manager_options \<Rightarrow> nat \<Rightarrow> manager_options \<Rightarrow> string \<Rightarrow> bool \<Rightarrow> bool \<Rightarrow> resolver" where
  "FactoryCreateStandaloneResolver default_options net_log options rules caching stale =
     CreateStandaloneResolver default_options net_log (Some options) rules caching stale"

text \<open>
  The side of Android: its version, the Java methods, \<open>base::SplitString\<close> and the defaults of the options. The
  variables handed to \<open>GetDnsServersForNetwork\<close> start without servers.
\<close>

record android_env =
  sdk_int :: int
  SDK_VERSION_P :: int
  java :: java_side
  SplitString :: "string \<Rightarrow> string list"
  DnsConfigOverrides :: dns_config_overrides
  CreateOverridingEverythingWithDefaults :: dns_config_overrides
  default_manager_options :: manager_options

definition dns_servers_of_network :: "android_env \<Rightarrow> int \<Rightarrow> (bool \<times> dns_out) checked" where
  "dns_servers_of_network A network =
     GetDnsServersForNetwork (java A) (SplitString A) (sdk_int A) (SDK_VERSION_P A) network unset_dns_out"

definition CreateStandaloneNetworkBoundResolver ::
    "bool \<Rightarrow> android_env \<Rightarrow> nat \<Rightarrow> int \<Rightarrow> manager_options option \<Rightarrow> string \<Rightarrow> bool \<Rightarrow> resolver option checked" where
  "CreateStandaloneNetworkBoundResolver is_android A net_log target_network options host_mapping_rules enable_caching =
     (if \<not> is_android then Inr None
      else
        let opts = value_or options (default_manager_options A);
            supported = (insecure_dns_client_enabled opts \<and> sdk_int A \<ge> SDK_VERSION_P A);
            finish = (\<lambda>opts' supported'. Inr (Some (ContextHostResolver
              (NetworkBoundHostResolverManager (opts'\<lparr>insecure_dns_client_enabled := supported'\<rparr>) target_network net_log)
              enable_caching)))
        in if supported then
             dcheck (config_overrides opts = DnsConfigOverrides A) ''dns_config_overrides == DnsConfigOverrides()''
               (bindE (dns_servers_of_network A target_network) (\<lambda>(known, d).
                  if known then
                    finish (opts
                      \<lparr>config_overrides := (CreateOverridingEverythingWithDefaults A)
                         \<lparr>nameservers := Some (dns_servers d), dns_over_tls_active := Some (dns_out.dns_over_tls_active d),
                          dns_over_tls_hostname := Some (dns_out.dns_over_tls_hostname d),
                          search_list := Some (search_suffixes d)\<rparr>,
                       additional_types_via_insecure_dns_enabled := \<not> dns_out.dns_over_tls_active d\<rparr>) True
                  else finish opts False))
           else finish opts False)"

section \<open>Base methods\<close>

definition DebugString :: string where "DebugString = []"

definition CreateDohProbeRequest :: "failing_request checked" where
  "CreateDohProbeRequest = Inl (NotReached ''CreateDohProbeRequest'')"

definition CreateMdnsListener :: "host_port_pair \<Rightarrow> nat \<Rightarrow> nat checked" where
  "CreateMdnsListener host query_type = Inl (NotReached ''CreateMdnsListener'')"

definition GetHostCache :: "nat option" where "GetHostCache = None"

definition GetDnsConfigAsValue :: "(string \<times> string) list" where "GetDnsConfigAsValue = []"

definition SetRequestContext :: "nat \<Rightarrow> unit checked" where
  "SetRequestContext request_context = Inl (NotReached ''SetRequestContext'')"

definition GetManagerForTesting :: "nat checked" where
  "GetManagerForTesting = Inl (NotReached ''GetManagerForTesting'')"

definition GetContextForTesting :: "nat checked" where
  "GetContextForTesting = Inl (NotReached ''GetContextForTesting'')"

definition GetTargetNetworkForTesting :: "int \<Rightarrow> int" where
  "GetTargetNetworkForTesting invalid_handle = invalid_handle"

section \<open>Conversions\<close>

datatype dns_query_type = QueryA | QueryAAAA | QueryOther nat

datatype address_family = ADDRESS_FAMILY_UNSPECIFIED | ADDRESS_FAMILY_IPV4 | ADDRESS_FAMILY_IPV6

definition DnsQueryTypeSetToAddressFamily ::
    "(dns_query_type set \<Rightarrow> bool) \<Rightarrow> dns_query_type set \<Rightarrow> address_family checked" where
  "DnsQueryTypeSetToAddressFamily HasAddressType types =
     dcheck (HasAddressType types) ''HasAddressType(dns_query_types)''
       (if {QueryA, QueryAAAA} \<subseteq> types then Inr ADDRESS_FAMILY_UNSPECIFIED
        else if QueryAAAA \<in> types then Inr ADDRESS_FAMILY_IPV6
        else dcheck (QueryA \<in> types) ''dns_query_types.Has(DnsQueryType::A)'' (Inr ADDRESS_FAMILY_IPV4))"

record resolve_host_parameters =
  include_canonical_name :: bool
  loopback_only :: bool
  avoid_multicast_resolution :: bool

record resolver_flags =
  HOST_RESOLVER_CANONNAME :: "32 word"
  HOST_RESOLVER_LOOPBACK_ONLY :: "32 word"
  HOST_RESOLVER_AVOID_MULTICAST :: "32 word"
  HOST_RESOLVER_DEFAULT_FAMILY_SET_DUE_TO_NO_IPV6 :: "32 word"

definition ParametersToHostResolverFlags :: "resolver_flags \<Rightarrow> resolve_host_parameters \<Rightarrow> 32 word" where
  "ParametersToHostResolverFlags K parameters =
     (let f0 = 0;
          f1 = (if include_canonical_name parameters then f0 OR HOST_RESOLVER_CANONNAME K else f0);
          f2 = (if loopback_only parameters then f1 OR HOST_RESOLVER_LOOPBACK_ONLY K else f1)
      in if avoid_multicast_resolution parameters then f2 OR HOST_RESOLVER_AVOID_MULTICAST K else f2)"

definition SquashErrorCode :: "net_error \<Rightarrow> net_error" where
  "SquashErrorCode error =
     (if error = NET_OK \<or> error = ERR_IO_PENDING \<or> error = ERR_INTERNET_DISCONNECTED \<or>
         error = ERR_NAME_NOT_RESOLVED \<or> error = ERR_DNS_NAME_HTTPS_ONLY
      then error else ERR_NAME_NOT_RESOLVED)"

datatype host_resolver_source = ANY | SYSTEM | DNS | MULTICAST_DNS | LOCAL_ONLY

record ip_address =
  ip_valid :: bool
  ip_v4 :: bool

definition MayUseNAT64ForIPv4Literal ::
    "resolver_flags \<Rightarrow> 32 word \<Rightarrow> host_resolver_source \<Rightarrow> ip_address \<Rightarrow> bool" where
  "MayUseNAT64ForIPv4Literal K flags source ip \<longleftrightarrow>
     flags AND HOST_RESOLVER_DEFAULT_FAMILY_SET_DUE_TO_NO_IPV6 K = 0 \<and> ip_valid ip \<and> ip_v4 ip \<and>
     source \<noteq> LOCAL_ONLY"

definition GetTaskRunner :: "bool \<Rightarrow> (nat \<Rightarrow> nat) \<Rightarrow> nat \<Rightarrow> nat \<Rightarrow> nat" where
  "GetTaskRunner feature_enabled net_GetTaskRunner current_default priority =
     (if feature_enabled then net_GetTaskRunner priority else current_default)"

section \<open>Properties\<close>

text \<open>
  A host literal reads the same whichever of the two forms it was given in: the name of a pair
  and of a scheme-host-port with the pair's URL form agree, and without brackets both are the bare
  name, for an IPv6 literal as for a name.
\<close>

theorem hostname_forms_agree:
  assumes "HostForURL ops p = (if CHR '':'' \<in> set (hpp_host p) then ''['' @ hpp_host p @ '']'' else hpp_host p)"
    and "shp_host s = HostForURL ops p" and "hpp_host p \<noteq> []" and "hd (hpp_host p) \<noteq> CHR ''[''"
  shows "GetHostname ops (SchemeHost s) = GetHostname ops (PairHost p) \<and>
    GetHostnameWithoutBrackets (SchemeHost s) = hpp_host p \<and>
    GetHostnameWithoutBrackets (PairHost p) = hpp_host p"
  using assms by (auto simp: GetHostname_def GetHostnameWithoutBrackets_def Let_def)

definition ex_host_ops :: host_ops where
  "ex_host_ops = \<lparr>IsValid = (\<lambda>_. True), IsEmpty = (\<lambda>p. hpp_host p = []),
     HostForURL = (\<lambda>p. if CHR '':'' \<in> set (hpp_host p) then ''['' @ hpp_host p @ '']'' else hpp_host p),
     Serialize = shp_host, PairToString = hpp_host\<rparr>"

lemma hostname_forms_agree_witness:
  "GetHostnameWithoutBrackets (SchemeHost \<lparr>shp_scheme = ''https'', shp_host = ''[::1]'', shp_port = 443\<rparr>) = ''::1''"
  using hostname_forms_agree [of ex_host_ops "\<lparr>hpp_host = ''::1'', hpp_port = 443\<rparr>"
      "\<lparr>shp_scheme = ''https'', shp_host = ''[::1]'', shp_port = 443\<rparr>"]
  by (simp add: ex_host_ops_def)

text \<open>
  C21. What a network bound resolver is for every input. Without Android there is none. On Android the only check
  that can fail is the one on the caller's overrides, and it fails exactly when the options ask for the insecure DNS
  client, the version supports it and the overrides are not the default ones; the check of
  \<open>GetDnsServersForNetwork\<close> on the version never fails here. In every other case there is a resolver, whose client
  is on exactly when the options ask for it, the version supports it and Java knows servers of the network. Then it
  uses exactly these, on the port of DNS, with Java's TLS state and search list, and asks for additional types only
  without TLS; otherwise the options are the caller's with the client off.
\<close>

theorem network_bound_dns:
  "(case CreateStandaloneNetworkBoundResolver is_android A net_log target options rules caching of
      Inl e \<Rightarrow> e = DCheckFailed ''dns_config_overrides == DnsConfigOverrides()'' \<and> is_android \<and>
        insecure_dns_client_enabled (value_or options (default_manager_options A)) \<and> sdk_int A \<ge> SDK_VERSION_P A \<and>
        config_overrides (value_or options (default_manager_options A)) \<noteq> DnsConfigOverrides A
    | Inr None \<Rightarrow> \<not> is_android
    | Inr (Some r) \<Rightarrow> is_android \<and>
        \<not> (insecure_dns_client_enabled (value_or options (default_manager_options A)) \<and> sdk_int A \<ge> SDK_VERSION_P A \<and>
           config_overrides (value_or options (default_manager_options A)) \<noteq> DnsConfigOverrides A) \<and>
        (\<exists>o'. r = ContextHostResolver (NetworkBoundHostResolverManager o' target net_log) caching \<and>
          other_options o' = other_options (value_or options (default_manager_options A)) \<and>
          (case (if insecure_dns_client_enabled (value_or options (default_manager_options A)) \<and>
                   sdk_int A \<ge> SDK_VERSION_P A
                 then getDnsStatusForNetwork (java A) target else None) of
             None \<Rightarrow> o' = (value_or options (default_manager_options A))\<lparr>insecure_dns_client_enabled := False\<rparr>
           | Some st \<Rightarrow>
               if getDnsServers st = []
               then o' = (value_or options (default_manager_options A))\<lparr>insecure_dns_client_enabled := False\<rparr>
               else insecure_dns_client_enabled o' \<and>
                  nameservers (config_overrides o') = Some (map (\<lambda>a. (a, 53)) (getDnsServers st)) \<and>
                  dns_over_tls_active (config_overrides o') = Some (getPrivateDnsActive st) \<and>
                  dns_over_tls_hostname (config_overrides o') = Some (getPrivateDnsServerName st) \<and>
                  search_list (config_overrides o') = Some (SplitString A (getSearchDomains st)) \<and>
                  other_overrides (config_overrides o') = other_overrides (CreateOverridingEverythingWithDefaults A) \<and>
                  additional_types_via_insecure_dns_enabled o' = (\<not> getPrivateDnsActive st))))"
proof -
  let ?opts = "value_or options (default_manager_options A)"
  consider (elsewhere) "\<not> is_android"
    | (off) "is_android" "\<not> (insecure_dns_client_enabled ?opts \<and> sdk_int A \<ge> SDK_VERSION_P A)"
    | (overridden) "is_android" "insecure_dns_client_enabled ?opts" "sdk_int A \<ge> SDK_VERSION_P A"
        "config_overrides ?opts \<noteq> DnsConfigOverrides A"
    | (unknown) "is_android" "insecure_dns_client_enabled ?opts" "sdk_int A \<ge> SDK_VERSION_P A"
        "config_overrides ?opts = DnsConfigOverrides A" "getDnsStatusForNetwork (java A) target = None"
    | (known) st where "is_android" "insecure_dns_client_enabled ?opts" "sdk_int A \<ge> SDK_VERSION_P A"
        "config_overrides ?opts = DnsConfigOverrides A" "getDnsStatusForNetwork (java A) target = Some st" by fastforce
  then show ?thesis
  proof cases
    case elsewhere
    then show ?thesis by (simp add: CreateStandaloneNetworkBoundResolver_def)
  next
    case off
    then show ?thesis by (auto simp: CreateStandaloneNetworkBoundResolver_def Let_def)
  next
    case overridden
    then show ?thesis by (simp add: CreateStandaloneNetworkBoundResolver_def dcheck_def Let_def)
  next
    case unknown
    then show ?thesis
      by (simp add: CreateStandaloneNetworkBoundResolver_def dns_servers_of_network_def GetDnsServersForNetwork_def Let_def)
  next
    case known
    then show ?thesis
      by (cases "getDnsServers st = []")
        (simp_all add: CreateStandaloneNetworkBoundResolver_def dns_servers_of_network_def GetDnsServersForNetwork_def
          GetDnsServersInternal_def unset_dns_out_def kDefaultPort_def Let_def)
  qed
qed

definition ex_overrides :: dns_config_overrides where
  "ex_overrides = \<lparr>nameservers = None, dns_over_tls_active = None, dns_over_tls_hostname = None, search_list = None,
     other_overrides = 0\<rparr>"

definition ex_android :: android_env where
  "ex_android = \<lparr>sdk_int = 30, SDK_VERSION_P = 28,
     java = \<lparr>getUserAddedRoots = [], verifyServerCertificates = (\<lambda>_ _ _ _ _. \<lparr>getStatus = 0, isIssuedByKnownRoot = False,
         getCertificateChainEncoded = []\<rparr>), getMimeTypeFromExtension = (\<lambda>_. None), getWifiSignalLevel = (\<lambda>_. -1),
       isCleartextPermitted = (\<lambda>_. True), haveOnlyLoopbackAddresses = False, getNetworkOperator = [], getIsRoaming = False,
       getIsCaptivePortal = False, getWifiSSID = [], reportBadDefaultNetwork = True,
       getCurrentDnsStatus = None,
       getDnsStatusForNetwork = (\<lambda>n. if n = 4 then Some \<lparr>getDnsServers = [[8, 8, 8, 8], [9, 9, 9, 9]],
         getPrivateDnsActive = True, getPrivateDnsServerName = ''dns'', getSearchDomains = []\<rparr> else None),
       getTotalTxBytes = 0, getTotalRxBytes = 0, getCurrentUidTxBytes = 0, getCurrentUidRxBytes = 0\<rparr>,
     SplitString = (\<lambda>_. []), DnsConfigOverrides = ex_overrides,
     CreateOverridingEverythingWithDefaults = ex_overrides\<lparr>other_overrides := 1\<rparr>,
     default_manager_options = \<lparr>insecure_dns_client_enabled = True, additional_types_via_insecure_dns_enabled = True,
       config_overrides = ex_overrides, other_options = 6\<rparr>\<rparr>"

theorem network_bound_dns_witness:
  "\<exists>o'. CreateStandaloneNetworkBoundResolver True ex_android 1 4 None [] True =
      Inr (Some (ContextHostResolver (NetworkBoundHostResolverManager o' 4 1) True)) \<and>
    insecure_dns_client_enabled o' \<and> nameservers (config_overrides o') = Some [([8, 8, 8, 8], 53), ([9, 9, 9, 9], 53)]"
  using network_bound_dns [where is_android = True and A = ex_android and net_log = 1 and target = 4 and
      options = None and rules = "[]" and caching = True]
  by (auto simp: ex_android_def value_or_def split: sum.splits option.splits)

text \<open>
  The address list of a resolution is that of the first endpoint that is not an alternative, with
  all the aliases, and empty when every endpoint is an alternative.
\<close>

theorem address_list_of_authority:
  shows "(\<forall>e \<in> set endpoints. is_alternative e) \<and> EndpointResultToAddressList endpoints aliases = empty_address_list \<or>
    (\<exists>pre e post. endpoints = pre @ e # post \<and> (\<forall>a \<in> set pre. is_alternative a) \<and> \<not> is_alternative e \<and>
      EndpointResultToAddressList endpoints aliases = \<lparr>al_endpoints = ip_endpoints e, dns_aliases = aliases\<rparr>)"
proof (cases "dropWhile is_alternative endpoints")
  case Nil
  then have "EndpointResultToAddressList endpoints aliases = empty_address_list"
    unfolding EndpointResultToAddressList_def by (simp only: list.case)
  moreover from Nil have "\<forall>e \<in> set endpoints. is_alternative e" by (simp only: dropWhile_eq_Nil_conv)
  ultimately show ?thesis by blast
next
  case (Cons e post)
  have "\<not> is_alternative e" using hd_dropWhile [of is_alternative endpoints] Cons by simp
  moreover have "endpoints = takeWhile is_alternative endpoints @ e # post"
    using Cons by (metis takeWhile_dropWhile_id)
  moreover have "\<forall>a \<in> set (takeWhile is_alternative endpoints). is_alternative a"
    using set_takeWhileD by fast
  moreover have "EndpointResultToAddressList endpoints aliases = \<lparr>al_endpoints = ip_endpoints e, dns_aliases = aliases\<rparr>"
    unfolding EndpointResultToAddressList_def Cons by (simp only: list.case)
  ultimately show ?thesis by blast
qed

lemma address_list_of_authority_witness:
  "EndpointResultToAddressList [\<lparr>ip_endpoints = [1], is_alternative = True\<rparr>, \<lparr>ip_endpoints = [2, 3], is_alternative = False\<rparr>]
     [''a''] = \<lparr>al_endpoints = [2, 3], dns_aliases = [''a'']\<rparr>"
  using address_list_of_authority [of "[\<lparr>ip_endpoints = [1], is_alternative = True\<rparr>,
      \<lparr>ip_endpoints = [2, 3], is_alternative = False\<rparr>]" "[''a'']"]
  by (auto simp: Cons_eq_append_conv)

end
