(* ===== verification/Vulkan_Util.thy ===== *)
theory Vulkan_Util
  imports Net_Error
begin

unbundle bit_operations_syntax

text \<open>
  \<open>src/app/gpu/vulkan_util.cpp\<close>: the Vulkan block list, the image layouts shared with GL, and the
  wrappers around driver calls. The driver is the record \<open>vk_driver\<close>, the functions of \<open>base\<close>,
  \<open>RE2\<close> and the Vulkan headers the decisions rest on the record \<open>base_ops\<close>.
\<close>

section \<open>Surroundings\<close>

record base_ops =
  SplitString :: "string \<Rightarrow> string \<Rightarrow> string list"
  MatchPattern :: "string \<Rightarrow> string \<Rightarrow> bool"
  FullMatch :: "string \<Rightarrow> string \<Rightarrow> bool"
  VK_MAKE_VERSION :: "nat \<Rightarrow> nat \<Rightarrow> nat \<Rightarrow> 32 word"
  VK_VERSION_MAJOR :: "32 word \<Rightarrow> 32 word"
  VK_VERSION_MINOR :: "32 word \<Rightarrow> 32 word"
  VK_VERSION_PATCH :: "32 word \<Rightarrow> 32 word"

record android_info =
  manufacturer :: string
  version_incremental :: string
  hardware :: string
  brand :: string
  device :: string
  board :: string
  vulkan_deqp_level :: "32 word"

section \<open>The block list\<close>

definition IsDeviceBlocked :: "base_ops \<Rightarrow> string \<Rightarrow> string \<Rightarrow> bool" where
  "IsDeviceBlocked B field block_list =
     list_ex (\<lambda>disable_pattern. MatchPattern B field disable_pattern) (SplitString B block_list ''|'')"

text \<open>
  \<open>sscanf(s, "%d.", &version)\<close>: white space, an optional sign and at least one digit; what follows
  the number does not change the count of conversions.
\<close>

definition is_space :: "char \<Rightarrow> bool" where
  "is_space c \<longleftrightarrow> c = CHR '' '' \<or> of_char c \<in> {9 .. 13 :: nat}"

definition is_digit :: "char \<Rightarrow> bool" where
  "is_digit c \<longleftrightarrow> 48 \<le> (of_char c :: nat) \<and> (of_char c :: nat) \<le> 57"

definition digit_value :: "char \<Rightarrow> int" where
  "digit_value c = int (of_char c) - 48"

definition scan_int :: "string \<Rightarrow> int option" where
  "scan_int s =
     (let t = dropWhile is_space s;
          (neg, u) = (case t of c # cs \<Rightarrow> if c = CHR ''-'' then (True, cs) else if c = CHR ''+'' then (False, cs)
                                          else (False, t)
                      | [] \<Rightarrow> (False, []));
          ds = takeWhile is_digit u;
          v = fold (\<lambda>c acc. acc * 10 + digit_value c) ds 0
      in if ds = [] then None else Some (if neg then - v else v))"

definition GetEMUIVersion :: "android_info \<Rightarrow> int" where
  "GetEMUIVersion A =
     (if manufacturer A \<noteq> ''HUAWEI'' then -1
      else case scan_int (version_incremental A) of None \<Rightarrow> -1 | Some version \<Rightarrow> version)"

definition IsBlockedByBuildInfo :: "base_ops \<Rightarrow> android_info \<Rightarrow> bool" where
  "IsBlockedByBuildInfo B A =
     (if IsDeviceBlocked B (hardware A) ''mt*'' then True
      else if IsDeviceBlocked B (brand A) ''HONOR'' then True
      else if IsDeviceBlocked B (device A) ''OP4863|OP4883'' then True
      else if IsDeviceBlocked B (board A) ''RM67*|RM68*|k68*|mt6*|oppo67*|oppo68*|QM215|rk30sdk'' then True
      else False)"

definition HasMinDeqpLevelForMediaTek :: "android_info \<Rightarrow> bool" where
  "HasMinDeqpLevelForMediaTek A = (if sint (vulkan_deqp_level A) < 0x7e80301 then False else True)"

section \<open>Compatibility\<close>

record device_properties =
  driver_version :: "32 word"
  vendor_id :: "32 word"
  device_id :: "32 word"
  device_name :: string

definition VulkanPhysicalDeviceProperties :: "32 word \<Rightarrow> 32 word \<Rightarrow> 32 word \<Rightarrow> string \<Rightarrow> device_properties" where
  "VulkanPhysicalDeviceProperties driverVersion vendorID deviceID deviceName =
     \<lparr>driver_version = driverVersion, vendor_id = vendorID, device_id = deviceID, device_name = deviceName\<rparr>"

datatype platform = Android | Windows | Fuchsia | LinuxWithX11 | LinuxWithoutX11 | OtherPlatform

record gpu_config =
  kVulkanFromANGLE :: bool
  kSkipVulkanBlocklist :: bool
  kVendorARM :: "32 word"
  kVendorQualcomm :: "32 word"
  kVendorImagination :: "32 word"
  kVendorGoogle :: "32 word"
  kDeviceSwiftShader :: "32 word"
  kVendorIntel :: "32 word"

record gpu_info =
  gl_extensions :: "string set"
  gl_renderer :: string
  gpu_driver_version :: string

definition slow_gpus :: "string list" where
  "slow_gpus = [''2??'', ''3??'', ''4??'', ''T???'', ''G31'', ''G51'', ''G52'']"

definition CheckARM :: "base_ops \<Rightarrow> android_info \<Rightarrow> device_properties \<Rightarrow> gpu_info \<Rightarrow> bool" where
  "CheckARM B A props gpu =
     (let emui_version = GetEMUIVersion A in
      if driver_version props < VK_MAKE_VERSION B 19 0 0 \<and> emui_version < 11 then False
      else if take 5 (device_name props) \<noteq> ''Mali-'' then False
      else
        let name = takeWhile (\<lambda>c. c \<noteq> CHR '' '') (drop 5 (device_name props)) in
        if list_ex (\<lambda>slow_gpu. MatchPattern B name slow_gpu) slow_gpus then False
        else if name = ''G57'' \<and> driver_version props < VK_MAKE_VERSION B 41 0 0 then False
        else if \<not> IsDeviceBlocked B (gl_renderer gpu) ''*Mali-G?? M*'' then True
        else if name = ''G57'' then False
        else HasMinDeqpLevelForMediaTek A)"

definition CheckVulkanCompatibilities ::
    "base_ops \<Rightarrow> platform \<Rightarrow> gpu_config \<Rightarrow> android_info \<Rightarrow> device_properties \<Rightarrow> gpu_info \<Rightarrow> bool" where
  "CheckVulkanCompatibilities B plat K A props gpu =
     (if plat \<noteq> Android then
        let memory = (case plat of Windows \<Rightarrow> ''GL_EXT_memory_object_win32'' | Fuchsia \<Rightarrow> ''GL_ANGLE_memory_object_fuchsia''
                      | _ \<Rightarrow> ''GL_EXT_memory_object_fd'');
            semaphore = (case plat of Windows \<Rightarrow> ''GL_EXT_semaphore_win32'' | Fuchsia \<Rightarrow> ''GL_ANGLE_semaphore_fuchsia''
                         | _ \<Rightarrow> ''GL_EXT_semaphore_fd'')
        in if \<not> kVulkanFromANGLE K \<and> (memory \<notin> gl_extensions gpu \<or> semaphore \<notin> gl_extensions gpu) then False
           else if plat = LinuxWithoutX11 then False else True
      else if kSkipVulkanBlocklist K then True
      else if IsBlockedByBuildInfo B A \<and> \<not> HasMinDeqpLevelForMediaTek A then False
      else if vendor_id props = kVendorARM K then CheckARM B A props gpu
      else if vendor_id props = kVendorQualcomm K then
        device_name props = ''Adreno (TM) 630'' \<and>
        \<not> IsDeviceBlocked B (gpu_driver_version gpu) ''324.0|331.0|334.0|378.0|415.0|420.0|444.0''
      else if vendor_id props = kVendorImagination K then
        FullMatch B (device_name props) ''PowerVR ([CDE]-Series)? [CDE]X.*''
      else if vendor_id props = kVendorGoogle K \<and> device_id props = kDeviceSwiftShader K then False
      else if vendor_id props = kVendorIntel K then False
      else True)"

section \<open>Image layouts\<close>

datatype vk_image_layout =
    VK_IMAGE_LAYOUT_UNDEFINED
  | VK_IMAGE_LAYOUT_GENERAL
  | VK_IMAGE_LAYOUT_COLOR_ATTACHMENT_OPTIMAL
  | VK_IMAGE_LAYOUT_DEPTH_STENCIL_ATTACHMENT_OPTIMAL
  | VK_IMAGE_LAYOUT_DEPTH_STENCIL_READ_ONLY_OPTIMAL
  | VK_IMAGE_LAYOUT_SHADER_READ_ONLY_OPTIMAL
  | VK_IMAGE_LAYOUT_TRANSFER_SRC_OPTIMAL
  | VK_IMAGE_LAYOUT_TRANSFER_DST_OPTIMAL
  | VK_IMAGE_LAYOUT_DEPTH_READ_ONLY_STENCIL_ATTACHMENT_OPTIMAL_KHR
  | VK_IMAGE_LAYOUT_DEPTH_ATTACHMENT_STENCIL_READ_ONLY_OPTIMAL_KHR
  | VK_IMAGE_LAYOUT_OTHER nat

definition GLImageLayoutToVkImageLayout :: "32 word \<Rightarrow> vk_image_layout checked" where
  "GLImageLayoutToVkImageLayout layout =
     (if layout = 0x00 then Inr VK_IMAGE_LAYOUT_UNDEFINED
      else if layout = 0x958D then Inr VK_IMAGE_LAYOUT_GENERAL
      else if layout = 0x958E then Inr VK_IMAGE_LAYOUT_COLOR_ATTACHMENT_OPTIMAL
      else if layout = 0x958F then Inr VK_IMAGE_LAYOUT_DEPTH_STENCIL_ATTACHMENT_OPTIMAL
      else if layout = 0x9590 then Inr VK_IMAGE_LAYOUT_DEPTH_STENCIL_READ_ONLY_OPTIMAL
      else if layout = 0x9591 then Inr VK_IMAGE_LAYOUT_SHADER_READ_ONLY_OPTIMAL
      else if layout = 0x9592 then Inr VK_IMAGE_LAYOUT_TRANSFER_SRC_OPTIMAL
      else if layout = 0x9593 then Inr VK_IMAGE_LAYOUT_TRANSFER_DST_OPTIMAL
      else if layout = 0x9530 then Inr VK_IMAGE_LAYOUT_DEPTH_READ_ONLY_STENCIL_ATTACHMENT_OPTIMAL_KHR
      else if layout = 0x9531 then Inr VK_IMAGE_LAYOUT_DEPTH_ATTACHMENT_STENCIL_READ_ONLY_OPTIMAL_KHR
      else Inl (NotReached ''Invalid image layout''))"

definition VkImageLayoutToGLImageLayout :: "vk_image_layout \<Rightarrow> 32 word checked" where
  "VkImageLayoutToGLImageLayout layout =
     (case layout of
        VK_IMAGE_LAYOUT_UNDEFINED \<Rightarrow> Inr 0x00
      | VK_IMAGE_LAYOUT_GENERAL \<Rightarrow> Inr 0x958D
      | VK_IMAGE_LAYOUT_COLOR_ATTACHMENT_OPTIMAL \<Rightarrow> Inr 0x958E
      | VK_IMAGE_LAYOUT_DEPTH_STENCIL_ATTACHMENT_OPTIMAL \<Rightarrow> Inr 0x958F
      | VK_IMAGE_LAYOUT_DEPTH_STENCIL_READ_ONLY_OPTIMAL \<Rightarrow> Inr 0x9590
      | VK_IMAGE_LAYOUT_SHADER_READ_ONLY_OPTIMAL \<Rightarrow> Inr 0x9591
      | VK_IMAGE_LAYOUT_TRANSFER_SRC_OPTIMAL \<Rightarrow> Inr 0x9592
      | VK_IMAGE_LAYOUT_TRANSFER_DST_OPTIMAL \<Rightarrow> Inr 0x9593
      | VK_IMAGE_LAYOUT_DEPTH_READ_ONLY_STENCIL_ATTACHMENT_OPTIMAL_KHR \<Rightarrow> Inr 0x9530
      | VK_IMAGE_LAYOUT_DEPTH_ATTACHMENT_STENCIL_READ_ONLY_OPTIMAL_KHR \<Rightarrow> Inr 0x9531
      | VK_IMAGE_LAYOUT_OTHER _ \<Rightarrow> Inl (NotReached ''Invalid image layout''))"

section \<open>Driver calls\<close>

datatype vk_result = VK_SUCCESS | VK_ERROR nat

text \<open>A submission: the semaphores it signals, those it waits for and the stages they block.\<close>

record submit_info =
  signal_semaphores :: "nat list"
  wait_semaphores :: "nat list"
  wait_stages :: "32 word list"

record image_format_info =
  info_format :: nat
  info_type :: nat
  info_tiling :: nat
  info_usage :: "32 word"
  info_flags :: "32 word"
  info_handle_type :: nat
  info_modifier :: bool

text \<open>
  \<open>vkGetPhysicalDeviceFormatProperties2\<close> writes the modifier count and, when given room for that
  many, the modifiers: \<open>drm_modifiers device format (Some n)\<close> is the count and list it writes then.
\<close>

record vk_driver =
  vkQueueSubmit :: "nat \<Rightarrow> submit_info list \<Rightarrow> nat \<Rightarrow> vk_result"
  vkQueueWaitIdle :: "nat \<Rightarrow> vk_result"
  vkQueuePresentKHR :: "nat \<Rightarrow> nat \<Rightarrow> vk_result"
  vkCreateGraphicsPipelines :: "nat \<Rightarrow> nat \<Rightarrow> nat list \<Rightarrow> vk_result"
  vkCreateSemaphore :: "nat \<Rightarrow> 32 word \<Rightarrow> vk_result \<times> nat"
  semaphore_features :: "nat \<Rightarrow> 32 word \<Rightarrow> 32 word"
  image_format_properties :: "nat \<Rightarrow> image_format_info \<Rightarrow> vk_result \<times> nat"
  drm_modifiers :: "nat \<Rightarrow> nat \<Rightarrow> nat option \<Rightarrow> nat \<times> nat list"
  VK_PIPELINE_STAGE_ALL_COMMANDS_BIT :: "32 word"
  VK_EXTERNAL_SEMAPHORE_FEATURE_EXPORTABLE_BIT :: "32 word"
  VK_EXTERNAL_SEMAPHORE_FEATURE_IMPORTABLE_BIT :: "32 word"
  VK_IMAGE_TILING_DRM_FORMAT_MODIFIER_EXT :: nat

definition SubmitSignalVkSemaphores :: "vk_driver \<Rightarrow> nat \<Rightarrow> nat list \<Rightarrow> nat \<Rightarrow> bool" where
  "SubmitSignalVkSemaphores V vk_queue vk_semaphores vk_fence \<longleftrightarrow>
     vkQueueSubmit V vk_queue
       [\<lparr>signal_semaphores = vk_semaphores, wait_semaphores = [], wait_stages = []\<rparr>] vk_fence = VK_SUCCESS"

definition SubmitSignalVkSemaphore :: "vk_driver \<Rightarrow> nat \<Rightarrow> nat \<Rightarrow> nat \<Rightarrow> bool" where
  "SubmitSignalVkSemaphore V vk_queue vk_semaphore vk_fence =
     SubmitSignalVkSemaphores V vk_queue [vk_semaphore] vk_fence"

definition SubmitWaitVkSemaphores :: "vk_driver \<Rightarrow> nat \<Rightarrow> nat list \<Rightarrow> nat \<Rightarrow> bool checked" where
  "SubmitWaitVkSemaphores V vk_queue vk_semaphores vk_fence =
     dcheck (vk_semaphores \<noteq> []) ''!vk_semaphores.empty()''
       (let semaphore_stages = replicate (length vk_semaphores) (VK_PIPELINE_STAGE_ALL_COMMANDS_BIT V)
        in Inr (vkQueueSubmit V vk_queue
             [\<lparr>signal_semaphores = [], wait_semaphores = vk_semaphores, wait_stages = semaphore_stages\<rparr>]
             vk_fence = VK_SUCCESS))"

definition SubmitWaitVkSemaphore :: "vk_driver \<Rightarrow> nat \<Rightarrow> nat \<Rightarrow> nat \<Rightarrow> bool checked" where
  "SubmitWaitVkSemaphore V vk_queue vk_semaphore vk_fence =
     SubmitWaitVkSemaphores V vk_queue [vk_semaphore] vk_fence"

text \<open>\<open>None\<close> is \<open>VK_NULL_HANDLE\<close>.\<close>

definition CreateExternalVkSemaphore :: "vk_driver \<Rightarrow> nat \<Rightarrow> 32 word \<Rightarrow> nat option" where
  "CreateExternalVkSemaphore V vk_device handle_types =
     (case vkCreateSemaphore V vk_device handle_types of
        (result, semaphore) \<Rightarrow> if result \<noteq> VK_SUCCESS then None else Some semaphore)"

text \<open>\<open>%u\<close> of \<open>StringPrintf\<close>.\<close>

fun decimal :: "nat \<Rightarrow> string" where
  "decimal n = (if n < 10 then [char_of (48 + n)] else decimal (n div 10) @ [char_of (48 + n mod 10)])"

declare decimal.simps [simp del]

definition VkVersionToString :: "base_ops \<Rightarrow> 32 word \<Rightarrow> string" where
  "VkVersionToString B version =
     decimal (unat (VK_VERSION_MAJOR B version)) @ ''.'' @ decimal (unat (VK_VERSION_MINOR B version)) @ ''.'' @
     decimal (unat (VK_VERSION_PATCH B version))"

text \<open>The hooks: what the driver returns and the histogram sample, if any, taken when they leave.\<close>

datatype uma_sample =
    CreateGraphicsPipelinesUS time_delta
  | QueueSubmitUS time_delta

definition EmitVkCreateGraphicsPipelinesUMA :: "time_delta \<Rightarrow> uma_sample list" where
  "EmitVkCreateGraphicsPipelinesUMA sample = [CreateGraphicsPipelinesUS sample]"

definition EmitVkQueueSubmitUMA :: "bool \<Rightarrow> time_delta \<Rightarrow> uma_sample list" where
  "EmitVkQueueSubmitUMA ShouldRecordSubsampledMetric sample =
     (if ShouldRecordSubsampledMetric then [QueueSubmitUS sample] else [])"

definition CreateGraphicsPipelinesHook ::
    "vk_driver \<Rightarrow> time_delta \<Rightarrow> time_delta \<Rightarrow> nat \<Rightarrow> nat \<Rightarrow> nat list \<Rightarrow> vk_result \<times> uma_sample list" where
  "CreateGraphicsPipelinesHook V start_time now vk_device pipelineCache createInfos =
     (vkCreateGraphicsPipelines V vk_device pipelineCache createInfos,
      EmitVkCreateGraphicsPipelinesUMA (Microseconds (microseconds now - microseconds start_time)))"

definition VulkanQueueSubmitHook ::
    "vk_driver \<Rightarrow> bool \<Rightarrow> time_delta \<Rightarrow> time_delta \<Rightarrow> nat \<Rightarrow> submit_info list \<Rightarrow> nat \<Rightarrow> vk_result \<times> uma_sample list" where
  "VulkanQueueSubmitHook V record_sample start_time now queue submits fence =
     (vkQueueSubmit V queue submits fence,
      EmitVkQueueSubmitUMA record_sample (Microseconds (microseconds now - microseconds start_time)))"

definition VulkanQueueWaitIdleHook :: "vk_driver \<Rightarrow> nat \<Rightarrow> vk_result" where
  "VulkanQueueWaitIdleHook V queue = vkQueueWaitIdle V queue"

definition VulkanQueuePresentKHRHook :: "vk_driver \<Rightarrow> nat \<Rightarrow> nat \<Rightarrow> vk_result" where
  "VulkanQueuePresentKHRHook V queue present_info = vkQueuePresentKHR V queue present_info"

definition IsVkExternalSemaphoreHandleTypeSupported ::
    "vk_driver \<Rightarrow> string set \<Rightarrow> string \<Rightarrow> nat \<Rightarrow> 32 word \<Rightarrow> bool" where
  "IsVkExternalSemaphoreHandleTypeSupported V enabled_extensions extension_name physical_device handle_type =
     (if extension_name \<notin> enabled_extensions then False
      else let features = semaphore_features V physical_device handle_type
           in features AND VK_EXTERNAL_SEMAPHORE_FEATURE_EXPORTABLE_BIT V \<noteq> 0 \<and>
              features AND VK_EXTERNAL_SEMAPHORE_FEATURE_IMPORTABLE_BIT V \<noteq> 0)"

text \<open>The result and the properties the caller's variable holds afterwards.\<close>

definition QueryVkExternalMemoryProperties ::
    "vk_driver \<Rightarrow> nat \<Rightarrow> nat \<Rightarrow> nat \<Rightarrow> nat \<Rightarrow> 32 word \<Rightarrow> 32 word \<Rightarrow> nat \<Rightarrow> nat \<Rightarrow> vk_result \<times> nat" where
  "QueryVkExternalMemoryProperties V physical_device format type tiling usage flags handle_type external_memory_properties =
     (let info = \<lparr>info_format = format, info_type = type, info_tiling = tiling, info_usage = usage, info_flags = flags,
                  info_handle_type = handle_type,
                  info_modifier = (tiling = VK_IMAGE_TILING_DRM_FORMAT_MODIFIER_EXT V)\<rparr>
      in case image_format_properties V physical_device info of
           (result, properties) \<Rightarrow>
             if result \<noteq> VK_SUCCESS then (result, external_memory_properties) else (VK_SUCCESS, properties))"

definition QueryVkDrmFormatModifierPropertiesEXT :: "vk_driver \<Rightarrow> nat \<Rightarrow> nat \<Rightarrow> nat list checked" where
  "QueryVkDrmFormatModifierPropertiesEXT V physical_device format =
     (let count = fst (drm_modifiers V physical_device format None) in
      if count \<noteq> 0 then
        (case drm_modifiers V physical_device format (Some count) of
           (count', modifier_props) \<Rightarrow>
             dcheck (count' = count) ''drmFormatModifierCount == modifier_props.size()'' (Inr modifier_props))
      else Inr [])"

section \<open>Properties\<close>

text \<open>
  The two layout conversions are inverse: a GL layout converts to a Vulkan layout exactly when
  that one converts back to it, so both reject exactly what has no counterpart.
\<close>

theorem layouts_are_inverse:
  "GLImageLayoutToVkImageLayout gl = Inr vk \<longleftrightarrow> VkImageLayoutToGLImageLayout vk = Inr gl"
  by (cases vk) (auto simp: GLImageLayoutToVkImageLayout_def VkImageLayoutToGLImageLayout_def split: if_splits)

text \<open>
  On Android, unless the block list is skipped, Vulkan is used on no Intel device, on no
  SwiftShader, on a Qualcomm device only if it is the Adreno 630, and on an ARM device only if it
  is named Mali, its model is none of the slow ones, and its driver is at least version 19 or the
  system an EMUI of at least 11.
\<close>

theorem blocked_devices_stay_blocked:
  assumes "CheckVulkanCompatibilities B Android K A props gpu" and "\<not> kSkipVulkanBlocklist K"
    and "distinct [kVendorARM K, kVendorQualcomm K, kVendorImagination K, kVendorGoogle K, kVendorIntel K]"
  shows "vendor_id props \<noteq> kVendorIntel K \<and>
    \<not> (vendor_id props = kVendorGoogle K \<and> device_id props = kDeviceSwiftShader K) \<and>
    (vendor_id props = kVendorQualcomm K \<longrightarrow> device_name props = ''Adreno (TM) 630'') \<and>
    (vendor_id props = kVendorARM K \<longrightarrow>
       take 5 (device_name props) = ''Mali-'' \<and>
       (\<forall>p \<in> set slow_gpus. \<not> MatchPattern B (takeWhile (\<lambda>c. c \<noteq> CHR '' '') (drop 5 (device_name props))) p) \<and>
       (VK_MAKE_VERSION B 19 0 0 \<le> driver_version props \<or> 11 \<le> GetEMUIVersion A)) \<and>
    (IsBlockedByBuildInfo B A \<longrightarrow> HasMinDeqpLevelForMediaTek A)"
  using assms
  by (simp add: CheckVulkanCompatibilities_def CheckARM_def Let_def list_ex_iff split: if_splits) (auto simp: not_less)

definition ex_base :: base_ops where
  "ex_base = \<lparr>SplitString = (\<lambda>s _. [s]), MatchPattern = (\<lambda>s p. s = p), FullMatch = (\<lambda>s p. s = p),
     VK_MAKE_VERSION = (\<lambda>a b c. of_nat (a * 1000000 + b * 1000 + c)), VK_VERSION_MAJOR = (\<lambda>v. v div 1000000),
     VK_VERSION_MINOR = (\<lambda>v. v div 1000 mod 1000), VK_VERSION_PATCH = (\<lambda>v. v mod 1000)\<rparr>"

definition ex_android_info :: android_info where
  "ex_android_info = \<lparr>manufacturer = ''HUAWEI'', version_incremental = ''12.0.1'', hardware = ''kirin'', brand = ''x'',
     device = ''y'', board = ''z'', vulkan_deqp_level = 0\<rparr>"

definition ex_gpu_config :: gpu_config where
  "ex_gpu_config = \<lparr>kVulkanFromANGLE = False, kSkipVulkanBlocklist = False, kVendorARM = 1, kVendorQualcomm = 2,
     kVendorImagination = 3, kVendorGoogle = 4, kDeviceSwiftShader = 9, kVendorIntel = 5\<rparr>"

definition ex_gpu :: gpu_info where
  "ex_gpu = \<lparr>gl_extensions = {}, gl_renderer = ''Mali'', gpu_driver_version = ''1''\<rparr>"

lemma ex_emui: "GetEMUIVersion ex_android_info = 12"
  by code_simp

lemma blocked_devices_stay_blocked_witness:
  "VK_MAKE_VERSION ex_base 19 0 0 \<le> 18000000 \<or> 11 \<le> GetEMUIVersion ex_android_info"
proof -
  let ?p = "\<lparr>driver_version = 18000000, vendor_id = 1, device_id = 3, device_name = ''Mali-G78 MC4''\<rparr>"
  have "CheckVulkanCompatibilities ex_base Android ex_gpu_config ex_android_info ?p ex_gpu"
    using ex_emui
    by (simp add: CheckVulkanCompatibilities_def CheckARM_def ex_base_def ex_gpu_config_def ex_gpu_def Let_def
      slow_gpus_def IsDeviceBlocked_def IsBlockedByBuildInfo_def ex_android_info_def)
  then show ?thesis
    using blocked_devices_stay_blocked [of ex_base ex_gpu_config ex_android_info ?p ex_gpu]
    by (simp add: ex_gpu_config_def)
qed

text \<open>
  The modifiers of a format are what the driver lists when asked with exactly the room it said it
  needs; a count that changes between the two calls is caught, and a zero count asks only once.
\<close>

theorem drm_modifiers_complete:
  assumes "QueryVkDrmFormatModifierPropertiesEXT V d f = Inr mods"
    and "\<And>n. length (snd (drm_modifiers V d f (Some n))) = n"
  shows "length mods = fst (drm_modifiers V d f None) \<and>
    (mods = [] \<or> mods = snd (drm_modifiers V d f (Some (length mods))) \<and>
       fst (drm_modifiers V d f (Some (length mods))) = length mods)"
proof (cases "fst (drm_modifiers V d f None) = 0")
  case True
  with assms(1) show ?thesis by (simp add: QueryVkDrmFormatModifierPropertiesEXT_def)
next
  case False
  obtain c ms where c: "drm_modifiers V d f (Some (fst (drm_modifiers V d f None))) = (c, ms)" by fastforce
  with False assms(1) have "mods = ms" "c = fst (drm_modifiers V d f None)"
    by (simp_all add: QueryVkDrmFormatModifierPropertiesEXT_def dcheck_Inr_iff)
  with c assms(2) [of "fst (drm_modifiers V d f None)"] show ?thesis by auto
qed

definition ex_driver :: vk_driver where
  "ex_driver = \<lparr>vkQueueSubmit = (\<lambda>_ _ _. VK_SUCCESS), vkQueueWaitIdle = (\<lambda>_. VK_SUCCESS),
     vkQueuePresentKHR = (\<lambda>_ _. VK_SUCCESS), vkCreateGraphicsPipelines = (\<lambda>_ _ _. VK_SUCCESS),
     vkCreateSemaphore = (\<lambda>_ _. (VK_SUCCESS, 1)), semaphore_features = (\<lambda>_ _. 0),
     image_format_properties = (\<lambda>_ _. (VK_SUCCESS, 2)),
     drm_modifiers = (\<lambda>_ _ room. case room of None \<Rightarrow> (2, []) | Some n \<Rightarrow> (2, map (\<lambda>i. i * i) [0..<n])),
     VK_PIPELINE_STAGE_ALL_COMMANDS_BIT = 65536, VK_EXTERNAL_SEMAPHORE_FEATURE_EXPORTABLE_BIT = 1,
     VK_EXTERNAL_SEMAPHORE_FEATURE_IMPORTABLE_BIT = 2, VK_IMAGE_TILING_DRM_FORMAT_MODIFIER_EXT = 9\<rparr>"

lemma drm_modifiers_complete_witness: "length [0, 1 :: nat] = fst (drm_modifiers ex_driver 1 1 None)"
proof -
  have "QueryVkDrmFormatModifierPropertiesEXT ex_driver 1 1 = Inr [0, 1]" by code_simp
  moreover have "\<And>n. length (snd (drm_modifiers ex_driver 1 1 (Some n))) = n" by (simp add: ex_driver_def)
  ultimately show ?thesis using drm_modifiers_complete by blast
qed

end
