(* ===== verification/Small_Programs.thy ===== *)
theory Small_Programs
  imports Prelude
begin

text \<open>
  The small programs of the repository that compute: \<open>src/simple_prime.cpp\<close>,
  \<open>src/native-header/spl/futureh.cpp\<close> and \<open>src/out_binary.cpp\<close>. An \<open>int\<close> is an integer of 32 bits: a
  result outside its range is undefined in C++ and a failed check here, named by \<open>overflow\<close>.
\<close>

definition in_int :: "int \<Rightarrow> bool" where
  "in_int x \<longleftrightarrow> - 2147483648 \<le> x \<and> x \<le> 2147483647"

definition in_long_long :: "int \<Rightarrow> bool" where
  "in_long_long x \<longleftrightarrow> - 9223372036854775808 \<le> x \<and> x \<le> 9223372036854775807"

abbreviation overflow :: check_failure where
  "overflow \<equiv> CheckFailed ''signed overflow''"

section \<open>Primes\<close>

text \<open>The loop of \<open>isprime\<close>; the product in its condition is computed before the comparison.\<close>

function isprime_loop :: "int \<Rightarrow> int \<Rightarrow> bool checked" where
  "isprime_loop num i =
     (if \<not> in_int (i * i) then Inl overflow
      else if i * i \<le> num then
        if num mod i = 0 \<or> num mod (i + 2) = 0 then Inr False else isprime_loop num (i + 6)
      else Inr True)"
  by auto

termination
proof (relation "measure (\<lambda>(num, i). nat (num + 1 - i))")
  fix num i :: int
  assume "i * i \<le> num"
  moreover have "i \<le> i * i" by (cases "i \<le> 0") (auto intro: order_trans [OF _ zero_le_square])
  ultimately show "((num, i + 6), num, i) \<in> measure (\<lambda>(num, i). nat (num + 1 - i))" by simp
qed simp

declare isprime_loop.simps [simp del]

definition isprime :: "int \<Rightarrow> bool checked" where
  "isprime num =
     (if num \<le> 1 then Inr False
      else if num \<le> 3 then Inr True
      else if num mod 2 = 0 \<or> num mod 3 = 0 then Inr False
      else isprime_loop num 5)"

text \<open>The inner loop of \<open>main\<close>: the count for one range.\<close>

function count_primes :: "int \<Rightarrow> int \<Rightarrow> int \<Rightarrow> int checked" where
  "count_primes max_num i cnt =
     (if i \<le> max_num then
        bindE (isprime i) (\<lambda>p.
          if \<not> in_int (i + 1) then Inl overflow
          else count_primes max_num (i + 1) (if p then cnt + 1 else cnt))
      else Inr cnt)"
  by auto

termination by (relation "measure (\<lambda>(m, i, c). nat (m + 1 - i))") auto

declare count_primes.simps [simp del]

text \<open>The replies of \<open>main\<close> to the numbers it reads, up to the first 0.\<close>

fun prime_main :: "int list \<Rightarrow> (int \<times> int) list checked" where
  "prime_main [] = Inr []"
| "prime_main (m # ms) =
     (if m = 0 then Inr []
      else bindE (count_primes m 2 0) (\<lambda>c. bindE (prime_main ms) (\<lambda>rs. Inr ((m, c) # rs))))"

section \<open>Sums\<close>

function sum_loop :: "int \<Rightarrow> int \<Rightarrow> int \<Rightarrow> int checked" where
  "sum_loop n i s =
     (if i \<le> n then
        if \<not> in_long_long (s + i) \<or> \<not> in_int (i + 1) then Inl overflow else sum_loop n (i + 1) (s + i)
      else Inr s)"
  by auto

termination by (relation "measure (\<lambda>(n, i, s). nat (n + 1 - i))") auto

declare sum_loop.simps [simp del]

definition calcSum :: "int checked" where
  "calcSum = sum_loop 1456824145 1 0"

section \<open>Bits\<close>

text \<open>\<open>std::bitset<8>(c)\<close> prints its bits from the highest to the lowest.\<close>

definition bitset8 :: "char \<Rightarrow> string" where
  "bitset8 c = map (\<lambda>i. if bit (of_char c :: nat) i then CHR ''1'' else CHR ''0'') (rev [0..<8])"

definition binary_of :: "string \<Rightarrow> string" where
  "binary_of input = concat (map (\<lambda>c. bitset8 c @ '' '') input)"

section \<open>Primality\<close>

definition prime_num :: "int \<Rightarrow> bool" where
  "prime_num n \<longleftrightarrow> 1 < n \<and> (\<forall>d. 1 < d \<and> d < n \<longrightarrow> \<not> d dvd n)"

text \<open>
  Trial division below \<open>i\<close> by 2, 3 and the numbers next to multiples of 6 excludes every divisor
  below \<open>i\<close>.
\<close>

definition no_divisor_below :: "int \<Rightarrow> int \<Rightarrow> bool" where
  "no_divisor_below num i \<longleftrightarrow> (\<forall>d. 1 < d \<and> d < i \<longrightarrow> \<not> d dvd num)"

lemma no_divisor_step:
  assumes below: "no_divisor_below num i" and "\<not> i dvd num" and "\<not> (i + 2) dvd num" and "i mod 6 = 5"
    and two: "\<not> 2 dvd num" and three: "\<not> 3 dvd num"
  shows "no_divisor_below num (i + 6)"
  unfolding no_divisor_below_def
proof (intro allI impI)
  fix d assume d: "1 < d \<and> d < i + 6"
  show "\<not> d dvd num"
  proof (cases "d < i")
    case True
    with below d show ?thesis by (simp add: no_divisor_below_def)
  next
    case False
    with d assms(4) have "d = i \<or> d = i + 2 \<or> 2 dvd d \<or> 3 dvd d" by presburger
    with assms show ?thesis by (auto dest: dvd_trans)
  qed
qed

lemma no_divisor_prime:
  assumes "no_divisor_below num i" and "num < i * i" and "1 < num" and "0 < i"
  shows "prime_num num"
  unfolding prime_num_def
proof (intro conjI allI impI)
  fix d assume d: "1 < d \<and> d < num"
  show "\<not> d dvd num"
  proof
    assume "d dvd num"
    then obtain e where e: "num = d * e" by blast
    with d assms(3) have "1 < e" by (metis less_irrefl mult.right_neutral mult_less_cancel_left_pos mult_pos_pos
      not_less_iff_gr_or_eq zero_less_mult_pos int_one_le_iff_zero_less zless_add1_eq add_0)
    have "d < i \<or> e < i"
    proof (rule ccontr)
      assume "\<not> (d < i \<or> e < i)"
      then have "i * i \<le> d * e" using assms(4) by (intro mult_mono) auto
      with e assms(2) show False by simp
    qed
    with assms(1) d \<open>1 < e\<close> e show False by (auto simp: no_divisor_below_def)
  qed
qed (fact assms(3))

lemma prime_num_neg: "num \<le> 1 \<Longrightarrow> \<not> prime_num num"
  by (simp add: prime_num_def)

lemma prime_num_small: "1 < num \<Longrightarrow> num \<le> 3 \<Longrightarrow> prime_num num"
  unfolding prime_num_def
proof (intro conjI allI impI)
  fix d assume "1 < num" "num \<le> 3" "1 < d \<and> d < num"
  then have "d = 2" "num = 3" by presburger+
  then show "\<not> d dvd num" by simp
qed

lemma divisor_not_prime: "d dvd num \<Longrightarrow> 1 < d \<Longrightarrow> d < num \<Longrightarrow> \<not> prime_num num"
  by (auto simp: prime_num_def)

lemma loop_range: "i * i \<le> num \<Longrightarrow> 5 \<le> (i :: int) \<Longrightarrow> i < num \<and> i + 2 < num"
proof -
  assume "i * i \<le> num" and "5 \<le> i"
  moreover from \<open>5 \<le> i\<close> have "5 * i \<le> i * i" by (intro mult_right_mono) auto
  ultimately show ?thesis by linarith
qed

lemma square_less: "(0 :: int) \<le> i \<Longrightarrow> i \<le> k \<Longrightarrow> i * i \<le> k * k"
  by (intro mult_mono) auto

lemma square_bound: "i * i < k * k \<Longrightarrow> (0 :: int) \<le> k \<Longrightarrow> i < k"
  using square_less [of k i] by linarith

lemma in_int_square: "i * i \<le> 46337 * 46337 \<Longrightarrow> in_int (i * i)"
proof -
  assume "i * i \<le> 46337 * 46337"
  moreover have "0 \<le> i * i" by simp
  ultimately show ?thesis unfolding in_int_def by linarith
qed

lemma isprime_loop_correct:
  "5 \<le> i \<Longrightarrow> i mod 6 = 5 \<Longrightarrow> i \<le> 46337 \<Longrightarrow> 3 < num \<Longrightarrow> num < 2147117569 \<Longrightarrow>
     \<not> 2 dvd num \<Longrightarrow> \<not> 3 dvd num \<Longrightarrow> no_divisor_below num i \<Longrightarrow> isprime_loop num i = Inr (prime_num num)"
proof (induction num i rule: isprime_loop.induct)
  case (1 num i)
  have "i * i \<le> 46337 * 46337" using 1 by (intro square_less) auto
  then have ok: "in_int (i * i)" using in_int_square by simp
  show ?case
  proof (cases "i * i \<le> num")
    case False
    with 1 have "prime_num num" by (intro no_divisor_prime [of num i]) auto
    with False ok show ?thesis by (simp add: isprime_loop.simps [of num i])
  next
    case True
    show ?thesis
    proof (cases "num mod i = 0 \<or> num mod (i + 2) = 0")
      case div: True
      then have "i dvd num \<or> i + 2 dvd num" by (simp add: dvd_eq_mod_eq_0)
      with loop_range [OF True 1(2)] 1(2) have "\<not> prime_num num"
        using divisor_not_prime [of i num] divisor_not_prime [of "i + 2" num] by auto
      with True div ok show ?thesis by (simp add: isprime_loop.simps [of num i])
    next
      case False
      have "i * i < 46337 * 46337" using True 1(6) by simp
      then have "i < 46337" by (rule square_bound) simp
      moreover from 1(3) have "(i + 6) mod 6 = 5" by presburger
      ultimately have "i + 6 \<le> 46337" using 1(3) by presburger
      moreover have "no_divisor_below num (i + 6)"
        using False by (intro no_divisor_step [OF 1(9) _ _ 1(3) 1(7) 1(8)]) (simp_all add: dvd_eq_mod_eq_0)
      ultimately have "isprime_loop num (i + 6) = Inr (prime_num num)"
        using 1 ok True False \<open>(i + 6) mod 6 = 5\<close> by simp
      with ok True False show ?thesis by (simp add: isprime_loop.simps [of num i])
    qed
  qed
qed

lemma isprime_loop_overflow:
  "5 \<le> i \<Longrightarrow> i mod 6 = 5 \<Longrightarrow> i \<le> 46343 \<Longrightarrow> 2147117569 \<le> num \<Longrightarrow> prime_num num \<Longrightarrow>
     isprime_loop num i = Inl overflow"
proof (induction num i rule: isprime_loop.induct)
  case (1 num i)
  show ?case
  proof (cases "i = 46343")
    case True
    then show ?thesis by (simp add: isprime_loop.simps [of num 46343] in_int_def)
  next
    case False
    with 1(3,4) have i: "i \<le> 46337" by presburger
    then have "i * i \<le> 46337 * 46337" using 1 by (intro square_less) auto
    then have ok: "in_int (i * i)" "i * i \<le> num" using 1(5) in_int_square by simp_all
    have "\<not> (num mod i = 0 \<or> num mod (i + 2) = 0)"
      using 1(6) loop_range [OF ok(2)] 1(2) by (auto simp: prime_num_def dvd_eq_mod_eq_0)
    moreover from 1(3) have "(i + 6) mod 6 = 5" by presburger
    ultimately show ?thesis using 1 ok i by (simp add: isprime_loop.simps [of num i])
  qed
qed

lemma start_no_divisor: "\<not> 2 dvd num \<Longrightarrow> \<not> 3 dvd num \<Longrightarrow> no_divisor_below num 5"
proof -
  assume nd: "\<not> 2 dvd num" "\<not> 3 dvd num"
  have "1 < d \<and> d < 5 \<Longrightarrow> d = 3 \<or> 2 dvd d" for d :: int by presburger
  with nd show ?thesis unfolding no_divisor_below_def by (blast dest: dvd_trans)
qed

lemma isprime_exact: "num < 2147117569 \<Longrightarrow> isprime num = Inr (prime_num num)"
proof -
  assume num: "num < 2147117569"
  consider "num \<le> 1" | "1 < num" "num \<le> 3" | "3 < num" "2 dvd num \<or> 3 dvd num"
    | "3 < num" "\<not> 2 dvd num" "\<not> 3 dvd num" by linarith
  then show ?thesis
  proof cases
    case 3
    then have "\<not> prime_num num" using divisor_not_prime [of 2 num] divisor_not_prime [of 3 num] by auto
    with 3 show ?thesis by (auto simp: isprime_def dvd_eq_mod_eq_0)
  next
    case 4
    with num start_no_divisor isprime_loop_correct [of 5 num] show ?thesis
      by (simp add: isprime_def dvd_eq_mod_eq_0)
  qed (simp_all add: isprime_def prime_num_neg prime_num_small)
qed

section \<open>Properties\<close>

text \<open>
  C34. \<open>isprime\<close> decides primality below the square of 46337, and for every larger prime of its type
  the squared divisor in the loop condition leaves the range of \<open>int\<close>.
\<close>

theorem isprime_correct:
  "(num < 2147117569 \<longrightarrow> isprime num = Inr (prime_num num)) \<and>
   (2147117569 \<le> num \<and> num \<le> 2147483647 \<and> prime_num num \<longrightarrow> isprime num = Inl overflow)"
proof (intro conjI impI)
  assume "2147117569 \<le> num \<and> num \<le> 2147483647 \<and> prime_num num"
  then have num: "2147117569 \<le> num" "prime_num num" by blast+
  then have "\<not> 2 dvd num" "\<not> 3 dvd num" by (auto simp: prime_num_def)
  with num isprime_loop_overflow [of 5 num] show "isprime num = Inl overflow"
    by (simp add: isprime_def dvd_eq_mod_eq_0)
qed (rule isprime_exact)

lemma isprime_correct_witness: "isprime 49 = Inr False \<and> \<not> prime_num 49"
proof -
  have "isprime 49 = Inr False" by (simp add: isprime_def isprime_loop.simps in_int_def)
  with isprime_correct [of 49] show ?thesis by simp
qed

text \<open>
  The count \<open>main\<close> prints for a range is the number of primes up to it, for every range below the
  square of 46337.
\<close>

theorem prime_count_exact:
  assumes "m < 2147117569"
  shows "count_primes m 2 0 = Inr (int (card {n. n \<le> m \<and> prime_num n}))"
proof -
  have fin: "finite {n. 2 \<le> n \<and> n < i \<and> prime_num n}" for i
    by (rule finite_subset [of _ "{2..<i}"]) auto
  have loop: "2 \<le> i \<Longrightarrow> cnt = int (card {n. 2 \<le> n \<and> n < i \<and> prime_num n}) \<Longrightarrow>
      count_primes m i cnt = Inr (int (card {n. 2 \<le> n \<and> n < max i (m + 1) \<and> prime_num n}))" for i cnt
  proof (induction "nat (m + 1 - i)" arbitrary: i cnt)
    case 0
    then show ?case by (simp add: count_primes.simps [of m i] max_def)
  next
    case (Suc k)
    have "{n. 2 \<le> n \<and> n < i + 1 \<and> prime_num n} =
        (if prime_num i then insert i {n. 2 \<le> n \<and> n < i \<and> prime_num n} else {n. 2 \<le> n \<and> n < i \<and> prime_num n})"
      using Suc.prems(1) by (auto simp: order.order_iff_strict)
    then have "int (card {n. 2 \<le> n \<and> n < i + 1 \<and> prime_num n}) = (if prime_num i then cnt + 1 else cnt)"
      using Suc.prems(2) fin by auto
    moreover have "isprime i = Inr (prime_num i)" using Suc.hyps(2) assms by (intro isprime_exact) auto
    moreover have "count_primes m (i + 1) (int (card {n. 2 \<le> n \<and> n < i + 1 \<and> prime_num n})) =
        Inr (int (card {n. 2 \<le> n \<and> n < max (i + 1) (m + 1) \<and> prime_num n}))"
      using Suc.hyps(2) Suc.prems(1) by (intro Suc.hyps(1)) auto
    moreover have "i \<le> m" "in_int (i + 1)" "max (i + 1) (m + 1) = max i (m + 1)"
      using Suc.hyps(2) Suc.prems(1) assms by (auto simp: in_int_def)
    ultimately show ?case
      by (simp only: count_primes.simps [of m i] if_True bindE_simps not_True_eq_False if_False)
  qed
  have none: "{n :: int. 2 \<le> n \<and> n < 2 \<and> prime_num n} = {}" by auto
  have "count_primes m 2 0 = Inr (int (card {n. 2 \<le> n \<and> n < max 2 (m + 1) \<and> prime_num n}))"
    by (rule loop) (simp_all only: none card.empty of_nat_0 order_refl)
  moreover have "{n. 2 \<le> n \<and> n < max 2 (m + 1) \<and> prime_num n} = {n. n \<le> m \<and> prime_num n}"
    by (auto simp: prime_num_def)
  ultimately show ?thesis by simp
qed

lemma prime_count_exact_witness: "card {n. n \<le> 10 \<and> prime_num n} = 4"
proof -
  have "count_primes 10 2 0 = Inr 4" by code_simp
  with prime_count_exact [of 10] show ?thesis by simp
qed

text \<open>
  The sum \<open>calcSum\<close> computes stays within \<open>long long\<close> and its counter within \<open>int\<close> all the way, and
  it is the closed form.
\<close>

theorem calcSum_exact: "calcSum = Inr (1456824145 * 1456824146 div 2)"
proof -
  let ?n = "1456824145 :: int"
  have "1 \<le> i \<Longrightarrow> i \<le> ?n + 1 \<Longrightarrow> 2 * s = (i - 1) * i \<Longrightarrow> sum_loop ?n i s = Inr (?n * (?n + 1) div 2)" for i s
  proof (induction "nat (?n + 1 - i)" arbitrary: i s)
    case 0
    then have "i = ?n + 1" by simp
    with 0 have "s = ?n * (?n + 1) div 2" by simp
    with \<open>i = ?n + 1\<close> show ?case by (simp add: sum_loop.simps)
  next
    case (Suc k)
    then have i: "i \<le> ?n" by simp
    have s: "2 * (s + i) = (i + 1 - 1) * (i + 1)" using Suc.prems(3) by (simp add: algebra_simps)
    have "i * (i + 1) \<le> ?n * (?n + 1)" using i Suc.prems(1) by (intro mult_mono) auto
    moreover have "0 \<le> i * (i + 1)" using Suc.prems(1) by simp
    moreover have "2 * (s + i) = i * (i + 1)" using s by simp
    ultimately have "0 \<le> s + i" and "s + i \<le> ?n * (?n + 1)" by simp_all
    then have "in_long_long (s + i)" "in_int (i + 1)"
      using i Suc.prems(1) by (simp_all add: in_long_long_def in_int_def)
    with Suc.hyps(1) [of "i + 1" "s + i"] Suc.hyps(2) Suc.prems(1) i s show ?case
      by (simp add: sum_loop.simps [of _ i])
  qed
  from this [of 1 0] show ?thesis by (simp add: calcSum_def)
qed

end
