(* ===== verification/Canvas.thy ===== *)
theory Canvas
  imports Small_Programs "HOL-Library.Signed_Division"
begin

unbundle bit_operations_syntax

text \<open>
  \<open>src/muim/screen/canvas_platfrom.cpp\<close> (the pixel checks of the canvas tests and their drawing
  helpers), \<open>render_main.cpp\<close> (pixel access of a canvas) and \<open>debug_ext.cpp\<close> (the reference count that
  watches adoption). Skia's bitmap and canvas are records of what these functions read of them.
\<close>

section \<open>Pixel access\<close>

record bitmap =
  bm_width :: int
  bm_height :: int
  getAddr32 :: "int \<Rightarrow> int \<Rightarrow> 32 word"

text \<open>\<open>SkBitmap()\<close> after \<open>reset\<close>: it has no pixels.\<close>

definition empty_bitmap :: bitmap where
  "empty_bitmap = \<lparr>bm_width = 0, bm_height = 0, getAddr32 = (\<lambda>_ _. 0)\<rparr>"

text \<open>What a canvas answers: its pixels, when they can be read, peeked at or written.\<close>

record canvas =
  readPixels :: "bitmap option"
  peekPixels :: "bitmap option"
  accessTopLayerPixels :: "bitmap option"

definition ReadPixels :: "canvas \<Rightarrow> bitmap" where
  "ReadPixels c = (case readPixels c of Some b \<Rightarrow> b | None \<Rightarrow> empty_bitmap)"

text \<open>The result and the pixmap after the call; \<open>result\<close> is \<open>None\<close> for a null pointer.\<close>

definition GetWritablePixels :: "canvas option \<Rightarrow> bitmap option \<Rightarrow> bool \<times> bitmap option" where
  "GetWritablePixels c result =
     (case (c, result) of
        (Some c', Some _) \<Rightarrow>
          (case accessTopLayerPixels c' of
             None \<Rightarrow> (False, Some empty_bitmap)
           | Some pixels \<Rightarrow> (True, Some pixels))
      | _ \<Rightarrow> (False, result))"

datatype failure_type = CRASH_ON_FAILURE | RETURN_NULL_ON_FAILURE

text \<open>The pixels a canvas is created on: the caller's, cleared ones, or opaque ones left as allocated.\<close>

datatype canvas_pixels = CallerPixels nat | ClearedPixels | AllocatedPixels

record new_canvas =
  cv_width :: int
  cv_height :: int
  cv_opaque :: bool
  cv_row_bytes :: "64 word"
  cv_pixels :: canvas_pixels

definition CreatePlatformCanvasWithPixels ::
    "bool \<Rightarrow> int \<Rightarrow> int \<Rightarrow> bool \<Rightarrow> nat option \<Rightarrow> 64 word \<Rightarrow> failure_type \<Rightarrow> new_canvas option checked" where
  "CreatePlatformCanvasWithPixels tryAllocPixels width height is_opaque data bytes_per_row failureType =
     (let made = (\<lambda>p. Inr (Some \<lparr>cv_width = width, cv_height = height, cv_opaque = is_opaque,
                                 cv_row_bytes = bytes_per_row, cv_pixels = p\<rparr>))
      in case data of
           Some d \<Rightarrow> made (CallerPixels d)
         | None \<Rightarrow>
             if \<not> tryAllocPixels
             then check (failureType \<noteq> CRASH_ON_FAILURE) ''failureType != CRASH_ON_FAILURE'' (Inr None)
             else made (if \<not> is_opaque then ClearedPixels else AllocatedPixels))"

section \<open>Checks of the tests\<close>

definition IsOfColor :: "32 word \<Rightarrow> bitmap \<Rightarrow> int \<Rightarrow> int \<Rightarrow> 32 word \<Rightarrow> bool" where
  "IsOfColor alpha_mask b x y color \<longleftrightarrow> (getAddr32 b x y OR alpha_mask) = (color OR alpha_mask)"

text \<open>The tests on a coordinate, with the sums they compute; \<open>\<and>\<close> of C++ stops at the first false one.\<close>

definition add_int :: "int \<Rightarrow> int \<Rightarrow> int checked" where
  "add_int a b = (if in_int (a + b) then Inr (a + b) else Inl overflow)"

definition in_span :: "int \<Rightarrow> int \<Rightarrow> int \<Rightarrow> bool checked" where
  "in_span cur x w =
     (if \<not> cur \<ge> x then Inr False else bindE (add_int x w) (\<lambda>right. Inr (cur < right)))"

definition in_rect :: "int \<Rightarrow> int \<Rightarrow> int \<Rightarrow> int \<Rightarrow> int \<Rightarrow> int \<Rightarrow> bool checked" where
  "in_rect cur_x cur_y x y w h =
     bindE (in_span cur_x x w) (\<lambda>a. if a then in_span cur_y y h else Inr False)"

function verify_row ::
    "32 word \<Rightarrow> bitmap \<Rightarrow> 32 word \<Rightarrow> 32 word \<Rightarrow> int \<Rightarrow> int \<Rightarrow> int \<Rightarrow> int \<Rightarrow> int \<Rightarrow> int \<Rightarrow> bool checked" where
  "verify_row M b canvas_color rect_color x y w h cur_y cur_x =
     (if cur_x < bm_width b then
        bindE (in_rect cur_x cur_y x y w h) (\<lambda>inside.
          if \<not> IsOfColor M b cur_x cur_y (if inside then rect_color else canvas_color) then Inr False
          else verify_row M b canvas_color rect_color x y w h cur_y (cur_x + 1))
      else Inr True)"
  by auto

termination by (relation "measure (\<lambda>(M, b, cc, rc, x, y, w, h, cur_y, cur_x). nat (bm_width b - cur_x))") auto

declare verify_row.simps [simp del]

function verify_rows ::
    "32 word \<Rightarrow> bitmap \<Rightarrow> 32 word \<Rightarrow> 32 word \<Rightarrow> int \<Rightarrow> int \<Rightarrow> int \<Rightarrow> int \<Rightarrow> int \<Rightarrow> bool checked" where
  "verify_rows M b canvas_color rect_color x y w h cur_y =
     (if cur_y < bm_height b then
        bindE (verify_row M b canvas_color rect_color x y w h cur_y 0) (\<lambda>ok.
          if \<not> ok then Inr False else verify_rows M b canvas_color rect_color x y w h (cur_y + 1))
      else Inr True)"
  by auto

termination by (relation "measure (\<lambda>(M, b, cc, rc, x, y, w, h, cur_y). nat (bm_height b - cur_y))") auto

declare verify_rows.simps [simp del]

definition VerifyRect ::
    "32 word \<Rightarrow> canvas \<Rightarrow> 32 word \<Rightarrow> 32 word \<Rightarrow> int \<Rightarrow> int \<Rightarrow> int \<Rightarrow> int \<Rightarrow> bool checked" where
  "VerifyRect M c canvas_color rect_color x y w h =
     verify_rows M (ReadPixels c) canvas_color rect_color x y w h 0"

text \<open>
  \<open>ASSERT_TRUE(canvas.peekPixels(...))\<close> ends the test. Each test is \<open>if (!IsOfColor(...)) return false\<close>
  on coordinates that may leave the range of \<open>int\<close>; halves are rounded towards zero.
\<close>

definition require_color ::
    "32 word \<Rightarrow> bitmap \<Rightarrow> int checked \<Rightarrow> int checked \<Rightarrow> 32 word \<Rightarrow> bool checked \<Rightarrow> bool checked" where
  "require_color M b px py color rest =
     bindE px (\<lambda>x. bindE py (\<lambda>y. if \<not> IsOfColor M b x y color then Inr False else rest))"

definition VerifyRoundedRect ::
    "32 word \<Rightarrow> canvas \<Rightarrow> 32 word \<Rightarrow> 32 word \<Rightarrow> int \<Rightarrow> int \<Rightarrow> int \<Rightarrow> int \<Rightarrow> bool checked" where
  "VerifyRoundedRect M c canvas_color rect_color x y w h =
     (case peekPixels c of
        None \<Rightarrow> Inl (CheckFailed ''canvas.peekPixels(&pixmap)'')
      | Some b \<Rightarrow>
          require_color M b (Inr x) (Inr y) canvas_color (
          require_color M b (add_int x w) (Inr y) canvas_color (
          require_color M b (Inr x) (add_int y h) canvas_color (
          require_color M b (add_int x w) (Inr y) canvas_color (
          require_color M b (add_int x (w sdiv 2)) (Inr y) rect_color (
          require_color M b (Inr x) (add_int y (h sdiv 2)) rect_color (
          require_color M b (add_int x w) (add_int y (h sdiv 2)) rect_color (
          require_color M b (add_int x (w sdiv 2)) (add_int y h) rect_color (
          Inr True)))))))))"

record sk_colors =
  alpha_mask_of :: "32 word"
  SK_ColorWHITE :: "32 word"
  SK_ColorBLACK :: "32 word"

definition VerifyBlackRect :: "sk_colors \<Rightarrow> canvas \<Rightarrow> int \<Rightarrow> int \<Rightarrow> int \<Rightarrow> int \<Rightarrow> bool checked" where
  "VerifyBlackRect K c x y w h = VerifyRect (alpha_mask_of K) c (SK_ColorWHITE K) (SK_ColorBLACK K) x y w h"

definition VerifyCanvasColor :: "sk_colors \<Rightarrow> canvas \<Rightarrow> 32 word \<Rightarrow> bool checked" where
  "VerifyCanvasColor K c canvas_color = VerifyRect (alpha_mask_of K) c canvas_color 0 0 0 0 0"

section \<open>Drawing helpers\<close>

text \<open>Calls on the canvas or, for the native rectangle, on its device context.\<close>

datatype draw_call =
    DrawRectDstATop int int int int
  | FillNativeRect int int int int
  | ClipRect int int int int
  | SaveLayer int int int int
  | ClearTransparent
  | Restore

definition MakeOpaque :: "int \<Rightarrow> int \<Rightarrow> int \<Rightarrow> int \<Rightarrow> draw_call list" where
  "MakeOpaque x y width height =
     (if width \<le> 0 \<or> height \<le> 0 then [] else [DrawRectDstATop x y width height])"

definition DrawNativeRect :: "int \<Rightarrow> int \<Rightarrow> int \<Rightarrow> int \<Rightarrow> draw_call list checked" where
  "DrawNativeRect x y w h =
     bindE (add_int x w) (\<lambda>right. bindE (add_int y h) (\<lambda>bottom. Inr [FillNativeRect x y right bottom]))"

definition AddClip :: "int \<Rightarrow> int \<Rightarrow> int \<Rightarrow> int \<Rightarrow> draw_call list" where
  "AddClip x y w h = [ClipRect x y w h]"

record layer_saver =
  ls_x :: int
  ls_y :: int
  ls_w :: int
  ls_h :: int

definition layer_right :: "layer_saver \<Rightarrow> int checked" where "layer_right l = add_int (ls_x l) (ls_w l)"

definition layer_bottom :: "layer_saver \<Rightarrow> int checked" where "layer_bottom l = add_int (ls_y l) (ls_h l)"

text \<open>The calls of the constructor, of the scope it opens and of the destructor.\<close>

definition LayerSaver :: "layer_saver \<Rightarrow> draw_call list checked \<Rightarrow> draw_call list checked" where
  "LayerSaver l scope =
     bindE (layer_right l) (\<lambda>right. bindE (layer_bottom l) (\<lambda>bottom. bindE scope (\<lambda>calls.
       Inr ([SaveLayer (ls_x l) (ls_y l) right bottom, ClearTransparent] @ calls @ [Restore]))))"

section \<open>Reference counts that watch adoption\<close>

text \<open>
  \<open>SkRefCnt\<close> adds \<open>flags_\<close> to \<open>SkRefCntBase\<close>, which counts; the calls on the base are recorded.
\<close>

record ref_cnt =
  rc_flags :: "32 word"

datatype base_call = BaseRef | BaseUnref

abbreviation Adopted_Flag :: "32 word" where "Adopted_Flag \<equiv> 1"

abbreviation AdoptionRequired_Flag :: "32 word" where "AdoptionRequired_Flag \<equiv> 2"

definition SkRefCnt :: ref_cnt where
  "SkRefCnt = \<lparr>rc_flags = 0\<rparr>"

definition rc_ref :: "ref_cnt \<Rightarrow> (ref_cnt \<times> base_call list) checked" where
  "rc_ref r = dcheck (rc_flags r \<noteq> AdoptionRequired_Flag) ''flags_.load() != AdoptionRequired_Flag'' (Inr (r, [BaseRef]))"

definition rc_deref :: "ref_cnt \<Rightarrow> ref_cnt \<times> base_call list" where
  "rc_deref r = (r, [BaseUnref])"

text \<open>The two functions of namespace \<open>WTF\<close>, \<open>None\<close> a null pointer, over the methods they call.\<close>

definition rc_adopted :: "ref_cnt option \<Rightarrow> ref_cnt option" where
  "rc_adopted object =
     (case object of None \<Rightarrow> None | Some r \<Rightarrow> Some (r\<lparr>rc_flags := rc_flags r OR Adopted_Flag\<rparr>))"

definition rc_requireAdoption :: "ref_cnt option \<Rightarrow> ref_cnt option" where
  "rc_requireAdoption object =
     (case object of None \<Rightarrow> None | Some r \<Rightarrow> Some (r\<lparr>rc_flags := rc_flags r OR AdoptionRequired_Flag\<rparr>))"

datatype ref_event = Ref | Deref | Adopted | RequireAdoption

definition ref_step :: "ref_cnt \<Rightarrow> ref_event \<Rightarrow> (ref_cnt \<times> base_call list) checked" where
  "ref_step r e =
     (case e of
        Ref \<Rightarrow> rc_ref r
      | Deref \<Rightarrow> Inr (rc_deref r)
      | Adopted \<Rightarrow> Inr (the (rc_adopted (Some r)), [])
      | RequireAdoption \<Rightarrow> Inr (the (rc_requireAdoption (Some r)), []))"

section \<open>What the checks decide\<close>

text \<open>Whether a pixel has its colour: that of the rectangle inside it, that of the canvas elsewhere.\<close>

definition pixel_ok :: "32 word \<Rightarrow> bitmap \<Rightarrow> 32 word \<Rightarrow> 32 word \<Rightarrow> int \<Rightarrow> int \<Rightarrow> int \<Rightarrow> int \<Rightarrow> int \<Rightarrow> int \<Rightarrow> bool" where
  "pixel_ok M b canvas_color rect_color x y w h px py \<longleftrightarrow>
     IsOfColor M b px py (if x \<le> px \<and> px < x + w \<and> y \<le> py \<and> py < y + h then rect_color else canvas_color)"

lemma in_rect_value: "in_int (x + w) \<Longrightarrow> in_int (y + h) \<Longrightarrow>
    in_rect px py x y w h = Inr (x \<le> px \<and> px < x + w \<and> y \<le> py \<and> py < y + h)"
  by (simp add: in_rect_def in_span_def add_int_def)

text \<open>The step of a counting loop: the first index, then the rest.\<close>

lemma all_from:
  assumes "a < (b::int)"
  shows "(\<forall>p. a \<le> p \<and> p < b \<longrightarrow> Q p) \<longleftrightarrow> Q a \<and> (\<forall>p. a + 1 \<le> p \<and> p < b \<longrightarrow> Q p)"
proof -
  have "a \<le> p \<longleftrightarrow> p = a \<or> a + 1 \<le> p" for p by auto
  then show ?thesis using assms by (simp only:) blast
qed

lemma verify_row_value:
  assumes "in_int (x + w)" and "in_int (y + h)"
  shows "verify_row M b cc rc x y w h py px = Inr (\<forall>p. px \<le> p \<and> p < bm_width b \<longrightarrow> pixel_ok M b cc rc x y w h p py)"
proof (induction "nat (bm_width b - px)" arbitrary: px)
  case 0
  then show ?case by (auto simp: verify_row.simps [of M b])
next
  case (Suc k)
  have "verify_row M b cc rc x y w h py (px + 1) =
      Inr (\<forall>p. px + 1 \<le> p \<and> p < bm_width b \<longrightarrow> pixel_ok M b cc rc x y w h p py)"
    using Suc.hyps(2) by (intro Suc.hyps(1)) simp
  moreover have "px < bm_width b" using Suc.hyps(2) by simp
  ultimately show ?case
    by (subst all_from) (simp_all add: verify_row.simps [of M b _ _ _ _ _ _ _ px] in_rect_value [OF assms] pixel_ok_def)
qed

lemma verify_rows_value:
  assumes "in_int (x + w)" and "in_int (y + h)"
  shows "verify_rows M b cc rc x y w h py =
    Inr (\<forall>q p. py \<le> q \<and> q < bm_height b \<and> 0 \<le> p \<and> p < bm_width b \<longrightarrow> pixel_ok M b cc rc x y w h p q)"
proof (induction "nat (bm_height b - py)" arbitrary: py)
  case 0
  then show ?case by (auto simp: verify_rows.simps [of M b])
next
  case (Suc k)
  have "verify_rows M b cc rc x y w h (py + 1) =
      Inr (\<forall>q p. py + 1 \<le> q \<and> q < bm_height b \<and> 0 \<le> p \<and> p < bm_width b \<longrightarrow> pixel_ok M b cc rc x y w h p q)"
    using Suc.hyps(2) by (intro Suc.hyps(1)) simp
  moreover have "py < bm_height b" using Suc.hyps(2) by simp
  ultimately show ?case
    using all_from [of py "bm_height b" "\<lambda>q. \<forall>p. 0 \<le> p \<and> p < bm_width b \<longrightarrow> pixel_ok M b cc rc x y w h p q"]
    by (auto simp: verify_rows.simps [of M b _ _ _ _ _ _ py] verify_row_value [OF assms])
qed

text \<open>
  C40. \<open>VerifyRect\<close> decides, pixel by pixel, whether the canvas shows the rectangle: it returns true
  exactly when every pixel it could read has the rectangle's colour inside the rectangle and the
  canvas's colour outside. A canvas whose pixels cannot be read passes every check.
\<close>

theorem verify_rect_exact:
  assumes "in_int (x + w)" and "in_int (y + h)"
  shows "VerifyRect M c canvas_color rect_color x y w h =
      Inr (\<forall>q p. 0 \<le> q \<and> q < bm_height (ReadPixels c) \<and> 0 \<le> p \<and> p < bm_width (ReadPixels c) \<longrightarrow>
            pixel_ok M (ReadPixels c) canvas_color rect_color x y w h p q) \<and>
    (readPixels c = None \<longrightarrow> VerifyRect M c canvas_color rect_color x y w h = Inr True)"
  by (auto simp: VerifyRect_def verify_rows_value [OF assms] ReadPixels_def empty_bitmap_def)

text \<open>A black pixel at (1, 0) of a white canvas of two pixels.\<close>

definition sample_canvas :: canvas where
  "sample_canvas =
     (let b = \<lparr>bm_width = 2, bm_height = 1, getAddr32 = (\<lambda>x y. if x = 1 then 0xFF000000 else 0xFFFFFFFF)\<rparr>
      in \<lparr>readPixels = Some b, peekPixels = Some b, accessTopLayerPixels = None\<rparr>)"

theorem verify_rect_exact_witness:
  "VerifyRect 0xFF000000 sample_canvas 0xFFFFFFFF 0 1 0 1 1 = Inr True \<and>
   VerifyRect 0xFF000000 sample_canvas 0xFFFFFFFF 0 0 0 1 1 = Inr False"
proof -
  have b: "ReadPixels sample_canvas = \<lparr>bm_width = 2, bm_height = 1, getAddr32 = (\<lambda>x y. if x = 1 then 0xFF000000 else 0xFFFFFFFF)\<rparr>"
    by (simp add: sample_canvas_def ReadPixels_def Let_def)
  show ?thesis
    using verify_rect_exact [of 1 1 0 1 "0xFF000000" sample_canvas "0xFFFFFFFF" 0]
      verify_rect_exact [of 0 1 0 1 "0xFF000000" sample_canvas "0xFFFFFFFF" 0]
    by (auto simp: b in_int_def pixel_ok_def IsOfColor_def intro!: exI [of _ 0])
qed

text \<open>Setting one pixel of a canvas.\<close>

definition set_pixel :: "int \<Rightarrow> int \<Rightarrow> 32 word \<Rightarrow> bitmap \<Rightarrow> bitmap" where
  "set_pixel px py v b = b\<lparr>getAddr32 := (\<lambda>x y. if x = px \<and> y = py then v else getAddr32 b x y)\<rparr>"

lemma IsOfColor_set_pixel:
  "IsOfColor M (set_pixel px py v b) x y color =
     (if x = px \<and> y = py then (v OR M) = (color OR M) else IsOfColor M b x y color)"
  by (simp add: IsOfColor_def set_pixel_def)

lemma require_color_set_pixel:
  "px \<noteq> Inr qx \<or> py \<noteq> Inr qy \<Longrightarrow>
   require_color M (set_pixel qx qy v b) px py color rest = require_color M b px py color rest"
  by (cases px; cases py) (auto simp: require_color_def IsOfColor_set_pixel)

text \<open>
  \<open>VerifyRoundedRect\<close> does not look at the lower right corner of the rectangle: whatever that pixel
  holds, its answer is the same. (The fourth test repeats the second, at the upper right corner.)
\<close>

theorem rounded_rect_misses_a_corner:
  assumes "0 < w" and "0 < h" and "peekPixels c = Some b"
  shows "VerifyRoundedRect M (c\<lparr>peekPixels := Some (set_pixel (x + w) (y + h) v b)\<rparr>) canvas_color rect_color x y w h =
    VerifyRoundedRect M c canvas_color rect_color x y w h"
proof -
  have "w sdiv 2 < w" "h sdiv 2 < h" using assms by (simp_all add: signed_divide_int_def)
  then show ?thesis using assms by (simp add: VerifyRoundedRect_def require_color_set_pixel add_int_def)
qed

theorem rounded_rect_misses_a_corner_witness:
  "(let b = \<lparr>bm_width = 4, bm_height = 4, getAddr32 = (\<lambda>x y. if x = 1 \<or> y = 1 then 0xFF000000 else 0xFFFFFFFF)\<rparr>;
        c = \<lparr>readPixels = None, peekPixels = Some b, accessTopLayerPixels = None\<rparr>
    in VerifyRoundedRect 0xFF000000 (c\<lparr>peekPixels := Some (set_pixel (0 + 2) (0 + 2) 0xFF000000 b)\<rparr>)
         0xFFFFFFFF 0xFF000000 0 0 2 2 = Inr True \<and>
       \<not> IsOfColor 0xFF000000 (set_pixel 2 2 0xFF000000 b) 2 2 0xFFFFFFFF)"
  unfolding Let_def
  by (subst rounded_rect_misses_a_corner) (simp_all add: VerifyRoundedRect_def require_color_def add_int_def
      in_int_def IsOfColor_def set_pixel_def signed_divide_int_def)

section \<open>When a reference may be taken\<close>

lemma ref_step_flags:
  "ref_step r e = Inr (r', out) \<Longrightarrow>
   rc_flags r' = (case e of Adopted \<Rightarrow> rc_flags r OR 1 | RequireAdoption \<Rightarrow> rc_flags r OR 2 | _ \<Rightarrow> rc_flags r)"
  by (cases e) (auto simp: ref_step_def rc_ref_def rc_deref_def rc_adopted_def rc_requireAdoption_def dcheck_Inr_iff)

text \<open>The flags in terms of the calls made.\<close>

definition flags_after :: "bool \<Rightarrow> bool \<Rightarrow> 32 word" where
  "flags_after adopted required = (if adopted then 1 else 0) OR (if required then 2 else 0)"

lemma ref_run_flags:
  assumes "run ref_step r es = Inr (r', out)" and "rc_flags r = flags_after a q"
  shows "rc_flags r' = flags_after (a \<or> Adopted \<in> set es) (q \<or> RequireAdoption \<in> set es)"
  using assms
proof (induction es arbitrary: r a q out)
  case Nil
  then show ?case by simp
next
  case (Cons e es)
  then obtain r1 o1 o2 where s: "ref_step r e = Inr (r1, o1)" and t: "run ref_step r1 es = Inr (r', o2)"
    by (auto simp: bindE_Inr_iff split: prod.splits)
  have "rc_flags r1 = flags_after (a \<or> e = Adopted) (q \<or> e = RequireAdoption)"
    using ref_step_flags [OF s] Cons.prems(2) by (cases e; cases a; cases q) (simp_all add: flags_after_def)
  from Cons.IH [OF t this] show ?case by (simp add: disj_assoc eq_commute)
qed

text \<open>
  Whatever was called before, taking a reference fails exactly when adoption was required and the
  object was never adopted; otherwise it reaches the base class's \<open>ref\<close> once.
\<close>

theorem ref_needs_adoption:
  assumes "run ref_step SkRefCnt es = Inr (r, out)"
  shows "rc_ref r = (if RequireAdoption \<in> set es \<and> Adopted \<notin> set es
    then Inl (DCheckFailed ''flags_.load() != AdoptionRequired_Flag'') else Inr (r, [BaseRef]))"
proof -
  have "rc_flags r = flags_after (Adopted \<in> set es) (RequireAdoption \<in> set es)"
    using ref_run_flags [OF assms, of False False] by (simp add: SkRefCnt_def flags_after_def)
  then show ?thesis by (simp add: rc_ref_def flags_after_def)
qed

theorem ref_needs_adoption_witness:
  "\<exists>r. run ref_step SkRefCnt [Ref, RequireAdoption, Deref] = Inr (r, [BaseRef, BaseUnref]) \<and>
    rc_ref r = Inl (DCheckFailed ''flags_.load() != AdoptionRequired_Flag'')"
proof -
  have run: "run ref_step SkRefCnt [Ref, RequireAdoption, Deref] = Inr (\<lparr>rc_flags = 2\<rparr>, [BaseRef, BaseUnref])"
    by (simp add: ref_step_def SkRefCnt_def rc_ref_def rc_deref_def rc_requireAdoption_def)
  from ref_needs_adoption [OF this] have "rc_ref \<lparr>rc_flags = 2\<rparr> = Inl (DCheckFailed ''flags_.load() != AdoptionRequired_Flag'')"
    by simp
  with run show ?thesis by (intro exI conjI)
qed

end
