(* ===== verification/User_Keys.thy ===== *)
theory User_Keys
  imports Prelude
begin

text \<open>
  \<open>src/networking/cryp/sampleVerifyK.cpp\<close>: the provider of user verifying keys, the question whether
  such keys are supported, and the two test overrides in front of both. An override is a slot of global
  state; the locale \<open>override_slot\<close> states what setting it does and is interpreted on both slots.
\<close>

section \<open>State\<close>

text \<open>The build the file is compiled for.\<close>

datatype platform = IS_WIN | IS_MAC | OtherPlatform

text \<open>
  The globals. A mock provider is a function pointer: \<open>Some f\<close> when it is set, and \<open>f\<close> the provider it
  returns, \<open>None\<close> for a null one. The other override is a repeating callback, \<open>None\<close> when it is null.
\<close>

record ('p, 'o) key_globals =
  g_mock_provider :: "'p option option"
  supported_override :: "'o option"

definition initial_globals :: "('p, 'o) key_globals" where
  "initial_globals = \<lparr>g_mock_provider = None, supported_override = None\<rparr>"

text \<open>What the platform returns; \<open>GetUserVerifyingKeyProviderMac\<close> takes the configuration.\<close>

record ('p, 'c) key_platform =
  GetUserVerifyingKeyProviderWin :: "'p option"
  GetUserVerifyingKeyProviderMac :: "'c \<Rightarrow> 'p option"

text \<open>What happens to a callback: it is run with an answer, or moved into another call.\<close>

datatype ('o, 'c, 'cb) key_call =
    RunOverride 'o 'cb
  | RunCallback 'cb bool
  | IsKeyCredentialManagerAvailable 'cb
  | AreMacUnexportableKeysAvailable 'c 'cb

section \<open>Operations\<close>

definition IsHardwareBacked :: bool where
  "IsHardwareBacked = False"

text \<open>The constructor of the reference counted key: \<open>CHECK(key_)\<close>.\<close>

definition RefCountedUserVerifyingSigningKey :: "'k option \<Rightarrow> 'k checked" where
  "RefCountedUserVerifyingSigningKey key = (case key of None \<Rightarrow> Inl (CheckFailed ''key_'') | Some k \<Rightarrow> Inr k)"

definition GetUserVerifyingKeyProvider ::
    "platform \<Rightarrow> ('p, 'c) key_platform \<Rightarrow> ('p, 'o) key_globals \<Rightarrow> 'c \<Rightarrow> 'p option" where
  "GetUserVerifyingKeyProvider b P s config =
     (case g_mock_provider s of
        Some f \<Rightarrow> f
      | None \<Rightarrow>
          (case b of
             IS_WIN \<Rightarrow> GetUserVerifyingKeyProviderWin P
           | IS_MAC \<Rightarrow> GetUserVerifyingKeyProviderMac P config
           | OtherPlatform \<Rightarrow> None))"

definition AreUserVerifyingKeysSupported ::
    "platform \<Rightarrow> ('p, 'o) key_globals \<Rightarrow> 'c \<Rightarrow> 'cb \<Rightarrow> ('o, 'c, 'cb) key_call list" where
  "AreUserVerifyingKeysSupported b s config callback =
     (case supported_override s of
        Some ov \<Rightarrow> [RunOverride ov callback]
      | None \<Rightarrow>
          (case g_mock_provider s of
             Some f \<Rightarrow> [RunCallback callback (f \<noteq> None)]
           | None \<Rightarrow>
               (case b of
                  IS_WIN \<Rightarrow> [IsKeyCredentialManagerAvailable callback]
                | IS_MAC \<Rightarrow> [AreMacUnexportableKeysAvailable config callback]
                | OtherPlatform \<Rightarrow> [RunCallback callback False])))"

definition SetUserVerifyingKeyProviderForTesting ::
    "('p, 'o) key_globals \<Rightarrow> 'p option option \<Rightarrow> ('p, 'o) key_globals checked" where
  "SetUserVerifyingKeyProviderForTesting s func =
     (if g_mock_provider s \<noteq> None
      then check (func = None) ''!func'' (Inr (s\<lparr>g_mock_provider := None\<rparr>))
      else Inr (s\<lparr>g_mock_provider := func\<rparr>))"

definition SetUserVerifyingKeysSupportedOverrideForTesting ::
    "('p, 'o) key_globals \<Rightarrow> 'o option \<Rightarrow> ('p, 'o) key_globals checked" where
  "SetUserVerifyingKeysSupportedOverrideForTesting s ov =
     (if supported_override s \<noteq> None
      then check (ov = None) ''!override'' (Inr (s\<lparr>supported_override := None\<rparr>))
      else Inr (s\<lparr>supported_override := ov\<rparr>))"

text \<open>The operations as a client calls them. Asking for the provider changes nothing and calls nothing.\<close>

datatype ('p, 'o, 'c, 'cb) key_event =
    SetProvider "'p option option"
  | SetOverride "'o option"
  | AskSupported 'c 'cb

definition key_step ::
    "platform \<Rightarrow> ('p, 'o) key_globals \<Rightarrow> ('p, 'o, 'c, 'cb) key_event \<Rightarrow>
     (('p, 'o) key_globals \<times> ('o, 'c, 'cb) key_call list) checked" where
  "key_step b s e =
     (case e of
        SetProvider f \<Rightarrow> bindE (SetUserVerifyingKeyProviderForTesting s f) (\<lambda>s'. Inr (s', []))
      | SetOverride ov \<Rightarrow> bindE (SetUserVerifyingKeysSupportedOverrideForTesting s ov) (\<lambda>s'. Inr (s', []))
      | AskSupported config cb \<Rightarrow> Inr (s, AreUserVerifyingKeysSupported b s config cb))"

section \<open>A slot for a test override\<close>

text \<open>
  The contract of a slot inside a machine: \<open>writes\<close> picks the events that set it and what they set it
  to; such an event fails exactly when it would replace one override by another, and the others leave the
  slot alone. Then a run that passes leaves what was set last, and fails as soon as two overrides meet.
\<close>

fun last_write :: "('e \<Rightarrow> 'f option option) \<Rightarrow> 'f option \<Rightarrow> 'e list \<Rightarrow> 'f option" where
  "last_write writes cur [] = cur"
| "last_write writes cur (e # es) = last_write writes (case writes e of None \<Rightarrow> cur | Some f \<Rightarrow> f) es"

text \<open>No override is set while another is in place.\<close>

fun never_replaced :: "('e \<Rightarrow> 'f option option) \<Rightarrow> 'f option \<Rightarrow> 'e list \<Rightarrow> bool" where
  "never_replaced writes cur [] = True"
| "never_replaced writes cur (e # es) =
     (case writes e of
        None \<Rightarrow> never_replaced writes cur es
      | Some f \<Rightarrow> (cur = None \<or> f = None) \<and> never_replaced writes f es)"

locale override_slot =
  fixes step :: "'s \<Rightarrow> 'e \<Rightarrow> ('s \<times> 'x list) checked"
    and slot :: "'s \<Rightarrow> 'f option"
    and writes :: "'e \<Rightarrow> 'f option option"
  assumes slot_written: "step s e = Inr (s', out) \<Longrightarrow>
      slot s' = (case writes e of None \<Rightarrow> slot s | Some f \<Rightarrow> f)"
    and slot_guarded: "step s e = Inr (s', out) \<Longrightarrow> writes e = Some f \<Longrightarrow> slot s = None \<or> f = None"
begin

lemma run_slot:
  "run step s es = Inr (t, out) \<Longrightarrow> slot t = last_write writes (slot s) es \<and> never_replaced writes (slot s) es"
proof (induction es arbitrary: s out)
  case Nil
  then show ?case by simp
next
  case (Cons e es)
  then obtain s' o1 o2 where st: "step s e = Inr (s', o1)" and rest: "run step s' es = Inr (t, o2)"
    unfolding run_Cons_Inr by blast
  from Cons.IH [OF rest] slot_written [OF st] slot_guarded [OF st] show ?case
    by (auto split: option.splits)
qed

end

definition provider_writes :: "('p, 'o, 'c, 'cb) key_event \<Rightarrow> 'p option option option" where
  "provider_writes e = (case e of SetProvider f \<Rightarrow> Some f | _ \<Rightarrow> None)"

definition override_writes :: "('p, 'o, 'c, 'cb) key_event \<Rightarrow> 'o option option" where
  "override_writes e = (case e of SetOverride ov \<Rightarrow> Some ov | _ \<Rightarrow> None)"

lemmas key_step_defs = key_step_def SetUserVerifyingKeyProviderForTesting_def
  SetUserVerifyingKeysSupportedOverrideForTesting_def provider_writes_def override_writes_def checked_iffs

interpretation provider_slot: override_slot "key_step b" g_mock_provider provider_writes
  by unfold_locales (auto simp: key_step_defs split: key_event.splits if_splits)

interpretation support_slot: override_slot "key_step b" supported_override override_writes
  by unfold_locales (auto simp: key_step_defs split: key_event.splits if_splits)

text \<open>Setting a slot, in one case distinction.\<close>

lemma set_provider_eq:
  "SetUserVerifyingKeyProviderForTesting s func =
     (if g_mock_provider s = None \<or> func = None then Inr (s\<lparr>g_mock_provider := func\<rparr>) else Inl (CheckFailed ''!func''))"
  by (simp add: SetUserVerifyingKeyProviderForTesting_def check_def)

lemma set_override_eq:
  "SetUserVerifyingKeysSupportedOverrideForTesting s ov =
     (if supported_override s = None \<or> ov = None then Inr (s\<lparr>supported_override := ov\<rparr>)
      else Inl (CheckFailed ''!override''))"
  by (simp add: SetUserVerifyingKeysSupportedOverrideForTesting_def check_def)

text \<open>The calls pass as long as neither override is replaced.\<close>

lemma key_step_passes:
  assumes "never_replaced provider_writes (g_mock_provider s) (e # es)"
    and "never_replaced override_writes (supported_override s) (e # es)"
  obtains s' out where "key_step b s e = Inr (s', out)"
    and "never_replaced provider_writes (g_mock_provider s') es"
    and "never_replaced override_writes (supported_override s') es"
  using assms by (cases e) (auto simp: key_step_def set_provider_eq set_override_eq provider_writes_def override_writes_def)

lemma key_run_passes:
  "never_replaced provider_writes (g_mock_provider s) es \<Longrightarrow>
   never_replaced override_writes (supported_override s) es \<Longrightarrow> \<exists>t out. run (key_step b) s es = Inr (t, out)"
proof (induction es arbitrary: s)
  case Nil
  then show ?case by simp
next
  case (Cons e es)
  from Cons.prems obtain s' o1 where st: "key_step b s e = Inr (s', o1)"
    and "never_replaced provider_writes (g_mock_provider s') es"
      "never_replaced override_writes (supported_override s') es"
    by (rule key_step_passes)
  then obtain t o2 where "run (key_step b) s' es = Inr (t, o2)" using Cons.IH by blast
  with st show ?case by simp
qed

section \<open>Properties\<close>

text \<open>
  The calls of the tests pass their checks exactly when no override is set over another. Afterwards
  both slots hold what was set last, so the provider handed out is the mock of the last call, or the
  platform's when that call cleared it.
\<close>

theorem test_overrides_never_stack:
  shows "((\<exists>t out. run (key_step b) initial_globals es = Inr (t, out)) \<longleftrightarrow>
      never_replaced provider_writes None es \<and> never_replaced override_writes None es) \<and>
    (\<forall>t out. run (key_step b) initial_globals es = Inr (t, out) \<longrightarrow>
      t = \<lparr>g_mock_provider = last_write provider_writes None es,
           supported_override = last_write override_writes None es\<rparr> \<and>
      GetUserVerifyingKeyProvider b P t config =
        (case last_write provider_writes None es of Some f \<Rightarrow> f
         | None \<Rightarrow> GetUserVerifyingKeyProvider b P initial_globals config))"
proof -
  have slots: "t = \<lparr>g_mock_provider = last_write provider_writes None es,
        supported_override = last_write override_writes None es\<rparr> \<and>
      never_replaced provider_writes None es \<and> never_replaced override_writes None es"
    if "run (key_step b) initial_globals es = Inr (t, out)" for t out
    using provider_slot.run_slot [OF that] support_slot.run_slot [OF that]
    by (cases t) (simp add: initial_globals_def)
  have "(\<exists>t out. run (key_step b) initial_globals es = Inr (t, out)) \<longleftrightarrow>
      never_replaced provider_writes None es \<and> never_replaced override_writes None es"
    using slots key_run_passes [of initial_globals es b] by (auto simp: initial_globals_def)
  moreover have get: "GetUserVerifyingKeyProvider b P \<lparr>g_mock_provider = f, supported_override = ov\<rparr> config =
      (case f of Some f' \<Rightarrow> f' | None \<Rightarrow> GetUserVerifyingKeyProvider b P initial_globals config)" for f ov
    by (simp add: initial_globals_def GetUserVerifyingKeyProvider_def split: option.split)
  moreover have "t = \<lparr>g_mock_provider = last_write provider_writes None es,
        supported_override = last_write override_writes None es\<rparr> \<and>
      GetUserVerifyingKeyProvider b P t config =
        (case last_write provider_writes None es of Some f \<Rightarrow> f
         | None \<Rightarrow> GetUserVerifyingKeyProvider b P initial_globals config)"
    if "run (key_step b) initial_globals es = Inr (t, out)" for t out
    using slots [OF that] get by simp
  ultimately show ?thesis by blast
qed

theorem test_overrides_never_stack_witness:
  "\<exists>t. run (key_step IS_WIN) initial_globals
        [SetProvider (Some (Some (7::nat))), SetOverride (Some ''yes''), SetOverride None, AskSupported () (1::nat)] =
        Inr (t, [RunCallback 1 True]) \<and>
      GetUserVerifyingKeyProvider IS_WIN \<lparr>GetUserVerifyingKeyProviderWin = (None :: nat option), GetUserVerifyingKeyProviderMac = (\<lambda>_. None)\<rparr>
        t () = Some 7"
proof -
  let ?es = "[SetProvider (Some (Some (7::nat))), SetOverride (Some ''yes''), SetOverride None, AskSupported () (1::nat)]"
  let ?P = "\<lparr>GetUserVerifyingKeyProviderWin = (None :: nat option), GetUserVerifyingKeyProviderMac = (\<lambda>_. None)\<rparr>"
  have run: "run (key_step IS_WIN) initial_globals ?es =
      Inr (\<lparr>g_mock_provider = Some (Some 7), supported_override = None\<rparr>, [RunCallback 1 True])"
    by (simp add: key_step_def initial_globals_def SetUserVerifyingKeyProviderForTesting_def
        SetUserVerifyingKeysSupportedOverrideForTesting_def AreUserVerifyingKeysSupported_def check_def)
  have "last_write provider_writes None ?es = Some (Some 7)" by (simp add: provider_writes_def)
  with conjunct2 [OF test_overrides_never_stack [of IS_WIN ?es ?P "()"], rule_format, OF run]
  have "GetUserVerifyingKeyProvider IS_WIN ?P \<lparr>g_mock_provider = Some (Some (7::nat)), supported_override = (None :: string option)\<rparr> () = Some 7"
    by simp
  with run show ?thesis by blast
qed

text \<open>The callback a call hands on.\<close>

fun handed_callback :: "('o, 'c, 'cb) key_call \<Rightarrow> 'cb" where
  "handed_callback (RunOverride _ cb) = cb"
| "handed_callback (RunCallback cb _) = cb"
| "handed_callback (IsKeyCredentialManagerAvailable cb) = cb"
| "handed_callback (AreMacUnexportableKeysAvailable _ cb) = cb"

definition asked_callbacks :: "('p, 'o, 'c, 'cb) key_event list \<Rightarrow> 'cb list" where
  "asked_callbacks es = concat (map (\<lambda>e. case e of AskSupported _ cb \<Rightarrow> [cb] | _ \<Rightarrow> []) es)"

lemma key_step_hands_on:
  "key_step b s e = Inr (s', out) \<Longrightarrow>
     map handed_callback out = (case e of AskSupported _ cb \<Rightarrow> [cb] | _ \<Rightarrow> [])"
  by (auto simp: key_step_defs AreUserVerifyingKeysSupported_def split: key_event.splits option.splits platform.splits)

text \<open>
  Whatever overrides are set and cleared on the way, every callback asked with is handed on exactly
  once, in the order of the questions.
\<close>

theorem every_question_handed_on_once:
  assumes "run (key_step b) s es = Inr (t, out)"
  shows "map handed_callback out = asked_callbacks es"
  using assms
proof (induction es arbitrary: s out)
  case Nil
  then show ?case by (simp add: asked_callbacks_def)
next
  case (Cons e es)
  then obtain s' o1 o2 where "key_step b s e = Inr (s', o1)" "run (key_step b) s' es = Inr (t, o2)" "out = o1 @ o2"
    unfolding run_Cons_Inr by blast
  with Cons.IH [of s' o2] key_step_hands_on [of b s e s' o1] show ?case by (simp add: asked_callbacks_def)
qed

theorem every_question_handed_on_once_witness:
  "\<exists>out. run (key_step OtherPlatform) initial_globals
        [AskSupported () (1::nat), SetProvider (Some (None :: nat option)), AskSupported () 2, SetOverride (Some ''no''), AskSupported () 3] =
        Inr (\<lparr>g_mock_provider = Some None, supported_override = Some ''no''\<rparr>, out) \<and>
      map handed_callback out = [1, 2, 3]"
proof -
  let ?es = "[AskSupported () (1::nat), SetProvider (Some (None :: nat option)), AskSupported () 2, SetOverride (Some ''no''), AskSupported () 3]"
  have run: "run (key_step OtherPlatform) initial_globals ?es =
      Inr (\<lparr>g_mock_provider = Some None, supported_override = Some ''no''\<rparr>,
           [RunCallback 1 False, RunCallback 2 False, RunOverride ''no'' 3])"
    by (simp add: key_step_def initial_globals_def SetUserVerifyingKeyProviderForTesting_def
        SetUserVerifyingKeysSupportedOverrideForTesting_def AreUserVerifyingKeysSupported_def check_def)
  from every_question_handed_on_once [OF this] run show ?thesis by (auto simp: asked_callbacks_def)
qed

end
