(* ===== verification/Start_Up.thy ===== *)
theory Start_Up
  imports Prelude
begin

text \<open>
  \<open>src/app/startup/start_ex.cpp\<close>: the start of a process. \<open>RunContentProcess\<close> initialises the process
  once, runs it and shuts it down; the build flags, the command line and what the runner returns are
  parameters. The directive on line 184 lacks the line break before its \<open>DCHECK\<close>; the model has the
  check the line spells. The observer of tracing sessions and the signal set-up are modelled beside it.
\<close>

section \<open>Build flags and command line\<close>

datatype os = IS_ANDROID | IS_CHROMEOS | IS_IOS bool | IS_LINUX | IS_MAC | IS_WIN

text \<open>\<open>IS_IOS True\<close> is tvOS. The families of \<open>build/build_config.h\<close>.\<close>

fun IS_POSIX :: "os \<Rightarrow> bool" where
  "IS_POSIX IS_WIN = False"
| "IS_POSIX _ = True"

fun IS_APPLE :: "os \<Rightarrow> bool" where
  "IS_APPLE IS_MAC = True"
| "IS_APPLE (IS_IOS _) = True"
| "IS_APPLE _ = False"

fun is_ios :: "os \<Rightarrow> bool" where
  "is_ios (IS_IOS _) = True"
| "is_ios _ = False"

record build =
  build_os :: os
  USE_ALLOCATOR_SHIM :: bool
  COMPONENT_BUILD :: bool
  OFFICIAL_BUILD :: bool

text \<open>The switches the file reads or appends, which its headers spell as different strings.\<close>

datatype switch =
    kProcessType | kDisableInProcessStackTraces | kTimeTicksAtUnixEpoch | kEnableViewport | kUseMobileUserAgent
  | kSingleProcess | kEnableSpatialNavigation | kHeadless | kEnableLogging

text \<open>\<open>base::CommandLine\<close>: the values of its switches, empty for a switch without a value.\<close>

type_synonym command_line = "switch \<rightharpoonup> string"

definition HasSwitch :: "command_line \<Rightarrow> switch \<Rightarrow> bool" where
  "HasSwitch cl sw \<longleftrightarrow> cl sw \<noteq> None"

definition GetSwitchValueASCII :: "command_line \<Rightarrow> switch \<Rightarrow> string" where
  "GetSwitchValueASCII cl sw = (case cl sw of Some v \<Rightarrow> v | None \<Rightarrow> [])"

definition AppendSwitch :: "switch \<Rightarrow> command_line \<Rightarrow> command_line" where
  "AppendSwitch sw cl = cl(sw \<mapsto> [])"

text \<open>The names of the process types, from the headers.\<close>

record process_types =
  kGpuProcess :: string
  kRendererProcess :: string
  kUtilityProcess :: string
  kZygoteProcess :: string

definition IsSubprocess :: "process_types \<Rightarrow> command_line \<Rightarrow> bool" where
  "IsSubprocess T cl =
     (let type = GetSwitchValueASCII cl kProcessType
      in type = kGpuProcess T \<or> type = kRendererProcess T \<or> type = kUtilityProcess T \<or> type = kZygoteProcess T)"

section \<open>Signals\<close>

datatype signal =
    SIGPIPE | SIGHUP | SIGINT | SIGQUIT | SIGILL | SIGABRT | SIGFPE | SIGSEGV | SIGALRM | SIGTERM | SIGCHLD
  | SIGBUS | SIGTRAP | OtherSignal nat

datatype disposition = SIG_DFL | SIG_IGN | Handler nat

record signal_state =
  handlers :: "signal \<Rightarrow> disposition"
  blocked_signals :: "signal set"

text \<open>Which of the system calls fail: \<open>signal\<close>, \<open>sigemptyset\<close>, \<open>sigprocmask\<close>, \<open>sigaction\<close>.\<close>

record signal_calls =
  signal_ok :: "signal \<Rightarrow> bool"
  sigemptyset_ok :: bool
  sigprocmask_ok :: bool
  sigaction_ok :: "signal \<Rightarrow> bool"

definition signals_to_reset :: "signal list" where
  "signals_to_reset = [SIGHUP, SIGINT, SIGQUIT, SIGILL, SIGABRT, SIGFPE, SIGSEGV, SIGALRM, SIGTERM, SIGCHLD, SIGBUS, SIGTRAP]"

fun reset_signals :: "signal_calls \<Rightarrow> signal list \<Rightarrow> signal_state \<Rightarrow> signal_state checked" where
  "reset_signals C [] s = Inr s"
| "reset_signals C (sig # sigs) s =
     check (sigaction_ok C sig) ''sigaction'' (reset_signals C sigs (s\<lparr>handlers := (handlers s)(sig := SIG_DFL)\<rparr>))"

definition SetupSignalHandlers :: "signal_calls \<Rightarrow> command_line \<Rightarrow> signal_state \<Rightarrow> signal_state checked" where
  "SetupSignalHandlers C cl s =
     check (signal_ok C SIGPIPE) ''signal'' (
       let s' = s\<lparr>handlers := (handlers s)(SIGPIPE := SIG_IGN)\<rparr>
       in if HasSwitch cl kDisableInProcessStackTraces then Inr s'
          else check (sigemptyset_ok C) ''sigemptyset'' (
               check (sigprocmask_ok C) ''sigprocmask'' (
                 reset_signals C signals_to_reset (s'\<lparr>blocked_signals := {}\<rparr>))))"

section \<open>The observer of tracing sessions\<close>

text \<open>\<open>True\<close> when the sample metadata is in place; \<open>emplace\<close> replaces what is there.\<close>

record tracing_observer =
  apply_sample_metadata :: bool

definition TracingEnabledStateObserver :: "bool \<Rightarrow> tracing_observer" where
  "TracingEnabledStateObserver is_enabled = \<lparr>apply_sample_metadata = is_enabled\<rparr>"

definition tracing_OnStart :: "tracing_observer \<Rightarrow> tracing_observer" where
  "tracing_OnStart t = t\<lparr>apply_sample_metadata := True\<rparr>"

definition tracing_OnStop :: "bool \<Rightarrow> tracing_observer \<Rightarrow> tracing_observer" where
  "tracing_OnStop is_enabled_on_stop t =
     (if \<not> is_enabled_on_stop then t\<lparr>apply_sample_metadata := False\<rparr> else t)"

text \<open>The sessions that come and go; \<open>IsEnabledOnStop\<close> tells whether another one is left.\<close>

datatype session_event = SessionStart | SessionStop

fun observe_sessions :: "nat \<Rightarrow> tracing_observer \<Rightarrow> session_event list \<Rightarrow> nat \<times> tracing_observer" where
  "observe_sessions n t [] = (n, t)"
| "observe_sessions n t (SessionStart # es) = observe_sessions (n + 1) (tracing_OnStart t) es"
| "observe_sessions n t (SessionStop # es) = observe_sessions (n - 1) (tracing_OnStop (n - 1 \<noteq> 0) t) es"

section \<open>Running a process\<close>

text \<open>The calls on the surroundings, in their order. Windows console routes carry their argument.\<close>

datatype start_call =
    FailOnFeatureAccessWithoutFeatureList
  | ReInitializeParams
  | InitializeAllocatorShim
  | EnableTerminationOnOutOfMemory
  | RegisterAbslAbortHook
  | DisableDBusSession
  | RegisterInvalidParamHandler
  | InitCommandLine "string list"
  | PopulateFileDescriptorStoreFromFdTable
  | EnableTerminationOnHeapCorruption
  | SetProcessTitleFromCommandLine "string list option"
  | SetSharedUnixEpoch int
  | SetLocaleAll
  | SetLocaleNumericC
  | SignalsSetUp
  | SetupCRT
  | InitializeMac
  | EnableFDOwnershipEnforcement
  | RegisterPathProvider
  | Initialize
  | RouteStdioToConsole bool
  | CreateTracingObserver
  | PostAndPeekMessage
  | LoadDbghelp
  | RunRunner
  | Shutdown

text \<open>
  What the process finds: the arguments, how they parse (on Windows they are taken from the system), the
  numbers \<open>base::StringToInt64\<close> accepts, the results of the system calls and of the runner.
\<close>

record start_env =
  arguments :: "string list"
  parse_arguments :: "string list \<Rightarrow> command_line"
  StringToInt64 :: "string \<Rightarrow> int option"
  sys_signals :: signal_calls
  IsUser32AndGdi32Available :: bool
  tracing_enabled :: bool
  initialize_result :: int
  run_result :: int

record process =
  is_initialized :: bool
  cmd_line :: command_line
  signals :: signal_state
  tracing_observer_of :: "tracing_observer option"

text \<open>An action extends the process and its calls, or fails a check.\<close>

type_synonym start_action = "process \<times> start_call list \<Rightarrow> (process \<times> start_call list) checked"

definition call :: "start_call \<Rightarrow> start_action" where
  "call c = (\<lambda>(p, cs). Inr (p, cs @ [c]))"

definition skip :: start_action where
  "skip = Inr"

definition on :: "bool \<Rightarrow> start_action \<Rightarrow> start_action" where
  "on b a = (if b then a else skip)"

definition change :: "(process \<Rightarrow> process) \<Rightarrow> start_action" where
  "change f = (\<lambda>(p, cs). Inr (f p, cs))"

fun sequentially :: "start_action list \<Rightarrow> start_action" where
  "sequentially [] s = Inr s"
| "sequentially (a # as) s = bindE (a s) (sequentially as)"

text \<open>The steps of \<open>InitTimeTicksAtUnixEpoch\<close> and \<open>CommonSubprocessInit\<close> read the command line they find.\<close>

definition InitTimeTicksAtUnixEpoch :: "start_env \<Rightarrow> start_action" where
  "InitTimeTicksAtUnixEpoch E = (\<lambda>(p, cs).
     if \<not> HasSwitch (cmd_line p) kTimeTicksAtUnixEpoch then Inr (p, cs)
     else (case StringToInt64 E (GetSwitchValueASCII (cmd_line p) kTimeTicksAtUnixEpoch) of
             None \<Rightarrow> Inr (p, cs)
           | Some micro \<Rightarrow> call (SetSharedUnixEpoch micro) (p, cs)))"

definition CommonSubprocessInit :: "build \<Rightarrow> start_env \<Rightarrow> start_action" where
  "CommonSubprocessInit B E = sequentially [
     on (build_os B = IS_WIN \<and> IsUser32AndGdi32Available E) (call PostAndPeekMessage),
     on (\<not> OFFICIAL_BUILD B \<and> build_os B = IS_WIN) (sequentially [call (RouteStdioToConsole False), call LoadDbghelp])]"

definition set_up_signals :: "start_env \<Rightarrow> start_action" where
  "set_up_signals E = (\<lambda>(p, cs).
     bindE (SetupSignalHandlers (sys_signals E) (cmd_line p) (signals p)) (\<lambda>s. Inr (p\<lparr>signals := s\<rparr>, cs @ [SignalsSetUp])))"

text \<open>The steps of the first call up to \<open>Initialize\<close>, and those after it returned a negative code.\<close>

definition set_up_process :: "build \<Rightarrow> start_env \<Rightarrow> start_action" where
  "set_up_process B E =
     (let b = build_os B
      in sequentially [
        on (IS_APPLE b \<and> USE_ALLOCATOR_SHIM B) (call InitializeAllocatorShim),
        call EnableTerminationOnOutOfMemory,
        call RegisterAbslAbortHook,
        on (b = IS_LINUX \<or> b = IS_CHROMEOS) (call DisableDBusSession),
        on (b = IS_WIN) (call RegisterInvalidParamHandler),
        on (b \<noteq> IS_ANDROID) (sequentially [
          call (InitCommandLine (if b = IS_WIN then [] else arguments E)),
          change (cmd_line_update (\<lambda>_. parse_arguments E (if b = IS_WIN then [] else arguments E))),
          on (IS_POSIX b) (call PopulateFileDescriptorStoreFromFdTable),
          call EnableTerminationOnHeapCorruption,
          call (SetProcessTitleFromCommandLine (if b = IS_WIN then None else Some (arguments E)))]),
        InitTimeTicksAtUnixEpoch E,
        on (IS_POSIX b \<and> b \<noteq> IS_ANDROID) (sequentially [
          call SetLocaleAll, call SetLocaleNumericC, set_up_signals E]),
        on (b = IS_WIN) (call SetupCRT),
        on (b = IS_MAC) (call InitializeMac),
        on (is_ios b) (sequentially [
          change (cmd_line_update (AppendSwitch kEnableViewport)),
          change (cmd_line_update (AppendSwitch kUseMobileUserAgent)),
          on (b = IS_IOS True) (sequentially [
            change (cmd_line_update (AppendSwitch kSingleProcess)),
            change (cmd_line_update (AppendSwitch kEnableSpatialNavigation))])]),
        on ((b = IS_CHROMEOS \<or> b = IS_LINUX) \<and> \<not> COMPONENT_BUILD B) (call EnableFDOwnershipEnforcement),
        call RegisterPathProvider,
        call Initialize])"

definition before_initialize :: "build \<Rightarrow> start_env \<Rightarrow> start_action" where
  "before_initialize B E = sequentially [change (is_initialized_update (\<lambda>_. True)), set_up_process B E]"

definition after_initialize :: "build \<Rightarrow> start_env \<Rightarrow> start_action" where
  "after_initialize B E = sequentially [
     on (build_os B = IS_WIN) (\<lambda>(p, cs).
       if HasSwitch (cmd_line p) kHeadless then call (RouteStdioToConsole False) (p, cs)
       else if HasSwitch (cmd_line p) kEnableLogging
       then call (RouteStdioToConsole (GetSwitchValueASCII (cmd_line p) kEnableLogging \<noteq> ''handle'')) (p, cs)
       else Inr (p, cs)),
     call CreateTracingObserver,
     change (tracing_observer_of_update (\<lambda>_. Some (TracingEnabledStateObserver (tracing_enabled E))))]"

definition run_and_shut_down :: "build \<Rightarrow> process_types \<Rightarrow> start_env \<Rightarrow> start_action" where
  "run_and_shut_down B T E = sequentially [
     \<lambda>(p, cs). on (IsSubprocess T (cmd_line p)) (CommonSubprocessInit B E) (p, cs),
     call RunRunner,
     on (build_os B \<noteq> IS_ANDROID \<and> \<not> is_ios (build_os B)) (call Shutdown)]"

definition RunContentProcess ::
    "build \<Rightarrow> process_types \<Rightarrow> process \<Rightarrow> start_env \<Rightarrow> (process \<times> start_call list \<times> int) checked" where
  "RunContentProcess B T p E =
     dcheck (build_os B = IS_ANDROID \<or> \<not> is_initialized p) ''!is_initialized'' (
       let start = (p, [FailOnFeatureAccessWithoutFeatureList])
       in if is_initialized p
          then bindE (sequentially [call ReInitializeParams, run_and_shut_down B T E] start)
                 (\<lambda>(p', cs). Inr (p', cs, run_result E))
          else bindE (before_initialize B E start) (\<lambda>s.
                 if initialize_result E \<ge> 0 then Inr (fst s, snd s, initialize_result E)
                 else bindE (sequentially [after_initialize B E, run_and_shut_down B T E] s)
                        (\<lambda>(p', cs). Inr (p', cs, run_result E))))"

text \<open>\<open>ContentMain\<close> called once per runner in one process, with the exit codes.\<close>

fun ContentMain_runs ::
    "build \<Rightarrow> process_types \<Rightarrow> process \<Rightarrow> start_env list \<Rightarrow> (process \<times> start_call list \<times> int list) checked" where
  "ContentMain_runs B T p [] = Inr (p, [], [])"
| "ContentMain_runs B T p (E # Es) =
     bindE (RunContentProcess B T p E) (\<lambda>(p', cs, code).
       bindE (ContentMain_runs B T p' Es) (\<lambda>(p'', cs', codes). Inr (p'', cs @ cs', code # codes)))"

text \<open>A process that has just been started; on Android its command line is already there.\<close>

definition new_process :: "command_line \<Rightarrow> signal_state \<Rightarrow> process" where
  "new_process cl s = \<lparr>is_initialized = False, cmd_line = cl, signals = s, tracing_observer_of = None\<rparr>"

section \<open>What the steps leave\<close>

lemma sequentially_Cons_Inr:
  "sequentially (a # as) s = Inr u \<longleftrightarrow> (\<exists>t. a s = Inr t \<and> sequentially as t = Inr u)"
  by (simp add: bindE_Inr_iff)

text \<open>The calls that mark the progress of a process.\<close>

definition milestone :: "start_call \<Rightarrow> bool" where
  "milestone c \<longleftrightarrow> c \<in> {ReInitializeParams, Initialize, RunRunner, Shutdown}"

text \<open>An action appends calls with the milestones \<open>L\<close> and leaves the process initialised if it was.\<close>

definition passes :: "start_action \<Rightarrow> start_call list \<Rightarrow> bool" where
  "passes a L \<longleftrightarrow> (\<forall>p cs p' cs'. a (p, cs) = Inr (p', cs') \<longrightarrow>
     is_initialized p' = is_initialized p \<and> (\<exists>ds. cs' = cs @ ds \<and> filter milestone ds = L))"

named_theorems passes_rules

lemma passes_Nil [passes_rules]: "passes (sequentially []) []"
  by (simp add: passes_def)

lemma passesD:
  "passes a L \<Longrightarrow> a (p, cs) = Inr (p', cs') \<Longrightarrow>
   is_initialized p' = is_initialized p \<and> (\<exists>ds. cs' = cs @ ds \<and> filter milestone ds = L)"
  by (simp add: passes_def)

lemma passes_Cons [passes_rules]:
  assumes "passes a L" and "passes (sequentially as) L'"
  shows "passes (sequentially (a # as)) (L @ L')"
proof (unfold passes_def, intro allI impI)
  fix p cs p' cs'
  assume "sequentially (a # as) (p, cs) = Inr (p', cs')"
  then obtain p1 cs1 where "a (p, cs) = Inr (p1, cs1)" "sequentially as (p1, cs1) = Inr (p', cs')"
    by (auto simp: bindE_Inr_iff)
  from passesD [OF assms(1) this(1)] passesD [OF assms(2) this(2)]
  show "is_initialized p' = is_initialized p \<and> (\<exists>ds. cs' = cs @ ds \<and> filter milestone ds = L @ L')"
    by auto
qed

lemma passes_call [passes_rules]: "passes (call c) (filter milestone [c])"
  by (simp add: passes_def call_def)

lemma passes_on [passes_rules]: "passes a L \<Longrightarrow> passes (on b a) (if b then L else [])"
  by (simp add: passes_def on_def skip_def)

lemma passes_change [passes_rules]:
  "(\<And>p. is_initialized (f p) = is_initialized p) \<Longrightarrow> passes (change f) []"
  by (simp add: passes_def change_def)

lemma passes_time_ticks [passes_rules]: "passes (InitTimeTicksAtUnixEpoch E) []"
  by (auto simp: passes_def InitTimeTicksAtUnixEpoch_def call_def milestone_def split: option.splits)

lemma passes_signals [passes_rules]: "passes (set_up_signals E) []"
  by (auto simp: passes_def set_up_signals_def milestone_def bindE_Inr_iff)

lemma passes_subprocess [passes_rules]: "passes (CommonSubprocessInit B E) []"
proof -
  have "passes (CommonSubprocessInit B E)
      ((if build_os B = IS_WIN \<and> IsUser32AndGdi32Available E then filter milestone [PostAndPeekMessage] else []) @
       (if \<not> OFFICIAL_BUILD B \<and> build_os B = IS_WIN
        then filter milestone [RouteStdioToConsole False] @ filter milestone [LoadDbghelp] @ [] else []) @ [])"
    unfolding CommonSubprocessInit_def by (intro passes_rules)
  then show ?thesis by (simp add: milestone_def cong: if_cong)
qed

definition shutdown_calls :: "build \<Rightarrow> start_call list" where
  "shutdown_calls B = (if build_os B \<noteq> IS_ANDROID \<and> \<not> is_ios (build_os B) then [Shutdown] else [])"

lemma passes_run: "passes (run_and_shut_down B T E) (RunRunner # shutdown_calls B)"
proof -
  have sub: "passes (\<lambda>(p, cs). on (IsSubprocess T (cmd_line p)) (CommonSubprocessInit B E) (p, cs)) []"
    using passes_subprocess [of B E] by (auto simp: passes_def on_def skip_def)
  have "passes (run_and_shut_down B T E) ([] @ filter milestone [RunRunner] @
      (if build_os B \<noteq> IS_ANDROID \<and> \<not> is_ios (build_os B) then filter milestone [Shutdown] else []) @ [])"
    unfolding run_and_shut_down_def by (intro passes_rules sub)
  then show ?thesis by (simp add: milestone_def shutdown_calls_def cong: if_cong)
qed

lemma passes_after: "passes (after_initialize B E) []"
proof -
  have route: "passes (on w (\<lambda>(p, cs).
       if HasSwitch (cmd_line p) kHeadless then call (RouteStdioToConsole False) (p, cs)
       else if HasSwitch (cmd_line p) kEnableLogging
       then call (RouteStdioToConsole (GetSwitchValueASCII (cmd_line p) kEnableLogging \<noteq> ''handle'')) (p, cs)
       else Inr (p, cs))) []" for w
    by (auto simp: passes_def on_def skip_def call_def milestone_def split: if_splits)
  have "passes (after_initialize B E) ([] @ filter milestone [CreateTracingObserver] @ [] @ [])"
    unfolding after_initialize_def by (intro passes_rules route) simp
  then show ?thesis by (simp add: milestone_def)
qed

lemma passes_eqI: "passes a L \<Longrightarrow> L = L' \<Longrightarrow> passes a L'"
  by simp

lemma passes_set_up: "passes (set_up_process B E) [Initialize]"
  unfolding set_up_process_def Let_def
  by (rule passes_eqI, (rule passes_rules | simp; fail)+) (simp add: milestone_def cong: if_cong)

lemma before_initialize_passes:
  assumes "before_initialize B E (p, cs) = Inr (p', cs')"
  shows "is_initialized p' \<and> (\<exists>ds. cs' = cs @ ds \<and> filter milestone ds = [Initialize])"
proof -
  from assms have "set_up_process B E (p\<lparr>is_initialized := True\<rparr>, cs) = Inr (p', cs')"
    by (simp add: before_initialize_def change_def bindE_Inr_iff)
  from passesD [OF passes_set_up this] show ?thesis by simp
qed

text \<open>The milestones of one call, its exit code, and what it leaves.\<close>

definition run_milestones :: "build \<Rightarrow> bool \<Rightarrow> start_env \<Rightarrow> start_call list" where
  "run_milestones B initialized E =
     (if initialized then ReInitializeParams # RunRunner # shutdown_calls B
      else if initialize_result E \<ge> 0 then [Initialize]
      else Initialize # RunRunner # shutdown_calls B)"

lemma RunContentProcess_milestones:
  assumes "RunContentProcess B T p E = Inr (p', cs, code)"
  shows "is_initialized p' \<and> (is_initialized p \<longrightarrow> build_os B = IS_ANDROID) \<and>
    filter milestone cs = run_milestones B (is_initialized p) E \<and>
    code = (if \<not> is_initialized p \<and> initialize_result E \<ge> 0 then initialize_result E else run_result E)"
proof (cases "is_initialized p")
  case True
  with assms obtain p1 where os: "build_os B = IS_ANDROID"
    and run: "sequentially [call ReInitializeParams, run_and_shut_down B T E] (p, [FailOnFeatureAccessWithoutFeatureList]) = Inr (p', cs)"
    and "code = run_result E"
    by (auto simp: RunContentProcess_def Let_def checked_iffs simp del: sequentially.simps)
  have "passes (sequentially [call ReInitializeParams, run_and_shut_down B T E])
      (filter milestone [ReInitializeParams] @ (RunRunner # shutdown_calls B) @ [])"
    by (intro passes_rules passes_run)
  from passesD [OF this run] True os \<open>code = _\<close> show ?thesis
    by (auto simp: run_milestones_def milestone_def)
next
  case False
  with assms obtain p1 cs1 where init: "before_initialize B E (p, [FailOnFeatureAccessWithoutFeatureList]) = Inr (p1, cs1)"
    and rest: "if initialize_result E \<ge> 0 then p' = p1 \<and> cs = cs1 \<and> code = initialize_result E
      else sequentially [after_initialize B E, run_and_shut_down B T E] (p1, cs1) = Inr (p', cs) \<and> code = run_result E"
    by (auto simp: RunContentProcess_def Let_def checked_iffs simp del: sequentially.simps split: if_splits)
  have "passes (sequentially [after_initialize B E, run_and_shut_down B T E]) ([] @ (RunRunner # shutdown_calls B) @ [])"
    by (intro passes_rules passes_run passes_after)
  note both = passesD [OF this, of p1 cs1 p' cs]
  show ?thesis
  proof (cases "initialize_result E \<ge> 0")
    case True
    with before_initialize_passes [OF init] rest False show ?thesis by (auto simp: run_milestones_def milestone_def)
  next
    case neg: False
    with rest both have "is_initialized p' = is_initialized p1" "code = run_result E"
      "\<exists>ds. cs = cs1 @ ds \<and> filter milestone ds = RunRunner # shutdown_calls B" by simp_all
    with before_initialize_passes [OF init] neg False show ?thesis by (auto simp: run_milestones_def milestone_def)
  qed
qed

section \<open>Properties\<close>

lemma later_runs:
  assumes "ContentMain_runs B T p Es = Inr (p', cs, codes)" and "is_initialized p"
  shows "filter milestone cs = concat (map (run_milestones B True) Es) \<and> codes = map run_result Es \<and>
    (Es \<noteq> [] \<longrightarrow> build_os B = IS_ANDROID)"
  using assms
proof (induction Es arbitrary: p cs codes)
  case Nil
  then show ?case by simp
next
  case (Cons E Es)
  from Cons.prems(1) obtain p1 cs1 code cs2 codes2 where one: "RunContentProcess B T p E = Inr (p1, cs1, code)"
    and rest: "ContentMain_runs B T p1 Es = Inr (p', cs2, codes2)" and "cs = cs1 @ cs2" "codes = code # codes2"
    by (auto simp: bindE_Inr_iff)
  with RunContentProcess_milestones [OF one] Cons.IH [OF rest] Cons.prems(2) show ?case by simp
qed

text \<open>
  C30. A process is initialised once. Whatever the first call of \<open>ContentMain\<close> returned, each later one
  (they pass only on Android) renews the parameters and runs without initialising again, and every run
  is followed by its shut-down exactly on the systems that shut down. The exit code is that of the
  initialisation when it is not negative, and then nothing runs.
\<close>

theorem process_initialised_once:
  assumes "ContentMain_runs B T (new_process cl s) (E # Es) = Inr (p, cs, codes)"
  shows "filter milestone cs = run_milestones B False E @ concat (map (run_milestones B True) Es) \<and>
    codes = (if initialize_result E \<ge> 0 then initialize_result E else run_result E) # map run_result Es \<and>
    (Es \<noteq> [] \<longrightarrow> build_os B = IS_ANDROID)"
proof -
  from assms obtain p1 cs1 code cs2 codes2 where one: "RunContentProcess B T (new_process cl s) E = Inr (p1, cs1, code)"
    and rest: "ContentMain_runs B T p1 Es = Inr (p, cs2, codes2)" and "cs = cs1 @ cs2" "codes = code # codes2"
    by (auto simp: bindE_Inr_iff)
  with RunContentProcess_milestones [OF one] later_runs [OF rest] show ?thesis by (simp add: new_process_def)
qed

text \<open>A sample: an Android build, its process types, and a runner that fails to initialise.\<close>

definition sample_types :: process_types where
  "sample_types = \<lparr>kGpuProcess = ''gpu'', kRendererProcess = ''renderer'', kUtilityProcess = ''utility'', kZygoteProcess = ''zygote''\<rparr>"

definition sample_env :: "int \<Rightarrow> start_env" where
  "sample_env init =
     \<lparr>arguments = [''main''], parse_arguments = (\<lambda>_. Map.empty), StringToInt64 = (\<lambda>_. None),
      sys_signals = \<lparr>signal_ok = (\<lambda>_. True), sigemptyset_ok = True, sigprocmask_ok = True, sigaction_ok = (\<lambda>_. True)\<rparr>,
      IsUser32AndGdi32Available = True, tracing_enabled = False, initialize_result = init, run_result = 7\<rparr>"

definition sample_build :: "os \<Rightarrow> build" where
  "sample_build b = \<lparr>build_os = b, USE_ALLOCATOR_SHIM = True, COMPONENT_BUILD = False, OFFICIAL_BUILD = False\<rparr>"

definition sample_signals :: signal_state where
  "sample_signals = \<lparr>handlers = (\<lambda>_. Handler 5), blocked_signals = {SIGPIPE}\<rparr>"

lemmas start_defs = RunContentProcess_def before_initialize_def set_up_process_def after_initialize_def
  run_and_shut_down_def InitTimeTicksAtUnixEpoch_def CommonSubprocessInit_def set_up_signals_def
  call_def change_def on_def skip_def new_process_def sample_types_def sample_env_def sample_build_def
  sample_signals_def IsSubprocess_def HasSwitch_def GetSwitchValueASCII_def Let_def

theorem process_initialised_once_witness:
  "\<exists>p cs. ContentMain_runs (sample_build IS_ANDROID) sample_types (new_process Map.empty sample_signals)
        [sample_env 3, sample_env (-1)] = Inr (p, cs, [3, 7]) \<and>
      filter milestone cs = [Initialize, ReInitializeParams, RunRunner]"
proof -
  obtain p cs codes where run: "ContentMain_runs (sample_build IS_ANDROID) sample_types (new_process Map.empty sample_signals)
        [sample_env 3, sample_env (-1)] = Inr (p, cs, codes)"
    by (simp add: start_defs)
  from process_initialised_once [OF this] run show ?thesis
    by (auto simp: run_milestones_def shutdown_calls_def sample_env_def sample_build_def)
qed

lemma reset_signals_value:
  "reset_signals C sigs s = Inr s' \<Longrightarrow>
     handlers s' = (\<lambda>sig. if sig \<in> set sigs then SIG_DFL else handlers s sig) \<and> blocked_signals s' = blocked_signals s"
proof (induction sigs arbitrary: s)
  case Nil
  then show ?case by simp
next
  case (Cons sig sigs)
  from Cons.IH [of "s\<lparr>handlers := (handlers s)(sig := SIG_DFL)\<rparr>"] Cons.prems show ?case
    by (auto simp: check_Inr_iff)
qed

lemma SetupSignalHandlers_value:
  assumes "SetupSignalHandlers C cl s = Inr s'"
  shows "handlers s' = (\<lambda>sig. if sig = SIGPIPE then SIG_IGN
      else if \<not> HasSwitch cl kDisableInProcessStackTraces \<and> sig \<in> set signals_to_reset then SIG_DFL else handlers s sig) \<and>
    blocked_signals s' = (if HasSwitch cl kDisableInProcessStackTraces then blocked_signals s else {})"
proof (cases "HasSwitch cl kDisableInProcessStackTraces")
  case True
  with assms show ?thesis by (auto simp: SetupSignalHandlers_def checked_iffs)
next
  case False
  with assms have "reset_signals C signals_to_reset
      (s\<lparr>handlers := (handlers s)(SIGPIPE := SIG_IGN), blocked_signals := {}\<rparr>) = Inr s'"
    by (simp add: SetupSignalHandlers_def checked_iffs)
  from reset_signals_value [OF this] False show ?thesis
    by (auto simp: signals_to_reset_def)
qed

text \<open>
  After the signals are set up, a broken pipe no longer ends the process: \<open>SIGPIPE\<close> is ignored, also by
  the loop that resets the others. Unless in-process stack traces are disabled by the switch, every signal of
  the list has its default action and none is blocked; all others keep their handlers. The set-up returns
  whenever the system calls do.
\<close>

theorem signals_set_up:
  "(\<exists>s'. SetupSignalHandlers C cl s = Inr s') =
     (signal_ok C SIGPIPE \<and> (HasSwitch cl kDisableInProcessStackTraces \<or>
       sigemptyset_ok C \<and> sigprocmask_ok C \<and> list_all (sigaction_ok C) signals_to_reset)) \<and>
   (\<forall>s'. SetupSignalHandlers C cl s = Inr s' \<longrightarrow>
      handlers s' = (\<lambda>sig. if sig = SIGPIPE then SIG_IGN
        else if \<not> HasSwitch cl kDisableInProcessStackTraces \<and> sig \<in> set signals_to_reset then SIG_DFL else handlers s sig) \<and>
      blocked_signals s' = (if HasSwitch cl kDisableInProcessStackTraces then blocked_signals s else {}))"
proof -
  have reset: "(\<exists>u'. reset_signals C sigs u = Inr u') \<longleftrightarrow> list_all (sigaction_ok C) sigs" for sigs u
    by (induction sigs arbitrary: u) (auto simp: check_Inr_iff)
  have "(\<exists>s'. SetupSignalHandlers C cl s = Inr s') =
     (signal_ok C SIGPIPE \<and> (HasSwitch cl kDisableInProcessStackTraces \<or>
       sigemptyset_ok C \<and> sigprocmask_ok C \<and> list_all (sigaction_ok C) signals_to_reset))"
    by (cases "HasSwitch cl kDisableInProcessStackTraces")
      (simp_all add: SetupSignalHandlers_def checked_iffs reset Let_def)
  then show ?thesis using SetupSignalHandlers_value by blast
qed

theorem signals_set_up_witness:
  "\<exists>s'. SetupSignalHandlers (sys_signals (sample_env 0)) Map.empty sample_signals = Inr s' \<and>
     handlers s' SIGPIPE = SIG_IGN \<and> handlers s' SIGTERM = SIG_DFL \<and> handlers s' (OtherSignal 9) = Handler 5 \<and>
     blocked_signals s' = {}"
proof -
  note all = signals_set_up [of "sys_signals (sample_env 0)" Map.empty sample_signals]
  from conjunct1 [OF all] obtain s' where s': "SetupSignalHandlers (sys_signals (sample_env 0)) Map.empty sample_signals = Inr s'"
    by (auto simp: sample_env_def list_all_iff)
  with conjunct2 [OF all, rule_format, OF s'] show ?thesis
    by (intro exI [of _ s']) (simp add: HasSwitch_def signals_to_reset_def sample_signals_def)
qed

text \<open>
  The sample metadata is in place exactly while a tracing session is running, whatever sessions were
  running when the observer was made: the observer refines the number of sessions to whether it is zero.
\<close>

theorem metadata_follows_sessions:
  "observe_sessions n (TracingEnabledStateObserver (n \<noteq> 0)) es = (m, t) \<Longrightarrow> apply_sample_metadata t \<longleftrightarrow> m \<noteq> 0"
proof (induction es arbitrary: n)
  case Nil
  then show ?case by (auto simp: TracingEnabledStateObserver_def)
next
  case (Cons e es)
  have "tracing_OnStart (TracingEnabledStateObserver (n \<noteq> 0)) = TracingEnabledStateObserver (n + 1 \<noteq> 0)"
    "tracing_OnStop (n - 1 \<noteq> 0) (TracingEnabledStateObserver (n \<noteq> 0)) = TracingEnabledStateObserver (n - 1 \<noteq> 0)"
    by (auto simp: tracing_OnStart_def tracing_OnStop_def TracingEnabledStateObserver_def)
  with Cons show ?case by (cases e) (metis observe_sessions.simps(2), metis observe_sessions.simps(3))
qed

theorem metadata_follows_sessions_witness:
  "apply_sample_metadata (snd (observe_sessions 1 (TracingEnabledStateObserver True) [SessionStart, SessionStop])) \<and>
   \<not> apply_sample_metadata (snd (observe_sessions 1 (TracingEnabledStateObserver True) [SessionStop, SessionStart, SessionStop]))"
  using metadata_follows_sessions [of 1 "[SessionStart, SessionStop]" 1 "snd (observe_sessions 1 (TracingEnabledStateObserver True) [SessionStart, SessionStop])"]
    metadata_follows_sessions [of 1 "[SessionStop, SessionStart, SessionStop]" 0 "snd (observe_sessions 1 (TracingEnabledStateObserver True) [SessionStop, SessionStart, SessionStop])"]
  by simp

end
