(* ===== verification/C_Text.thy ===== *)
theory C_Text
  imports Prelude "HOL-Library.Char_ord" "HOL-Library.Word"
begin

text \<open>
  Text as the C sources handle it. A C string is a list of characters without the terminating NUL;
  a pointer into it is what is left of it, so the character it points at is \<open>peek\<close>, NUL at the end.
  Character classes, numerals in a base and their value, and the number readers of the C library.
\<close>

section \<open>Characters\<close>

definition NUL :: char where "NUL = CHR 0x00"

definition peek :: "string \<Rightarrow> char" where
  "peek s = (case s of [] \<Rightarrow> NUL | c # _ \<Rightarrow> c)"

lemma peek_simps [simp]: "peek [] = NUL" "peek (c # s) = c"
  by (simp_all add: peek_def)

definition isdigit :: "char \<Rightarrow> bool" where
  "isdigit c \<longleftrightarrow> c \<in> {CHR ''0'', CHR ''1'', CHR ''2'', CHR ''3'', CHR ''4'', CHR ''5'', CHR ''6'', CHR ''7'', CHR ''8'', CHR ''9''}"

definition isxdigit :: "char \<Rightarrow> bool" where
  "isxdigit c \<longleftrightarrow> isdigit c \<or>
     c \<in> {CHR ''a'', CHR ''b'', CHR ''c'', CHR ''d'', CHR ''e'', CHR ''f'', CHR ''A'', CHR ''B'', CHR ''C'', CHR ''D'', CHR ''E'', CHR ''F''}"

text \<open>Printing and reading one digit; upper case letters are read like lower case ones.\<close>

definition digit_char :: "nat \<Rightarrow> char" where
  "digit_char d = ''0123456789abcdef'' ! d"

definition digit_value :: "char \<Rightarrow> nat" where
  "digit_value c =
     (if isdigit c then of_char c - 48
      else if c \<in> {CHR ''a'', CHR ''b'', CHR ''c'', CHR ''d'', CHR ''e'', CHR ''f''} then of_char c - 87
      else of_char c - 55)"

lemma below_16:
  "d < 16 \<longleftrightarrow> d \<in> {0::nat, 1, 2, 3, 4, 5, 6, 7, 8, 9, 10, 11, 12, 13, 14, 15}"
  by (simp, presburger)

lemma digit_char_value [simp]: "d < 16 \<Longrightarrow> digit_value (digit_char d) = d"
  unfolding below_16 by (auto simp: digit_char_def digit_value_def isdigit_def)

lemma digit_char_xdigit [simp]: "d < 16 \<Longrightarrow> isxdigit (digit_char d)"
  unfolding below_16 by (auto simp: digit_char_def isxdigit_def isdigit_def)

lemma digit_char_digit [simp]: "d < 10 \<Longrightarrow> isdigit (digit_char d)"
proof -
  assume "d < 10"
  then have "d \<in> {0, 1, 2, 3, 4, 5, 6, 7, 8, 9}" by auto
  then show ?thesis by (auto simp: digit_char_def isdigit_def)
qed

lemma isdigit_isxdigit: "isdigit c \<Longrightarrow> isxdigit c"
  by (simp add: isxdigit_def)

lemma class_of_separators [simp]:
  "\<not> isxdigit NUL" "\<not> isdigit NUL" "\<not> isxdigit CHR '':''" "\<not> isdigit CHR '':''" "\<not> isxdigit CHR ''.''" "\<not> isdigit CHR ''.''"
  "\<not> isxdigit CHR ''x''" "\<not> isxdigit CHR ''X''" "\<not> isdigit CHR ''-''"
  by (auto simp: isxdigit_def isdigit_def NUL_def)

lemma digit_value_less: "isxdigit c \<Longrightarrow> digit_value c < 16"
  unfolding isxdigit_def isdigit_def insert_iff empty_iff by (elim disjE FalseE; simp add: digit_value_def isdigit_def)

lemma peek_dropWhile: "\<not> P NUL \<Longrightarrow> \<not> P (peek (dropWhile P s))"
  by (induction s) auto

section \<open>Numerals\<close>

text \<open>What \<open>%d\<close> (base 10) and \<open>%x\<close> (base 16) print of a number that is not negative.\<close>

function numeral :: "nat \<Rightarrow> nat \<Rightarrow> string" where
  "numeral b n = (if n < b \<or> b < 2 then [digit_char n] else numeral b (n div b) @ [digit_char (n mod b)])"
  by auto

termination by (relation "measure snd") auto

declare numeral.simps [simp del]

definition numeral_value :: "nat \<Rightarrow> string \<Rightarrow> nat" where
  "numeral_value b s = foldl (\<lambda>v c. v * b + digit_value c) 0 s"

lemma numeral_value_snoc [simp]: "numeral_value b (s @ [c]) = numeral_value b s * b + digit_value c"
  by (simp add: numeral_value_def)

lemma numeral_value_Nil [simp]: "numeral_value b [] = 0"
  by (simp add: numeral_value_def)

lemma numeral_not_Nil [simp]: "numeral b n \<noteq> []"
  by (subst numeral.simps) simp

lemma numeral_value_numeral [simp]:
  assumes "2 \<le> b" "b \<le> 16"
  shows "numeral_value b (numeral b n) = n"
  using assms
proof (induction b n rule: numeral.induct)
  case (1 b n)
  show ?case
  proof (cases "n < b")
    case True
    with 1(3) show ?thesis by (subst numeral.simps) (simp add: numeral_value_def)
  next
    case False
    then have "numeral b n = numeral b (n div b) @ [digit_char (n mod b)]"
      using 1(2) by (subst numeral.simps) simp
    moreover have "n mod b < 16" using 1(2,3) mod_less_divisor [of b n] by linarith
    ultimately show ?thesis using 1 False by simp
  qed
qed

lemma numeral_xdigits: "2 \<le> b \<Longrightarrow> b \<le> 16 \<Longrightarrow> list_all isxdigit (numeral b n)"
proof (induction b n rule: numeral.induct)
  case (1 b n)
  have "n mod b < 16" using 1(2,3) mod_less_divisor [of b n] by linarith
  then show ?case using 1 by (subst numeral.simps) auto
qed

lemma numeral_digits: "list_all isdigit (numeral 10 n)"
proof (induction "10::nat" n rule: numeral.induct)
  case (1 n)
  then show ?case by (subst numeral.simps) auto
qed

lemma numeral_length: "2 \<le> b \<Longrightarrow> n < b ^ k \<Longrightarrow> 0 < k \<Longrightarrow> length (numeral b n) \<le> k"
proof (induction b n arbitrary: k rule: numeral.induct)
  case (1 b n)
  show ?case
  proof (cases "n < b")
    case True
    with 1(4) show ?thesis by (subst numeral.simps) simp
  next
    case False
    with 1(3,4) obtain m where k: "k = Suc m" "0 < m" by (cases k; cases "k - 1") auto
    have "n div b < b ^ m" using 1(2,3) k by (simp add: less_mult_imp_div_less mult.commute)
    with 1 False k have "length (numeral b (n div b)) \<le> m" by simp
    then show ?thesis using k False 1(2) by (subst numeral.simps) simp
  qed
qed

text \<open>A numeral starts with \<open>0\<close> only when it is \<open>0\<close>.\<close>

lemma numeral_no_leading_zero:
  "2 \<le> b \<Longrightarrow> b \<le> 16 \<Longrightarrow> hd (numeral b n) = CHR ''0'' \<Longrightarrow> length (numeral b n) = 1"
proof (induction b n rule: numeral.induct)
  case (1 b n)
  show ?case
  proof (cases "n < b")
    case True
    then show ?thesis by (subst numeral.simps) simp
  next
    case False
    then have eq: "numeral b n = numeral b (n div b) @ [digit_char (n mod b)]"
      using 1(2) by (subst numeral.simps) simp
    with 1(4) have zero: "hd (numeral b (n div b)) = CHR ''0''" by simp
    with 1 False have "length (numeral b (n div b)) = 1" by simp
    then obtain c where c: "numeral b (n div b) = [c]" by (auto simp: length_Suc_conv)
    with zero have "numeral_value b (numeral b (n div b)) = 0" by (simp add: numeral_value_def digit_value_def isdigit_def)
    with 1(2,3) have "n div b = 0" by simp
    with False 1(2) show ?thesis by (simp add: div_eq_0_iff)
  qed
qed

section \<open>Reading numbers\<close>

text \<open>
  \<open>strtol(s, &next, 16)\<close> for text that starts with a hexadecimal digit, so without white space or sign:
  the value, at most \<open>LONG_MAX\<close>, and what is left. A prefix \<open>0x\<close> is skipped when a digit follows it.
\<close>

definition LONG_MAX :: int where "LONG_MAX = 9223372036854775807"

definition strtol16 :: "string \<Rightarrow> int \<times> string" where
  "strtol16 s =
     (let t = (case s of
                 z # x # d # r \<Rightarrow> if z = CHR ''0'' \<and> (x = CHR ''x'' \<or> x = CHR ''X'') \<and> isxdigit d then d # r else s
               | _ \<Rightarrow> s)
      in (min (int (numeral_value 16 (takeWhile isxdigit t))) LONG_MAX, dropWhile isxdigit t))"

lemma strtol16_no_prefix:
  assumes "list_all isxdigit s" and "s \<noteq> []" and "\<not> isxdigit (peek r)" and "length s = 1 \<longrightarrow> peek r \<noteq> CHR ''x'' \<and> peek r \<noteq> CHR ''X''"
  shows "strtol16 (s @ r) = (min (int (numeral_value 16 s)) LONG_MAX, r)"
proof -
  have digits: "takeWhile isxdigit (s @ r) = s" "dropWhile isxdigit (s @ r) = r"
    using assms(1,3) by (cases r; simp add: list_all_iff)+
  have "(case s @ r of z # x # d # q \<Rightarrow>
      if z = CHR ''0'' \<and> (x = CHR ''x'' \<or> x = CHR ''X'') \<and> isxdigit d then d # q else s @ r | _ \<Rightarrow> s @ r) = s @ r"
    using assms by (cases s; cases "tl s"; cases r) (auto split: list.splits)
  with digits show ?thesis unfolding strtol16_def Let_def by simp
qed

text \<open>
  \<open>strtol(s, &next, 10)\<close>: white space, a sign and digits; 0 when there are none, and the value is kept
  within the range of \<open>long\<close>. The cast of a \<open>long\<close> to \<open>int\<close> keeps the low 32 bits.
\<close>

definition isspace :: "char \<Rightarrow> bool" where
  "isspace c \<longleftrightarrow> c \<in> {CHR '' '', CHR 0x09, CHR 0x0A, CHR 0x0B, CHR 0x0C, CHR 0x0D}"

definition strtol10 :: "string \<Rightarrow> int" where
  "strtol10 s =
     (let t = dropWhile isspace s;
          neg = peek t = CHR ''-'';
          u = (if neg \<or> peek t = CHR ''+'' then drop 1 t else t);
          v = int (numeral_value 10 (takeWhile isdigit u))
      in if neg then max (- v) (- LONG_MAX - 1) else min v LONG_MAX)"

definition int_of_long :: "int \<Rightarrow> int" where
  "int_of_long x = sint (word_of_int x :: 32 word)"

lemma sint_small: "- 2147483648 \<le> x \<Longrightarrow> x < 2147483648 \<Longrightarrow> sint (word_of_int x :: 32 word) = x"
  by (simp add: signed_of_int signed_take_bit_int_eq_self)

section \<open>Splitting text\<close>

text \<open>The parts of a text between the occurrences of a character, and the text made of parts.\<close>

fun split_on :: "char \<Rightarrow> string \<Rightarrow> string list" where
  "split_on c [] = [[]]"
| "split_on c (x # xs) = (if x = c then [] # split_on c xs
     else (case split_on c xs of [] \<Rightarrow> [[x]] | y # ys \<Rightarrow> (x # y) # ys))"

fun join_with :: "char \<Rightarrow> string list \<Rightarrow> string" where
  "join_with c [] = []"
| "join_with c [s] = s"
| "join_with c (s # t # ss) = s @ c # join_with c (t # ss)"

lemma split_on_not_Nil [simp]: "split_on c s \<noteq> []"
  by (induction s) (auto split: list.split)

lemma join_split [simp]: "join_with c (split_on c s) = s"
proof (induction s)
  case Nil
  then show ?case by simp
next
  case (Cons x xs)
  obtain y ys where "split_on c xs = y # ys" by (cases "split_on c xs") auto
  with Cons show ?case by (cases ys) auto
qed

lemma split_on_part [simp]: "c \<notin> set s \<Longrightarrow> split_on c s = [s]"
  by (induction s) auto

lemma split_on_sep [simp]: "c \<notin> set s \<Longrightarrow> split_on c (s @ c # t) = s # split_on c t"
  by (induction s) (auto split: list.split)

lemma split_on_parts: "p \<in> set (split_on c s) \<Longrightarrow> c \<notin> set p"
proof (induction s arbitrary: p)
  case Nil
  then show ?case by simp
next
  case (Cons x xs)
  then show ?case by (auto split: if_splits list.splits)
qed

end
