(* ===== verification/Inet_Addr.thy ===== *)
theory Inet_Addr
  imports C_Text
begin

unbundle bit_operations_syntax

text \<open>
  \<open>src/networking/add.c\<close>: network addresses as text. An IPv4 address is its 32 bits in host order
  (\<open>htonl\<close> and \<open>ntohl\<close> cancel), an IPv6 address its sixteen bytes. Tor's own \<open>tor_sscanf\<close>,
  \<open>tor_snprintf\<close> and \<open>smartlist_split_string\<close> are parameters; the locale \<open>inet_laws\<close> states what the
  code relies on.
\<close>

section \<open>What the file calls\<close>

text \<open>
  \<open>sscanf_quad\<close> is \<open>tor_sscanf(s, "%3u.%3u.%3u.%3u%c", ...)\<close> when it returns 4. \<open>tor_snprintf\<close> takes
  the size of the buffer and the formatted text, and gives its result and what the buffer then holds.
\<close>

record inet_lib =
  sscanf_quad :: "string \<Rightarrow> (nat \<times> nat \<times> nat \<times> nat) option"
  tor_snprintf :: "nat \<Rightarrow> string \<Rightarrow> int \<times> string"
  smartlist_split_string :: "string \<Rightarrow> char \<Rightarrow> string list"

text \<open>What \<open>%3u\<close> reads: one to three digits.\<close>

definition scanned :: "string \<Rightarrow> nat \<Rightarrow> bool" where
  "scanned A a \<longleftrightarrow> A \<noteq> [] \<and> length A \<le> 3 \<and> list_all isdigit A \<and> numeral_value 10 A = a"

locale inet_laws =
  fixes L :: inet_lib
  assumes quad: "sscanf_quad L s = Some (a, b, c, d) \<longleftrightarrow>
      (\<exists>A B C D. s = A @ CHR ''.'' # B @ CHR ''.'' # C @ CHR ''.'' # D \<and>
        scanned A a \<and> scanned B b \<and> scanned C c \<and> scanned D d)"
    and fits: "length s < n \<Longrightarrow> tor_snprintf L n s = (int (length s), s)"
    and truncated: "n \<le> length s \<Longrightarrow> fst (tor_snprintf L n s) < 0"
    and split: "smartlist_split_string L s sep = split_on sep s"

section \<open>IPv4\<close>

definition tor_inet_aton :: "inet_lib \<Rightarrow> string \<Rightarrow> 32 word option" where
  "tor_inet_aton L str =
     (case sscanf_quad L str of
        None \<Rightarrow> None
      | Some (a, b, c, d) \<Rightarrow>
          let sl = smartlist_split_string L str (CHR ''.'');
              is_octal = list_ex (\<lambda>octet. length octet > 1 \<and> peek octet = CHR ''0'') sl
          in if is_octal then None
             else if a > 255 then None
             else if b > 255 then None
             else if c > 255 then None
             else if d > 255 then None
             else Some (push_bit 24 (of_nat a) OR push_bit 16 (of_nat b) OR push_bit 8 (of_nat c) OR of_nat d))"

text \<open>The text \<open>%d.%d.%d.%d\<close>.\<close>

definition quad_text :: "nat \<Rightarrow> nat \<Rightarrow> nat \<Rightarrow> nat \<Rightarrow> string" where
  "quad_text a b c d = numeral 10 a @ CHR ''.'' # numeral 10 b @ CHR ''.'' # numeral 10 c @ CHR ''.'' # numeral 10 d"

definition octet :: "nat \<Rightarrow> 32 word \<Rightarrow> nat" where
  "octet n a = unat (drop_bit n a AND 0xff)"

definition tor_inet_ntoa :: "inet_lib \<Rightarrow> 32 word \<Rightarrow> nat \<Rightarrow> int \<times> string" where
  "tor_inet_ntoa L a buf_len = tor_snprintf L buf_len (quad_text (octet 24 a) (octet 16 a) (octet 8 a) (octet 0 a))"

section \<open>IPv6\<close>

text \<open>An address with its family; the address of another family is not looked at.\<close>

datatype family = AF_INET | AF_INET6 | AF_OTHER

datatype net_addr = In_Addr "32 word" | In6_Addr "8 word list" | Other_Addr

fun address_words :: "8 word list \<Rightarrow> 16 word list" where
  "address_words (hi # lo # bs) = (push_bit 8 (ucast hi) + ucast lo) # address_words bs"
| "address_words _ = []"

text \<open>
  The first longest run of zero words: the loop from word \<open>i\<close> on, with the position and length of the
  longest gap so far.
\<close>

function longest_gap :: "nat \<Rightarrow> 16 word list \<Rightarrow> int \<Rightarrow> nat \<Rightarrow> int \<times> nat" where
  "longest_gap i [] longestGapPos longestGapLen = (longestGapPos, longestGapLen)"
| "longest_gap i (w # ws) longestGapPos longestGapLen =
     (if w = 0 then
        let curGapLen = length (takeWhile (\<lambda>v. v = 0) (w # ws));
            rest = dropWhile (\<lambda>v. v = 0) (w # ws)
        in if curGapLen > longestGapLen then longest_gap (i + curGapLen) rest (int i) curGapLen
           else longest_gap (i + curGapLen) rest longestGapPos longestGapLen
      else longest_gap (i + 1) ws longestGapPos longestGapLen)"
  by pat_completeness auto

termination
  by (relation "measure (\<lambda>(i, ws, p, l). length ws)") (auto simp: less_Suc_eq_le length_dropWhile_le)

text \<open>The loop that prints the words: \<open>out\<close> is what the buffer of 64 bytes holds before \<open>cp\<close>.\<close>

function print_words :: "inet_lib \<Rightarrow> int \<Rightarrow> nat \<Rightarrow> 16 word list \<Rightarrow> string \<Rightarrow> string" where
  "print_words L longestGapPos i [] out = out"
| "print_words L longestGapPos i (w # ws) out =
     (if w = 0 \<and> longestGapPos = int i then
        print_words L longestGapPos (i + length (takeWhile (\<lambda>v. v = 0) (w # ws))) (dropWhile (\<lambda>v. v = 0) (w # ws))
          ((if i = 0 then out @ '':'' else out) @ '':'')
      else
        let out' = out @ snd (tor_snprintf L (64 - length out) (numeral 16 (unat w)))
        in print_words L longestGapPos (i + 1) ws (if i \<noteq> 7 then out' @ '':'' else out'))"
  by pat_completeness auto

termination
  by (relation "measure (\<lambda>(L, p, i, ws, out). length ws)") (auto simp: less_Suc_eq_le length_dropWhile_le)

definition tor_inet_ntop :: "inet_lib \<Rightarrow> net_addr \<Rightarrow> nat \<Rightarrow> string option" where
  "tor_inet_ntop L src len =
     (case src of
        In_Addr a \<Rightarrow> (let (r, dst) = tor_inet_ntoa L a len in if r < 0 then None else Some dst)
      | In6_Addr s6_addr \<Rightarrow>
          let w = address_words s6_addr;
              dotted = quad_text (unat (s6_addr ! 12)) (unat (s6_addr ! 13)) (unat (s6_addr ! 14)) (unat (s6_addr ! 15));
              buf =
                (if w ! 0 = 0 \<and> w ! 1 = 0 \<and> w ! 2 = 0 \<and> w ! 3 = 0 \<and> w ! 4 = 0 \<and>
                    ((w ! 5 = 0 \<and> w ! 6 \<noteq> 0 \<and> w ! 7 \<noteq> 0) \<or> w ! 5 = 0xffff)
                 then if w ! 5 = 0 then snd (tor_snprintf L 64 (''::'' @ dotted))
                      else snd (tor_snprintf L 64 (''::'' @ numeral 16 (unat (w ! 5)) @ '':'' @ dotted))
                 else
                   let (longestGapPos, longestGapLen) = longest_gap 0 w (-1) 0
                   in print_words L (if longestGapLen \<le> 1 then -1 else longestGapPos) 0 w [])
          in if length buf + 1 > len then None else Some buf
      | Other_Addr \<Rightarrow> None)"

text \<open>
  The loop of \<open>tor_inet_pton\<close> over the words in front of \<open>eow\<close>: \<open>s\<close> is the text from \<open>src\<close> on and \<open>k\<close>
  the distance \<open>eow - src\<close>. It returns 0 (\<open>None\<close>), or ends with the gap, the number of words set and the words.
\<close>

function pton_words :: "string \<Rightarrow> int \<Rightarrow> nat \<Rightarrow> int \<Rightarrow> nat \<Rightarrow> 16 word list \<Rightarrow> (int \<times> nat \<times> 16 word list) option checked" where
  "pton_words s k i gapPos setWords ws =
     (if k > 0 then
        if i > 7 then Inr None
        else if isxdigit (peek s) then
          let (r, rest) = strtol16 s;
              consumed = int (length s) - int (length rest)
          in if consumed \<le> 0 then Inr None
             else
               let len = (if peek rest = NUL then k else consumed)
               in if len > 4 then Inr None
                  else if len > 1 \<and> \<not> isxdigit (peek (tl s)) then Inr None
                  else check (r \<ge> 0) ''r >= 0'' (check (r < 65536) ''r < 65536'' (
                    if peek rest \<noteq> CHR '':'' \<and> k - consumed \<noteq> 0 then Inr None
                    else pton_words (drop 1 rest) (k - consumed - 1) (i + 1) gapPos (setWords + 1) (ws[i := word_of_int r])))
        else if peek s = CHR '':'' \<and> i > 0 \<and> gapPos = -1 then
          pton_words (drop 1 s) (k - 1) i (int i) setWords ws
        else if peek s = CHR '':'' \<and> i = 0 \<and> 1 < k \<and> peek (tl s) = CHR '':'' \<and> gapPos = -1 then
          pton_words (drop 2 s) (k - 2) i (int i) setWords ws
        else Inr None
      else Inr (Some (gapPos, setWords, ws)))"
  by auto

termination by (relation "measure (\<lambda>(s, k, i, g, n, ws). nat k)") auto

declare pton_words.simps [simp del]

text \<open>\<open>memmove\<close> of \<open>n\<close> words from \<open>g\<close> to \<open>g + l\<close>, then \<open>memset\<close> of the \<open>l\<close> words at \<open>g\<close>.\<close>

definition open_gap :: "nat \<Rightarrow> nat \<Rightarrow> nat \<Rightarrow> 16 word list \<Rightarrow> 16 word list" where
  "open_gap g l n ws =
     (let moved = take (g + l) ws @ take n (drop g ws) @ drop (g + l + n) ws
      in take g moved @ replicate l 0 @ drop (g + l) moved)"

definition words_bytes :: "16 word list \<Rightarrow> 8 word list" where
  "words_bytes ws = concat (map (\<lambda>w. [ucast (drop_bit 8 w), ucast (w AND 0xff)]) ws)"

text \<open>Where the words end: after the last character in front of the dotted part that is not a digit.\<close>

definition eow_of :: "string \<Rightarrow> int option" where
  "eow_of src =
     (let before = takeWhile (\<lambda>c. c \<noteq> CHR ''.'') src
      in case dropWhile isdigit (rev before) of
           [] \<Rightarrow> None
         | c # cs \<Rightarrow> if c \<noteq> CHR '':'' then None else Some (int (length (c # cs))))"

text \<open>
  What happens once the words are read: their number and the gap are checked, the gap is opened and the
  bytes are stored. The result is that of \<open>tor_inet_pton\<close> with the address it stored.
\<close>

definition pton_finish :: "bool \<Rightarrow> (int \<times> nat \<times> 16 word list) option \<Rightarrow> (int \<times> net_addr option) checked" where
  "pton_finish dot read =
     (case read of
        None \<Rightarrow> Inr (0, None)
      | Some (gapPos, setWords, ws) \<Rightarrow>
          if setWords > 8 \<or> (setWords = 8 \<and> gapPos \<noteq> -1) \<or> (setWords < 8 \<and> gapPos = -1) then Inr (0, None)
          else if gapPos \<ge> 0 then
            let nToMove = int setWords - (if dot then 2 else 0) - gapPos;
                gapLen = 8 - setWords
            in check (nToMove \<ge> 0) ''nToMove >= 0''
                 (Inr (1, Some (In6_Addr (words_bytes (open_gap (nat gapPos) gapLen (nat nToMove) ws)))))
          else Inr (1, Some (In6_Addr (words_bytes ws))))"

definition pton6 :: "inet_lib \<Rightarrow> string \<Rightarrow> (int \<times> net_addr option) checked" where
  "pton6 L src =
     (let len = length src;
          no = Inr (0, None);
          parse = (\<lambda>dot eow ws0. bindE (pton_words src eow 0 (-1) (if dot then 2 else 0) ws0) (pton_finish dot))
      in if len > 2 \<and> src ! (len - 1) = CHR '':'' \<and> src ! (len - 2) \<noteq> CHR '':'' then no
         else if CHR ''.'' \<notin> set src then parse False (int len) (replicate 8 0xf8f8)
         else if peek src = CHR ''.'' then no
         else case eow_of src of
           None \<Rightarrow> no
         | Some eow \<Rightarrow>
             (case sscanf_quad L (drop (nat eow) src) of
                None \<Rightarrow> no
              | Some (byte1, byte2, byte3, byte4) \<Rightarrow>
                  if byte1 > 255 \<or> byte2 > 255 \<or> byte3 > 255 \<or> byte4 > 255 then no
                  else parse True eow ((replicate 8 0xf8f8)
                    [6 := push_bit 8 (of_nat byte1) OR of_nat byte2, 7 := push_bit 8 (of_nat byte3) OR of_nat byte4])))"

definition tor_inet_pton :: "inet_lib \<Rightarrow> family \<Rightarrow> string \<Rightarrow> (int \<times> net_addr option) checked" where
  "tor_inet_pton L af src =
     (case af of
        AF_INET \<Rightarrow> (case tor_inet_aton L src of None \<Rightarrow> Inr (0, None) | Some a \<Rightarrow> Inr (1, Some (In_Addr a)))
      | AF_INET6 \<Rightarrow> pton6 L src
      | AF_OTHER \<Rightarrow> Inr (-1, None))"

section \<open>An implementation of the library\<close>

text \<open>The laws hold of the direct implementation, so they can be met.\<close>

definition scan_part :: "string \<Rightarrow> nat option" where
  "scan_part A = (if A \<noteq> [] \<and> length A \<le> 3 \<and> list_all isdigit A then Some (numeral_value 10 A) else None)"

definition plain_quad :: "string \<Rightarrow> (nat \<times> nat \<times> nat \<times> nat) option" where
  "plain_quad s =
     (case split_on (CHR ''.'') s of
        [A, B, C, D] \<Rightarrow>
          (case (scan_part A, scan_part B, scan_part C, scan_part D) of
             (Some a, Some b, Some c, Some d) \<Rightarrow> Some (a, b, c, d)
           | _ \<Rightarrow> None)
      | _ \<Rightarrow> None)"

definition plain_inet :: inet_lib where
  "plain_inet =
     \<lparr>sscanf_quad = plain_quad,
      tor_snprintf = (\<lambda>n s. if length s < n then (int (length s), s) else (-1, take (n - 1) s)),
      smartlist_split_string = (\<lambda>s c. split_on c s)\<rparr>"

lemma scan_part_Some: "scan_part A = Some a \<longleftrightarrow> scanned A a"
  by (auto simp: scan_part_def scanned_def)

lemma scanned_no_dot: "scanned A a \<Longrightarrow> CHR ''.'' \<notin> set A"
  by (auto simp: scanned_def list_all_iff)

lemma plain_quad_Some:
  "plain_quad s = Some (a, b, c, d) \<longleftrightarrow>
     (\<exists>A B C D. s = A @ CHR ''.'' # B @ CHR ''.'' # C @ CHR ''.'' # D \<and> scanned A a \<and> scanned B b \<and> scanned C c \<and> scanned D d)"
  (is "?l = ?r")
proof
  assume ?l
  then obtain A B C D where parts: "split_on (CHR ''.'') s = [A, B, C, D]"
    and "scan_part A = Some a" "scan_part B = Some b" "scan_part C = Some c" "scan_part D = Some d"
    by (auto simp: plain_quad_def split: list.splits option.splits)
  moreover have "s = A @ CHR ''.'' # B @ CHR ''.'' # C @ CHR ''.'' # D"
    using join_split [of "CHR ''.''" s] unfolding parts by simp
  ultimately show ?r unfolding scan_part_Some by blast
next
  assume ?r
  then obtain A B C D where s: "s = A @ CHR ''.'' # B @ CHR ''.'' # C @ CHR ''.'' # D"
    and sc: "scanned A a" "scanned B b" "scanned C c" "scanned D d" by blast
  then have "split_on (CHR ''.'') s = [A, B, C, D]" by (simp add: scanned_no_dot)
  with sc show ?l unfolding scan_part_Some [symmetric] by (simp add: plain_quad_def)
qed

interpretation plain: inet_laws plain_inet
  by unfold_locales (auto simp: plain_inet_def plain_quad_Some)

end
