(* ===== verification/Inet_Roundtrip.thy ===== *)
theory Inet_Roundtrip
  imports Inet_Addr
begin

unbundle bit_operations_syntax

text \<open>
  Properties of \<open>src/networking/add.c\<close>: exactly the canonical text of an IPv4 address is read as that
  address, every printed address is read back, the printed text fits its buffer, and reading never fails
  an assertion.
\<close>

section \<open>Canonical decimal text\<close>

lemma digit_char_of_digit: "isdigit c \<Longrightarrow> digit_char (digit_value c) = c \<and> digit_value c < 10"
  by (auto simp: isdigit_def digit_char_def digit_value_def)

lemma numeral_10_small: "d < 10 \<Longrightarrow> numeral 10 d = [digit_char d]"
  by (subst numeral.simps) simp

lemma canonical_numeral:
  "list_all isdigit A \<Longrightarrow> A \<noteq> [] \<Longrightarrow> (length A > 1 \<longrightarrow> hd A \<noteq> CHR ''0'') \<Longrightarrow> numeral 10 (numeral_value 10 A) = A"
proof (induction A rule: rev_induct)
  case Nil
  then show ?case by simp
next
  case (snoc c A)
  have c: "digit_char (digit_value c) = c" "digit_value c < 10" using snoc.prems(1) digit_char_of_digit by auto
  show ?case
  proof (cases "A = []")
    case True
    with c show ?thesis by (simp add: numeral_10_small numeral_value_def)
  next
    case False
    with snoc.prems have hd: "hd A \<noteq> CHR ''0''" by simp
    with snoc False have A: "numeral 10 (numeral_value 10 A) = A" by simp
    have "numeral_value 10 A \<noteq> 0"
    proof
      assume "numeral_value 10 A = 0"
      with A have "A = numeral 10 0" by simp
      with hd show False by (simp add: numeral_10_small digit_char_def)
    qed
    then show ?thesis using A c by (subst numeral.simps) simp
  qed
qed

lemma scanned_numeral: "a \<le> 255 \<Longrightarrow> scanned (numeral 10 a) a"
  using numeral_length [of 10 a 3] by (simp add: scanned_def numeral_digits)

lemma scanned_canonical: "scanned A a \<Longrightarrow> \<not> (length A > 1 \<and> peek A = CHR ''0'') \<Longrightarrow> A = numeral 10 a"
  using canonical_numeral [of A] by (cases A) (auto simp: scanned_def)

lemma numeral_not_octal: "\<not> (length (numeral 10 a) > 1 \<and> peek (numeral 10 a) = CHR ''0'')"
  using numeral_no_leading_zero [of 10 a] by (cases "numeral 10 a") auto

section \<open>IPv4\<close>

definition quad_word :: "nat \<Rightarrow> nat \<Rightarrow> nat \<Rightarrow> nat \<Rightarrow> 32 word" where
  "quad_word a b c d = push_bit 24 (of_nat a) OR push_bit 16 (of_nat b) OR push_bit 8 (of_nat c) OR of_nat d"

lemma and_ff: "(x :: 'a::len word) AND 0xff = take_bit 8 x"
  by (simp add: take_bit_eq_mask mask_eq_exp_minus_1)

lemma octet_le: "octet n a \<le> 255"
proof -
  have "drop_bit n a AND 0xff \<le> (0xff :: 32 word)" by (rule word_and_le1)
  then show ?thesis by (simp add: octet_def word_le_nat_alt)
qed

lemma quad_word_octets: "quad_word (octet 24 a) (octet 16 a) (octet 8 a) (octet 0 a) = a"
proof (rule bit_word_eqI)
  fix n assume n: "n < LENGTH(32)"
  consider "n < 8" | "8 \<le> n" "n < 16" | "16 \<le> n" "n < 24" | "24 \<le> n" by linarith
  then show "bit (quad_word (octet 24 a) (octet 16 a) (octet 8 a) (octet 0 a)) n \<longleftrightarrow> bit a n"
    using n by cases (auto simp: quad_word_def octet_def and_ff bit_simps less_diff_conv2)
qed

lemma byte_bits: "v \<le> 255 \<Longrightarrow> bit (of_nat v :: 32 word) n \<Longrightarrow> n < 8"
proof -
  assume v: "v \<le> 255"
  have "take_bit 8 (of_nat v :: 32 word) = of_nat v"
    using v take_bit_nat_eq_self [of v 8] by (simp flip: of_nat_take_bit)
  then show "bit (of_nat v :: 32 word) n \<Longrightarrow> n < 8" by (metis bit_take_bit_iff)
qed

lemma quad_pieces:
  fixes A B C D :: "32 word"
  assumes "\<And>n. bit A n \<Longrightarrow> n < 8" "\<And>n. bit B n \<Longrightarrow> n < 8" "\<And>n. bit C n \<Longrightarrow> n < 8" "\<And>n. bit D n \<Longrightarrow> n < 8"
  defines "W \<equiv> push_bit 24 A OR push_bit 16 B OR push_bit 8 C OR D"
  shows "drop_bit 24 W AND 0xff = A" "drop_bit 16 W AND 0xff = B" "drop_bit 8 W AND 0xff = C" "drop_bit 0 W AND 0xff = D"
proof -
  show "drop_bit 24 W AND 0xff = A"
    by (rule bit_word_eqI) (auto simp: W_def and_ff bit_simps dest: assms(1-4))
  show "drop_bit 16 W AND 0xff = B"
    by (rule bit_word_eqI) (auto simp: W_def and_ff bit_simps dest: assms(1-4))
  show "drop_bit 8 W AND 0xff = C"
    by (rule bit_word_eqI) (auto simp: W_def and_ff bit_simps dest: assms(1-4))
  show "drop_bit 0 W AND 0xff = D"
    by (rule bit_word_eqI) (auto simp: W_def and_ff bit_simps dest: assms(1-4))
qed

lemma quad_word_nat:
  assumes "a \<le> 255" "b \<le> 255" "c \<le> 255" "d \<le> 255"
  shows "octet 24 (quad_word a b c d) = a \<and> octet 16 (quad_word a b c d) = b \<and>
    octet 8 (quad_word a b c d) = c \<and> octet 0 (quad_word a b c d) = d"
proof -
  have "unat (of_nat v :: 32 word) = v" if "v \<le> 255" for v
    using that by (simp add: unat_of_nat)
  with assms show ?thesis
    using quad_pieces [of "of_nat a" "of_nat b" "of_nat c" "of_nat d", OF byte_bits byte_bits byte_bits byte_bits]
    by (simp add: octet_def quad_word_def)
qed

definition dotted :: "32 word \<Rightarrow> string" where
  "dotted a = quad_text (octet 24 a) (octet 16 a) (octet 8 a) (octet 0 a)"

lemma quad_text_length:
  assumes "a \<le> 255" "b \<le> 255" "c \<le> 255" "d \<le> 255"
  shows "length (quad_text a b c d) \<le> 15"
proof -
  have "length (numeral 10 v) \<le> 3" if "v \<le> 255" for v using numeral_length [of 10 v 3] that by simp
  from this [OF assms(1)] this [OF assms(2)] this [OF assms(3)] this [OF assms(4)] show ?thesis
    by (simp add: quad_text_def)
qed

lemma numeral_chars: "CHR ''.'' \<notin> set (numeral 10 a)" "CHR ''.'' \<notin> set (numeral 16 a)"
  using numeral_digits [of a] numeral_xdigits [of 16 a] by (auto simp: list_all_iff)

context inet_laws
begin

lemma scan_quad_text:
  assumes "a \<le> 255" "b \<le> 255" "c \<le> 255" "d \<le> 255"
  shows "sscanf_quad L (quad_text a b c d) = Some (a, b, c, d)"
  unfolding quad quad_text_def using assms by (blast intro: scanned_numeral)

lemma split_quad_text: "smartlist_split_string L (quad_text a b c d) (CHR ''.'') = map (numeral 10) [a, b, c, d]"
  using numeral_chars by (simp add: split quad_text_def)

lemma aton_quad_text:
  assumes "a \<le> 255" "b \<le> 255" "c \<le> 255" "d \<le> 255"
  shows "tor_inet_aton L (quad_text a b c d) = Some (quad_word a b c d)"
  using assms numeral_not_octal
  by (simp add: tor_inet_aton_def scan_quad_text split_quad_text Let_def quad_word_def)

lemma aton_Some:
  assumes "tor_inet_aton L s = Some w"
  obtains a b c d where "s = quad_text a b c d" "w = quad_word a b c d" "a \<le> 255" "b \<le> 255" "c \<le> 255" "d \<le> 255"
proof -
  from assms obtain a b c d where sc: "sscanf_quad L s = Some (a, b, c, d)"
    and noct: "\<not> list_ex (\<lambda>octet. length octet > 1 \<and> peek octet = CHR ''0'') (smartlist_split_string L s (CHR ''.''))"
    and le: "a \<le> 255" "b \<le> 255" "c \<le> 255" "d \<le> 255" and w: "w = quad_word a b c d"
    by (auto simp: tor_inet_aton_def Let_def quad_word_def split: option.splits if_splits)
  from sc obtain A B C D where s: "s = A @ CHR ''.'' # B @ CHR ''.'' # C @ CHR ''.'' # D"
    and parts: "scanned A a" "scanned B b" "scanned C c" "scanned D d"
    unfolding quad by blast
  then have "smartlist_split_string L s (CHR ''.'') = [A, B, C, D]" by (simp add: split scanned_no_dot)
  with noct parts have "A = numeral 10 a" "B = numeral 10 b" "C = numeral 10 c" "D = numeral 10 d"
    by (auto intro!: scanned_canonical)
  with s have "s = quad_text a b c d" by (simp add: quad_text_def)
  then show thesis using w le by (rule that)
qed

lemma aton_iff: "tor_inet_aton L s = Some w \<longleftrightarrow> s = dotted w"
proof
  assume "tor_inet_aton L s = Some w"
  then show "s = dotted w" by (elim aton_Some) (simp add: dotted_def quad_word_nat)
next
  assume "s = dotted w"
  then show "tor_inet_aton L s = Some w"
    using aton_quad_text [OF octet_le octet_le octet_le octet_le] by (simp add: dotted_def quad_word_octets)
qed

lemma ntop_In_Addr: "tor_inet_ntop L (In_Addr a) n = (if length (dotted a) < n then Some (dotted a) else None)"
  using fits [of "dotted a" n] truncated [of n "dotted a"]
  by (cases "length (dotted a) < n"; cases "tor_snprintf L n (dotted a)")
    (simp_all add: tor_inet_ntop_def tor_inet_ntoa_def flip: dotted_def)

lemma dotted_length: "length (dotted a) \<le> 15"
  by (simp add: dotted_def quad_text_length octet_le)

end

section \<open>The printed form of an IPv6 address\<close>

abbreviation hex :: "16 word \<Rightarrow> string" where
  "hex w \<equiv> numeral 16 (unat w)"

text \<open>Words each followed by a colon, and words separated by colons.\<close>

definition colon_words :: "16 word list \<Rightarrow> string" where
  "colon_words ws = concat (map (\<lambda>w. hex w @ '':'') ws)"

lemma hex_length: "length (hex w) \<le> 4"
  using numeral_length [of 16 "unat w" 4] unsigned_less [of w] by simp

lemma colon_words_simps [simp]:
  "colon_words [] = []" "colon_words (w # ws) = hex w @ '':'' @ colon_words ws"
  by (simp_all add: colon_words_def)

definition joined_words :: "16 word list \<Rightarrow> string" where
  "joined_words ws = (if ws = [] then [] else colon_words (butlast ws) @ hex (last ws))"

lemma joined_words_Cons: "joined_words (w # ws) = hex w @ (if ws = [] then [] else '':'' @ joined_words ws)"
  by (simp add: joined_words_def)

context inet_laws
begin

lemma print_word: "length out \<le> 59 \<Longrightarrow> snd (tor_snprintf L (64 - length out) (hex w)) = hex w"
  using fits [of "hex w" "64 - length out"] hex_length [of w] by simp

lemma print_no_gap:
  "i + length ws = 8 \<Longrightarrow> g < int i \<Longrightarrow> length out \<le> 5 * i + 2 \<Longrightarrow>
   print_words L g i ws out = out @ joined_words ws"
proof (induction ws arbitrary: i out)
  case Nil
  then show ?case by (simp add: joined_words_def)
next
  case (Cons w ws)
  let ?out = "out @ hex w @ (if i \<noteq> 7 then '':'' else [])"
  have "print_words L g (i + 1) ws ?out = ?out @ joined_words ws"
    using Cons.prems hex_length [of w] by (intro Cons.IH) auto
  moreover have "i \<noteq> 7 \<longleftrightarrow> ws \<noteq> []" using Cons.prems(1) by (cases ws) auto
  ultimately show ?case using Cons.prems by (cases "ws = []") (simp_all add: print_word joined_words_Cons Let_def)
qed

text \<open>With a gap at \<open>g\<close>: the words in front of it, the two colons and what follows the zeros.\<close>

lemma print_gap:
  "i + length ws = 8 \<Longrightarrow> i \<le> g \<Longrightarrow> g < 8 \<Longrightarrow> ws ! (g - i) = 0 \<Longrightarrow> length out \<le> 5 * i \<Longrightarrow>
   print_words L (int g) i ws out =
     out @ colon_words (take (g - i) ws) @ (if g = 0 then '':'' else []) @ '':'' @
     joined_words (dropWhile (\<lambda>v. v = 0) (drop (g - i) ws))"
proof (induction ws arbitrary: i out)
  case Nil
  then show ?case by simp
next
  case (Cons w ws)
  show ?case
  proof (cases "g = i")
    case True
    let ?z = "length (takeWhile (\<lambda>v. v = 0) (w # ws))"
    have w: "w = 0" using Cons.prems(4) True by simp
    have split: "takeWhile (\<lambda>v. v = 0) (w # ws) @ dropWhile (\<lambda>v. v = 0) (w # ws) = w # ws" by (rule takeWhile_dropWhile_id)
    have "print_words L (int g) (i + ?z) (dropWhile (\<lambda>v. v = 0) (w # ws)) ((if i = 0 then out @ '':'' else out) @ '':'') =
        ((if i = 0 then out @ '':'' else out) @ '':'') @ joined_words (dropWhile (\<lambda>v. v = 0) (w # ws))"
    proof (rule print_no_gap)
      show "i + ?z + length (dropWhile (\<lambda>v. v = 0) (w # ws)) = 8"
        using Cons.prems(1) arg_cong [OF split, of length] by simp
    qed (use Cons.prems True w in auto)
    then show ?thesis using True w by (simp del: takeWhile.simps dropWhile.simps)
  next
    case False
    let ?out = "out @ hex w @ '':''"
    have "i \<noteq> 7" using False Cons.prems by simp
    have pred: "g - i = Suc (g - (i + 1))" using False Cons.prems(2) by simp
    have "print_words L (int g) (i + 1) ws ?out = ?out @ colon_words (take (g - (i + 1)) ws) @
        (if g = 0 then '':'' else []) @ '':'' @ joined_words (dropWhile (\<lambda>v. v = 0) (drop (g - (i + 1)) ws))"
    proof (rule Cons.IH)
      show "ws ! (g - (i + 1)) = 0" using Cons.prems(4) pred by simp
    qed (use Cons.prems False hex_length [of w] in auto)
    moreover have "take (g - i) (w # ws) = w # take (g - (i + 1)) ws" "drop (g - i) (w # ws) = drop (g - (i + 1)) ws"
      using pred by simp_all
    ultimately show ?thesis using False \<open>i \<noteq> 7\<close> Cons.prems by (simp add: print_word Let_def)
  qed
qed

end

section \<open>Reading the words back\<close>

text \<open>The words \<open>A\<close> stored from position \<open>i\<close> on.\<close>

definition put :: "16 word list \<Rightarrow> nat \<Rightarrow> 16 word list \<Rightarrow> 16 word list" where
  "put ws i A = take i ws @ A @ drop (i + length A) ws"

lemma put_Nil [simp]: "put ws i [] = ws"
  by (simp add: put_def)

lemma put_Cons: "i < length ws \<Longrightarrow> put (ws[i := w]) (i + 1) A = put ws i (w # A)"
  by (simp add: put_def take_Suc_conv_app_nth take_update_cancel)

lemma length_put [simp]: "i + length A \<le> length ws \<Longrightarrow> length (put ws i A) = length ws"
  by (simp add: put_def)

lemma hex_xdigits: "list_all isxdigit (hex w)"
  by (rule numeral_xdigits) simp_all

lemma strtol16_hex:
  assumes "r = [] \<or> peek r = CHR '':''"
  shows "strtol16 (hex w @ r) = (int (unat w), r)"
proof -
  have "\<not> isxdigit (peek r)" using assms by auto
  moreover have "length (hex w) = 1 \<longrightarrow> peek r \<noteq> CHR ''x'' \<and> peek r \<noteq> CHR ''X''"
    using assms by (auto simp: NUL_def)
  moreover have "int (unat w) \<le> LONG_MAX" using uint_lt2p [of w] by (simp add: LONG_MAX_def)
  ultimately show ?thesis using strtol16_no_prefix [OF hex_xdigits [of w], of r] by simp
qed

lemma hex_second_digit: "length (hex w) > 1 \<Longrightarrow> isxdigit (peek (tl (hex w @ r)))"
  using hex_xdigits [of w] by (cases "hex w"; cases "tl (hex w)") auto

lemma hex_first_digit: "isxdigit (peek (hex w @ r))"
  using hex_xdigits [of w] by (cases "hex w") auto

text \<open>One word is read, with the colon behind it when there is one.\<close>

lemma pton_word:
  assumes "i \<le> 7" and "r = [] \<and> k = int (length (hex w)) \<or> peek r = CHR '':'' \<and> int (length (hex w)) \<le> k"
  shows "pton_words (hex w @ r) k i g n ws = pton_words (drop 1 r) (k - int (length (hex w)) - 1) (i + 1) g (n + 1) (ws[i := w])"
proof -
  have st: "strtol16 (hex w @ r) = (int (unat w), r)" using assms(2) by (intro strtol16_hex) auto
  have small: "uint w < 65536" using uint_lt2p [of w] by simp
  have pos: "0 < length (hex w)" by simp
  have seps: "NUL \<noteq> CHR '':''" by (simp add: NUL_def)
  show ?thesis
  proof (cases "r = []")
    case True
    with assms have k: "k = int (length (hex w))" by (auto simp: NUL_def)
    show ?thesis using assms(1) k pos small seps hex_second_digit [of w r] True st hex_length [of w]
      by (subst pton_words.simps) (auto simp: Let_def check_def hex_first_digit hex_first_digit [of w "[]", simplified])
  next
    case False
    with assms have "peek r = CHR '':''" "int (length (hex w)) \<le> k" and k: "0 < k" using pos by (auto simp del: length_greater_0_conv)
    then show ?thesis using assms(1) pos small seps hex_second_digit [of w r] st hex_length [of w]
      by (subst pton_words.simps, subst if_P [OF k]) (auto simp: Let_def check_def hex_first_digit)
  qed
qed

lemma pton_colon_words:
  "i + length A \<le> 8 \<Longrightarrow> length ws = 8 \<Longrightarrow> int (length (colon_words A)) \<le> k \<Longrightarrow>
   pton_words (colon_words A @ r) k i g n ws =
     pton_words r (k - int (length (colon_words A))) (i + length A) g (n + length A) (put ws i A)"
proof (induction A arbitrary: i k n ws)
  case Nil
  then show ?case by simp
next
  case (Cons w A)
  have "pton_words (hex w @ '':'' @ colon_words A @ r) k i g n ws =
      pton_words (colon_words A @ r) (k - int (length (hex w)) - 1) (i + 1) g (n + 1) (ws[i := w])"
    using pton_word [of i "'':'' @ colon_words A @ r" k w g n ws] Cons.prems by simp
  also have "\<dots> = pton_words r (k - int (length (hex w)) - 1 - int (length (colon_words A))) (i + 1 + length A) g (n + 1 + length A)
      (put (ws[i := w]) (i + 1) A)"
    using Cons.prems by (intro Cons.IH) auto
  finally show ?case using Cons.prems put_Cons [of i ws w A] by (simp add: algebra_simps)
qed

lemma pton_end: "k \<le> 0 \<Longrightarrow> pton_words s k i g n ws = Inr (Some (g, n, ws))"
  by (subst pton_words.simps) simp

lemma pton_joined_words:
  assumes "i + length B \<le> 8" "length ws = 8" "B \<noteq> []" "k = int (length (joined_words B))"
  shows "pton_words (joined_words B) k i g n ws = Inr (Some (g, n + length B, put ws i B))"
proof -
  obtain A w where B: "B = A @ [w]" using assms(3) by (cases B rule: rev_cases) auto
  have len: "length (put ws i A) = 8" using assms(1,2) B by simp
  have "pton_words (colon_words A @ hex w @ []) k i g n ws =
      pton_words (hex w @ []) (k - int (length (colon_words A))) (i + length A) g (n + length A) (put ws i A)"
    using assms B by (intro pton_colon_words) (auto simp: joined_words_def)
  also have "\<dots> = Inr (Some (g, n + length A + 1, (put ws i A)[i + length A := w]))"
    using assms B by (subst pton_word) (auto simp: joined_words_def pton_end)
  finally show ?thesis
    using assms(1,2) B by (simp add: joined_words_def put_def list_update_append upd_conv_take_nth_drop)
qed

text \<open>The two colons of a gap, in front of the words or behind a word and its colon.\<close>

lemma pton_gap:
  assumes "i \<le> 7" "2 \<le> k \<or> i > 0 \<and> 1 \<le> k"
  shows "pton_words ((if i = 0 then '':'' else []) @ '':'' @ r) k i (-1) n ws =
    pton_words r (k - (if i = 0 then 2 else 1)) i (int i) n ws"
  using assms by (subst pton_words.simps) auto

section \<open>Words and bytes\<close>

lemma word_of_bytes:
  fixes hi lo :: "8 word"
  defines "w \<equiv> push_bit 8 (ucast hi) + ucast lo :: 16 word"
  shows "ucast (drop_bit 8 w) = hi" "ucast (w AND 0xff) = lo"
proof -
  have w: "w = push_bit 8 (ucast hi) OR ucast lo"
    unfolding w_def by (rule disjunctive_add_eq_or, rule bit_word_eqI) (auto simp: bit_simps dest: bit_imp_le_length)
  show "ucast (drop_bit 8 w) = hi"
    by (rule bit_word_eqI) (auto simp: w bit_simps dest: bit_imp_le_length)
  show "ucast (w AND 0xff) = lo"
    by (rule bit_word_eqI) (auto simp: w and_ff bit_simps dest: bit_imp_le_length)
qed

lemma words_bytes_address_words: "even (length bs) \<Longrightarrow> words_bytes (address_words bs) = bs"
  by (induction bs rule: address_words.induct) (auto simp: words_bytes_def word_of_bytes)

lemma length_address_words: "length (address_words bs) = length bs div 2"
  by (induction bs rule: address_words.induct) auto

lemma address_words_16:
  assumes "length bs = 16"
  shows "length (address_words bs) = 8" "words_bytes (address_words bs) = bs"
  using assms by (simp_all add: length_address_words words_bytes_address_words)

section \<open>The gap\<close>

text \<open>The gap found is none, the one before, or one that starts with a zero word.\<close>

lemma longest_gap_zero:
  "longest_gap i (drop i W) p l = (p', l') \<Longrightarrow> p' = p \<or> (\<exists>q. p' = int q \<and> q < length W \<and> W ! q = 0)"
proof (induction "length W - i" arbitrary: i p l rule: less_induct)
  case less
  show ?case
  proof (cases "i < length W")
    case False
    with less.prems show ?thesis by simp
  next
    case True
    let ?z = "length (takeWhile (\<lambda>v. v = 0) (drop i W))"
    have cons: "drop i W = W ! i # drop (Suc i) W" using True by (simp add: Cons_nth_drop_Suc)
    have rest: "dropWhile (\<lambda>v. v = 0) (drop i W) = drop (i + ?z) W"
      by (simp add: dropWhile_eq_drop add.commute)
    show ?thesis
    proof (cases "W ! i = 0")
      case False
      with less.prems cons have "longest_gap (i + 1) (drop (i + 1) W) p l = (p', l')" by simp
      with less.hyps [of "i + 1"] True show ?thesis by simp
    next
      case zero: True
      then have "0 < ?z" by (simp add: cons)
      then have smaller: "length W - (i + ?z) < length W - i" using True by linarith
      have "longest_gap i (drop i W) p l =
          (if ?z > l then longest_gap (i + ?z) (drop (i + ?z) W) (int i) ?z else longest_gap (i + ?z) (drop (i + ?z) W) p l)"
        unfolding rest [symmetric] by (simp add: cons zero Let_def)
      with less.prems less.hyps [OF smaller] zero True show ?thesis by (auto split: if_splits)
    qed
  qed
qed

section \<open>Reading a printed IPv6 address\<close>

lemma joined_words_chars: "c \<in> set (joined_words B) \<Longrightarrow> isxdigit c \<or> c = CHR '':''"
  and colon_words_chars: "c \<in> set (colon_words B) \<Longrightarrow> isxdigit c \<or> c = CHR '':''"
proof -
  have colon: "c \<in> set (colon_words B) \<Longrightarrow> isxdigit c \<or> c = CHR '':''" for B
    using hex_xdigits by (induction B) (auto simp: list_all_iff)
  then show "c \<in> set (colon_words B) \<Longrightarrow> isxdigit c \<or> c = CHR '':''" .
  show "c \<in> set (joined_words B) \<Longrightarrow> isxdigit c \<or> c = CHR '':''"
    using colon [of "butlast B"] hex_xdigits [of "last B"] by (auto simp: joined_words_def list_all_iff split: if_splits)
qed

lemma last_hex_char: "last (hex w) \<noteq> CHR '':''"
proof
  assume "last (hex w) = CHR '':''"
  moreover have "isxdigit (last (hex w))" using hex_xdigits [of w] by (simp add: list_all_iff)
  ultimately show False by simp
qed

text \<open>The text does not end in a single colon.\<close>

definition no_single_colon :: "string \<Rightarrow> bool" where
  "no_single_colon src \<longleftrightarrow> \<not> (length src > 2 \<and> src ! (length src - 1) = CHR '':'' \<and> src ! (length src - 2) \<noteq> CHR '':'')"

lemma no_single_colon_last: "s \<noteq> [] \<Longrightarrow> last s \<noteq> CHR '':'' \<Longrightarrow> no_single_colon (t @ s)"
  using last_conv_nth [of "t @ s"] by (auto simp: no_single_colon_def)

lemma no_single_colon_two: "no_single_colon (t @ ''::'')"
  by (auto simp: no_single_colon_def nth_append)

lemma joined_words_last: "B \<noteq> [] \<Longrightarrow> joined_words B \<noteq> [] \<and> last (joined_words B) \<noteq> CHR '':''"
  using last_hex_char by (simp add: joined_words_def)

lemma open_gap_append:
  assumes "length A = g" "length X = l" "length B = n"
  shows "open_gap g l n (A @ B @ X) = A @ replicate l 0 @ B"
  using assms by (simp add: open_gap_def)

text \<open>What \<open>pton6\<close> does with a text without a dot, once its words have been read.\<close>

lemma pton6_no_dot:
  assumes "CHR ''.'' \<notin> set src" and "no_single_colon src"
    and "pton_words src (int (length src)) 0 (-1) 0 (replicate 8 0xf8f8) = Inr (Some (g, n, ws))"
    and "n = 8 \<and> g = -1 \<or> n < 8 \<and> 0 \<le> g \<and> g \<le> int n"
  shows "pton6 L src = Inr (1, Some (In6_Addr (words_bytes
    (if g = -1 then ws else open_gap (nat g) (8 - n) (nat (int n - g)) ws))))"
  using assms by (auto simp: pton6_def pton_finish_def Let_def no_single_colon_def check_def)

lemma pton6_joined:
  assumes "length W = 8"
  shows "pton6 L (joined_words W) = Inr (1, Some (In6_Addr (words_bytes W)))"
proof -
  have "pton_words (joined_words W) (int (length (joined_words W))) 0 (-1) 0 (replicate 8 0xf8f8) =
      Inr (Some (-1, 8, put (replicate 8 0xf8f8) 0 W))"
    using assms by (subst pton_joined_words) auto
  moreover have "put (replicate 8 0xf8f8) 0 W = W" using assms by (simp add: put_def)
  moreover have "no_single_colon (joined_words W)"
    using joined_words_last [of W] assms no_single_colon_last [of "joined_words W" "[]"] by fastforce
  ultimately show ?thesis
    using joined_words_chars [of "CHR ''.''" W] by (subst pton6_no_dot) auto
qed

lemma pton6_gapped:
  assumes "length A + length B < 8"
  shows "pton6 L (colon_words A @ (if length A = 0 then '':'' else []) @ '':'' @ joined_words B) =
    Inr (1, Some (In6_Addr (words_bytes (A @ replicate (8 - (length A + length B)) 0 @ B))))"
proof -
  let ?g = "length A"
  let ?init = "replicate 8 (0xf8f8 :: 16 word)"
  let ?gap = "(if ?g = 0 then '':'' else []) @ '':''"
  let ?src = "colon_words A @ ?gap @ joined_words B"
  have "pton_words ?src (int (length ?src)) 0 (-1) 0 ?init =
      pton_words (?gap @ joined_words B) (int (length (?gap @ joined_words B))) ?g (-1) ?g (put ?init 0 A)"
    using assms by (subst pton_colon_words) auto
  also have "\<dots> = pton_words (joined_words B) (int (length (joined_words B))) ?g (int ?g) ?g (put ?init 0 A)"
    using assms pton_gap [of ?g "int (length (?gap @ joined_words B))" "joined_words B" ?g "put ?init 0 A"] by (cases "A = []") auto
  also have "\<dots> = Inr (Some (int ?g, ?g + length B, put (put ?init 0 A) ?g B))"
    using assms pton_joined_words [of ?g B "put ?init 0 A" "int (length (joined_words B))" "int ?g" ?g]
    by (cases "B = []") (simp_all add: joined_words_def pton_end)
  finally have read: "pton_words ?src (int (length ?src)) 0 (-1) 0 ?init =
      Inr (Some (int ?g, ?g + length B, put (put ?init 0 A) ?g B))" .
  have ws: "put (put ?init 0 A) ?g B = A @ B @ replicate (8 - (?g + length B)) 0xf8f8"
    using assms by (simp add: put_def)
  have "no_single_colon ?src"
  proof (cases "B = []")
    case False
    then show ?thesis using joined_words_last [OF False] no_single_colon_last [of "joined_words B" "colon_words A @ ?gap"] by simp
  next
    case B: True
    show ?thesis
    proof (cases A rule: rev_cases)
      case Nil
      then show ?thesis using B by (simp add: joined_words_def no_single_colon_def)
    next
      case (snoc A' w)
      then show ?thesis using B no_single_colon_two [of "colon_words A' @ hex w"]
        by (simp add: joined_words_def colon_words_def)
    qed
  qed
  moreover have "CHR ''.'' \<notin> set ?src"
    using colon_words_chars [of "CHR ''.''" A] joined_words_chars [of "CHR ''.''" B] by auto
  ultimately have "pton6 L ?src = Inr (1, Some (In6_Addr (words_bytes
      (open_gap ?g (8 - (?g + length B)) (length B) (put (put ?init 0 A) ?g B)))))"
    using read assms by (subst pton6_no_dot) auto
  then show ?thesis unfolding ws using open_gap_append [of A ?g] by simp
qed

section \<open>Addresses with a dotted part\<close>

lemma eow_of_dotted:
  assumes "CHR ''.'' \<notin> set pre"
  shows "eow_of (pre @ CHR '':'' # quad_text a b c d) = Some (int (length pre) + 1)"
proof -
  have "takeWhile (\<lambda>c. c \<noteq> CHR ''.'') (pre @ CHR '':'' # quad_text a b c d) = pre @ CHR '':'' # numeral 10 a"
    using assms numeral_chars(1) [of a] by (simp add: quad_text_def takeWhile_append2 takeWhile_tail takeWhile_append)
  moreover have "dropWhile isdigit (rev (pre @ CHR '':'' # numeral 10 a)) = CHR '':'' # rev pre"
    using dropWhile_append2 [of "rev (numeral 10 a)" isdigit "CHR '':'' # rev pre"] numeral_digits [of a]
    by (simp add: list_all_iff)
  ultimately show ?thesis by (simp add: eow_of_def)
qed

context inet_laws
begin

lemma pton6_dotted:
  fixes pre :: string and a b c d :: nat
  defines "src \<equiv> pre @ CHR '':'' # quad_text a b c d"
  assumes "CHR ''.'' \<notin> set pre" and le: "a \<le> 255" "b \<le> 255" "c \<le> 255" "d \<le> 255"
    and "pton_words src (int (length pre) + 1) 0 (-1) 2 ((replicate 8 0xf8f8)
        [6 := push_bit 8 (of_nat a) OR of_nat b, 7 := push_bit 8 (of_nat c) OR of_nat d]) = Inr (Some (g, n, ws))"
    and "n < 8" "0 \<le> g" "g + 2 \<le> int n"
  shows "pton6 L src = Inr (1, Some (In6_Addr (words_bytes (open_gap (nat g) (8 - n) (nat (int n - 2 - g)) ws))))"
proof -
  have "last (numeral 10 d) \<noteq> CHR '':''"
  proof
    assume "last (numeral 10 d) = CHR '':''"
    moreover have "isdigit (last (numeral 10 d))" using numeral_digits [of d] by (simp add: list_all_iff)
    ultimately show False by simp
  qed
  then have "no_single_colon (pre @ CHR '':'' # quad_text a b c d)"
    using no_single_colon_last [of "numeral 10 d" "pre @ CHR '':'' # numeral 10 a @ CHR ''.'' # numeral 10 b @ CHR ''.'' # numeral 10 c @ ''.''"]
    by (simp add: quad_text_def)
  moreover have "CHR ''.'' \<in> set src" "peek src \<noteq> CHR ''.''"
    using assms(2) by (cases pre; auto simp: src_def quad_text_def)+
  moreover have "sscanf_quad L (drop (nat (int (length pre) + 1)) src) = Some (a, b, c, d)"
    using scan_quad_text [OF le] by (simp add: src_def nat_add_distrib)
  moreover have "eow_of src = Some (int (length pre) + 1)"
    unfolding src_def using assms(2) by (rule eow_of_dotted)
  ultimately show ?thesis
    using assms(3-10) by (simp add: pton6_def pton_finish_def Let_def no_single_colon_def check_def flip: src_def)
qed

end

lemma address_words_nth:
  "2 * i + 1 < length bs \<Longrightarrow> address_words bs ! i = push_bit 8 (ucast (bs ! (2 * i))) + ucast (bs ! (2 * i + 1))"
proof (induction bs arbitrary: i rule: address_words.induct)
  case (1 hi lo bs)
  then show ?case by (cases i) auto
qed auto

lemma word_of_byte_pair:
  "push_bit 8 (of_nat (unat hi)) OR of_nat (unat lo) = (push_bit 8 (ucast hi) + ucast lo :: 16 word)" for hi lo :: "8 word"
  unfolding of_nat_unat
  by (rule disjunctive_add_eq_or [symmetric], rule bit_word_eqI) (auto simp: bit_simps dest: bit_imp_le_length)

lemma init_words: "(replicate 8 x)[6 := a, 7 := b] = [x, x, x, x, x, x, a, b]"
  by (simp add: numeral_eq_Suc)

lemma copies: "replicate 5 x = [x, x, x, x, x]" "replicate 6 x = [x, x, x, x, x, x]"
  by (simp_all add: numeral_eq_Suc)

lemma list_8: "length (W :: 'a list) = 8 \<Longrightarrow> W = [W ! 0, W ! 1, W ! 2, W ! 3, W ! 4, W ! 5, W ! 6, W ! 7]"
  by (auto simp: numeral_eq_Suc length_Suc_conv)

context inet_laws
begin

text \<open>The printed text of an IPv6 address, by its three forms.\<close>

definition mapped :: "16 word list \<Rightarrow> bool" where
  "mapped w \<longleftrightarrow> w ! 0 = 0 \<and> w ! 1 = 0 \<and> w ! 2 = 0 \<and> w ! 3 = 0 \<and> w ! 4 = 0 \<and>
     ((w ! 5 = 0 \<and> w ! 6 \<noteq> 0 \<and> w ! 7 \<noteq> 0) \<or> w ! 5 = 0xffff)"

definition text6 :: "8 word list \<Rightarrow> string" where
  "text6 bs =
     (let w = address_words bs;
          dotted = quad_text (unat (bs ! 12)) (unat (bs ! 13)) (unat (bs ! 14)) (unat (bs ! 15))
      in if mapped w
         then (if w ! 5 = 0 then '':'' else ''::'' @ hex (w ! 5)) @ '':'' @ dotted
         else let (p, n) = longest_gap 0 w (-1) 0 in print_words L (if n \<le> 1 then -1 else p) 0 w [])"

lemma byte_le: "unat (b :: 8 word) \<le> 255"
proof -
  have "unat b < 2 ^ LENGTH(8)" by (rule unsigned_less)
  then show ?thesis by simp
qed

lemma ntop_In6: "tor_inet_ntop L (In6_Addr bs) len = (if length (text6 bs) < len then Some (text6 bs) else None)"
proof -
  let ?d = "quad_text (unat (bs ! 12)) (unat (bs ! 13)) (unat (bs ! 14)) (unat (bs ! 15))"
  have "length ?d \<le> 15" by (intro quad_text_length byte_le)
  then have bufs: "snd (tor_snprintf L 64 (''::'' @ ?d)) = ''::'' @ ?d"
    "snd (tor_snprintf L 64 (''::'' @ hex w @ '':'' @ ?d)) = ''::'' @ hex w @ '':'' @ ?d" for w
    using hex_length [of w] by (subst fits; simp)+
  then show ?thesis
    using bufs(2) [of "0xffff"] by (simp add: tor_inet_ntop_def text6_def mapped_def Let_def)
qed

lemma pton6_mapped:
  assumes "length bs = 16" and "mapped (address_words bs)"
  shows "pton6 L (text6 bs) = Inr (1, Some (In6_Addr bs))"
proof -
  let ?W = "address_words bs"
  let ?d = "quad_text (unat (bs ! 12)) (unat (bs ! 13)) (unat (bs ! 14)) (unat (bs ! 15))"
  let ?ws = "(replicate 8 0xf8f8)[6 := ?W ! 6, 7 := ?W ! 7]"
  have W: "?W = [0, 0, 0, 0, 0, ?W ! 5, ?W ! 6, ?W ! 7]"
    using list_8 [of ?W] assms by (simp add: address_words_16 mapped_def)
  have pair: "push_bit 8 (of_nat (unat (bs ! 12))) OR of_nat (unat (bs ! 13)) = ?W ! 6"
    "push_bit 8 (of_nat (unat (bs ! 14))) OR of_nat (unat (bs ! 15)) = ?W ! 7"
    using assms(1) address_words_nth [of 6 bs] address_words_nth [of 7 bs] by (simp_all only: word_of_byte_pair) simp_all
  show ?thesis
  proof (cases "?W ! 5 = 0")
    case True
    have form: "text6 bs = '':'' @ CHR '':'' # ?d" using assms True by (simp add: text6_def Let_def)
    have "pton_words ('':'' @ CHR '':'' # ?d) 2 0 (-1) 2 ?ws = Inr (Some (0, 2, ?ws))"
      using pton_gap [of 0 2 ?d 2 ?ws] by (simp add: pton_end)
    then have "pton6 L (text6 bs) = Inr (1, Some (In6_Addr (words_bytes (open_gap 0 6 0 ?ws))))"
      unfolding form using byte_le by (subst pton6_dotted [where g = 0 and n = 2 and ws = ?ws]) (simp_all add: pair del: of_nat_unat)
    moreover have "open_gap 0 6 0 ?ws = ?W"
      using W [symmetric] unfolding init_words True by (simp add: open_gap_def copies)
    ultimately show ?thesis using address_words_16 [OF assms(1)] by simp
  next
    case False
    have form: "text6 bs = (''::'' @ hex (?W ! 5)) @ CHR '':'' # ?d" using assms False by (simp add: text6_def Let_def)
    let ?k = "int (length (''::'' @ hex (?W ! 5))) + 1"
    have "pton_words ((''::'' @ hex (?W ! 5)) @ CHR '':'' # ?d) ?k 0 (-1) 2 ?ws =
        pton_words (hex (?W ! 5) @ CHR '':'' # ?d) (?k - 2) 0 0 2 ?ws"
      using pton_gap [of 0 ?k "hex (?W ! 5) @ CHR '':'' # ?d" 2 ?ws] by simp
    also have "\<dots> = Inr (Some (0, 3, ?ws[0 := ?W ! 5]))"
      by (subst pton_word) (simp_all add: pton_end)
    finally have "pton6 L (text6 bs) = Inr (1, Some (In6_Addr (words_bytes (open_gap 0 5 1 (?ws[0 := ?W ! 5])))))"
      unfolding form using byte_le numeral_chars
      by (subst pton6_dotted [where g = 0 and n = 3 and ws = "?ws[0 := ?W ! 5]"]) (simp_all add: pair del: of_nat_unat)
    moreover have "open_gap 0 5 1 (?ws[0 := ?W ! 5]) = ?W"
      using W [symmetric] unfolding init_words by (simp add: open_gap_def copies)
    ultimately show ?thesis using address_words_16 [OF assms(1)] by simp
  qed
qed

lemma text6_general:
  assumes "length bs = 16" and "\<not> mapped (address_words bs)"
  obtains "text6 bs = joined_words (address_words bs)"
  | A n B where "address_words bs = A @ replicate n 0 @ B" "0 < n"
      "text6 bs = colon_words A @ (if length A = 0 then '':'' else []) @ '':'' @ joined_words B"
proof -
  let ?W = "address_words bs"
  have len: "length ?W = 8" using assms(1) by (rule address_words_16)
  obtain p n where gap: "longest_gap 0 ?W (-1) 0 = (p, n)" by fastforce
  then have form: "text6 bs = print_words L (if n \<le> 1 then -1 else p) 0 ?W []"
    using assms(2) by (simp add: text6_def Let_def)
  show thesis
  proof (cases "n \<le> 1 \<or> p = -1")
    case True
    then have "text6 bs = joined_words ?W"
      using form print_no_gap [of 0 ?W "-1" "[]"] len by auto
    then show thesis by (rule that(1))
  next
    case False
    with longest_gap_zero [of 0 ?W "-1" 0 p n] gap len obtain g where g: "p = int g" "g < 8" "?W ! g = 0" by auto
    let ?z = "length (takeWhile (\<lambda>v. v = 0) (drop g ?W))"
    let ?B = "dropWhile (\<lambda>v. v = 0) (drop g ?W)"
    have zs: "takeWhile (\<lambda>v. v = 0) (drop g ?W) = replicate ?z 0"
      by (rule replicate_length_same [symmetric]) (auto dest: set_takeWhileD)
    then have "drop g ?W = replicate ?z 0 @ ?B" by (metis takeWhile_dropWhile_id)
    then have W: "?W = take g ?W @ replicate ?z 0 @ ?B" by (metis append_take_drop_id)
    have "drop g ?W = ?W ! g # drop (Suc g) ?W" using Cons_nth_drop_Suc [of g ?W] g len by simp
    then have pos: "0 < ?z" using g by simp
    have "text6 bs = colon_words (take g ?W) @ (if g = 0 then '':'' else []) @ '':'' @ joined_words ?B"
      using form False g print_gap [of 0 ?W g "[]"] len by auto
    with W pos show thesis using that(2) [of "take g ?W" ?z ?B] g len by simp
  qed
qed

lemma pton6_text6:
  assumes "length bs = 16"
  shows "pton6 L (text6 bs) = Inr (1, Some (In6_Addr bs))"
proof (cases "mapped (address_words bs)")
  case True
  with assms show ?thesis by (rule pton6_mapped)
next
  case False
  note words = address_words_16 [OF assms]
  from assms False show ?thesis
  proof (cases rule: text6_general)
    case 1
    then show ?thesis using pton6_joined [of "address_words bs"] words by simp
  next
    case (2 A n B)
    moreover from this words(1) have "length A + n + length B = 8" by simp
    then have "n = 8 - (length A + length B)" by simp
    ultimately show ?thesis using pton6_gapped [of A B] words by simp
  qed
qed

end

section \<open>Size of the text and safety of the reader\<close>

lemma colon_words_length: "length (colon_words ws) \<le> 5 * length ws"
proof (induction ws)
  case (Cons w ws)
  then show ?case using hex_length [of w] by simp
qed simp

lemma joined_words_length: "ws \<noteq> [] \<Longrightarrow> length (joined_words ws) + 1 \<le> 5 * length ws"
  using colon_words_length [of "butlast ws"] hex_length [of "last ws"] by (simp add: joined_words_def) (cases ws; simp)

context inet_laws
begin

lemma text6_length:
  assumes "length bs = 16"
  shows "length (text6 bs) \<le> 39"
proof (cases "mapped (address_words bs)")
  case True
  have "length (quad_text (unat (bs ! 12)) (unat (bs ! 13)) (unat (bs ! 14)) (unat (bs ! 15))) \<le> 15"
    by (intro quad_text_length byte_le)
  with True show ?thesis using hex_length [of "address_words bs ! 5"] by (simp add: text6_def Let_def)
next
  case False
  note words = address_words_16(1) [OF assms]
  from assms False show ?thesis
  proof (cases rule: text6_general)
    case 1
    then show ?thesis using words joined_words_length [of "address_words bs"] by force
  next
    case (2 A n B)
    then have "length A + n + length B = 8" using words by simp
    then show ?thesis
      using 2 colon_words_length [of A] joined_words_length [of B] by (cases "B = []") (auto simp: joined_words_def)
  qed
qed

end

lemma numeral_value_bound: "list_all isxdigit ds \<Longrightarrow> numeral_value 16 ds < 16 ^ length ds"
proof (induction ds rule: rev_induct)
  case (snoc d ds)
  have "isxdigit d" using snoc.prems by simp
  then have "digit_value d < 16" by (rule digit_value_less)
  moreover have "numeral_value 16 ds < 16 ^ length ds" using snoc by simp
  ultimately show ?case by simp
qed simp

text \<open>What \<open>strtol\<close> consumes: the digits, or more when it skips a prefix.\<close>

lemma strtol16_consumes:
  assumes "strtol16 s = (r, rest)"
  obtains p where "s = p @ rest" "CHR '':'' \<notin> set p" "0 \<le> r"
    "list_all isxdigit p \<and> r \<le> int (numeral_value 16 p) \<or> 3 \<le> length p \<and> \<not> isxdigit (p ! 1)"
proof (cases "\<exists>x d q. s = CHR ''0'' # x # d # q \<and> (x = CHR ''x'' \<or> x = CHR ''X'') \<and> isxdigit d")
  case True
  then obtain x d q where s: "s = CHR ''0'' # x # d # q" and x: "x = CHR ''x'' \<or> x = CHR ''X''" and d: "isxdigit d" by blast
  with assms have r: "r = min (int (numeral_value 16 (takeWhile isxdigit (d # q)))) LONG_MAX" "rest = dropWhile isxdigit (d # q)"
    by (auto simp: strtol16_def Let_def)
  let ?p = "CHR ''0'' # x # takeWhile isxdigit (d # q)"
  have "s = ?p @ rest" unfolding r(2) s by simp
  moreover have "CHR '':'' \<notin> set ?p" using x set_takeWhileD [of "CHR '':''" isxdigit "d # q"] by auto
  moreover have "0 \<le> r" by (simp add: r(1) LONG_MAX_def)
  moreover have "3 \<le> length ?p \<and> \<not> isxdigit (?p ! 1)" using x d by auto
  ultimately show thesis using that by blast
next
  case False
  then have "(case s of z # x # d # q \<Rightarrow>
      if z = CHR ''0'' \<and> (x = CHR ''x'' \<or> x = CHR ''X'') \<and> isxdigit d then d # q else s | _ \<Rightarrow> s) = s"
    by (auto split: list.split)
  with assms have r: "r = min (int (numeral_value 16 (takeWhile isxdigit s))) LONG_MAX" "rest = dropWhile isxdigit s"
    unfolding strtol16_def Let_def by auto
  let ?p = "takeWhile isxdigit s"
  have "s = ?p @ rest" by (simp add: r(2))
  moreover have "CHR '':'' \<notin> set ?p" using set_takeWhileD [of "CHR '':''" isxdigit s] by auto
  moreover have "0 \<le> r" "r \<le> int (numeral_value 16 ?p)" by (simp_all add: r(1) LONG_MAX_def)
  moreover have "list_all isxdigit ?p" by (auto simp: list_all_iff dest: set_takeWhileD)
  ultimately show thesis using that by blast
qed

text \<open>Where \<open>eow\<close> may be: at the end of the text, or behind a colon.\<close>

definition spans :: "string \<Rightarrow> int \<Rightarrow> bool" where
  "spans s k \<longleftrightarrow> k \<le> 0 \<or> k = int (length s) \<or> (k < int (length s) \<and> s ! nat (k - 1) = CHR '':'')"

lemma spans_drop:
  assumes "spans s k" "int n \<le> k" "n \<le> length s"
  shows "spans (drop n s) (k - int n)"
proof (cases "k - int n \<le> 0 \<or> k = int (length s)")
  case True
  with assms show ?thesis by (auto simp: spans_def)
next
  case False
  with assms have "k < int (length s)" "s ! nat (k - 1) = CHR '':''" by (auto simp: spans_def)
  moreover have "n + nat (k - int n - 1) = nat (k - 1)" using False by linarith
  ultimately show ?thesis using assms by (simp add: spans_def)
qed

lemma spans_over: "k \<le> 0 \<Longrightarrow> spans s k"
  by (simp add: spans_def)

text \<open>A word that is all of the rest of the text ends at \<open>eow\<close>.\<close>

lemma spans_all:
  assumes "spans s k" "0 < k" "CHR '':'' \<notin> set s"
  shows "k = int (length s)"
proof (rule ccontr)
  assume "k \<noteq> int (length s)"
  with assms have "k < int (length s)" "s ! nat (k - 1) = CHR '':''" by (auto simp: spans_def)
  moreover from this(1) assms(2) have "nat (k - 1) < length s" by linarith
  ultimately show False using assms(3) nth_mem [of "nat (k - 1)" s] by simp
qed

text \<open>
  The loop never fails an assertion; it keeps the number of words it has stored since it started in step
  with their count, and the gap at a position that was stored.
\<close>

definition safe_result :: "int \<Rightarrow> (int \<times> nat \<times> 16 word list) option checked \<Rightarrow> bool" where
  "safe_result excess res \<longleftrightarrow> (case res of
     Inl _ \<Rightarrow> False
   | Inr None \<Rightarrow> True
   | Inr (Some (g, m, ws)) \<Rightarrow> - 1 \<le> g \<and> g + excess \<le> int m \<and> length ws = 8)"

lemma safe_result_simps [simp]:
  "safe_result e (Inr None)"
  "safe_result e (Inr (Some (g, m, ws))) \<longleftrightarrow> - 1 \<le> g \<and> g + e \<le> int m \<and> length ws = 8"
  by (simp_all add: safe_result_def)

text \<open>A word of at most four digits without a prefix is below 65536.\<close>

lemma small_word:
  assumes "list_all isxdigit p \<and> r \<le> int (numeral_value 16 p) \<or> 3 \<le> length p \<and> \<not> isxdigit (p ! 1)"
    and "length p \<le> 4" and "length p > 1 \<longrightarrow> isxdigit (peek (tl (p @ rest)))"
  shows "r < 65536"
proof -
  have "\<not> (3 \<le> length p \<and> \<not> isxdigit (p ! 1))"
  proof
    assume long: "3 \<le> length p \<and> \<not> isxdigit (p ! 1)"
    then obtain a b q where "p = a # b # q" by (cases p; cases "tl p") auto
    with long assms(3) show False by simp
  qed
  with assms(1) have p: "list_all isxdigit p" "r \<le> int (numeral_value 16 p)" by auto
  have "numeral_value 16 p < 16 ^ length p" using p(1) by (rule numeral_value_bound)
  also have "\<dots> \<le> 16 ^ 4" using assms(2) by (intro power_increasing) auto
  finally show ?thesis using p(2) by simp
qed

text \<open>One round of the loop: it stops, or goes on behind what it read.\<close>

lemma word_round:
  assumes "NUL \<notin> set s" "spans s k" "0 < k" "\<not> 7 < i" "isxdigit (peek s)"
  shows "pton_words s k i g n ws = Inr None \<or>
    (\<exists>t k' w. pton_words s k i g n ws = pton_words t k' (i + 1) g (n + 1) (ws[i := w]) \<and>
      k' < k \<and> spans t k' \<and> NUL \<notin> set t)"
proof -
  obtain r rest where st: "strtol16 s = (r, rest)" by fastforce
  then obtain p where s: "s = p @ rest" and nocolon: "CHR '':'' \<notin> set p" and r0: "0 \<le> r"
    and read: "list_all isxdigit p \<and> r \<le> int (numeral_value 16 p) \<or> 3 \<le> length p \<and> \<not> isxdigit (p ! 1)"
    by (rule strtol16_consumes)
  let ?k = "k - int (length p) - 1"
  have len: "k = int (length p) \<and> peek (tl s) = peek (tl p)" if "peek rest = NUL"
  proof -
    have "rest = []" using that assms(1) s by (cases rest) auto
    then show ?thesis using spans_all [of s k] assms(2,3) nocolon s by simp
  qed
  have step: "pton_words s k i g n ws =
      (if p = [] \<or> 4 < length p \<or> (1 < length p \<and> \<not> isxdigit (peek (tl s))) then Inr None
       else check (r < 65536) ''r < 65536'' (
         if peek rest \<noteq> CHR '':'' \<and> k - int (length p) \<noteq> 0 then Inr None
         else pton_words (drop 1 rest) ?k (i + 1) g (n + 1) (ws[i := word_of_int r])))"
    using assms(3-5) st r0 len
    by (subst pton_words.simps, cases "peek rest = NUL"; cases "p = []") (simp_all add: s Let_def check_def)
  show ?thesis
  proof (cases "p = [] \<or> 4 < length p \<or> (1 < length p \<and> \<not> isxdigit (peek (tl s)))")
    case False
    then have small: "r < 65536" using read s by (intro small_word [of p r rest]) auto
    show ?thesis
    proof (cases "peek rest \<noteq> CHR '':'' \<and> k - int (length p) \<noteq> 0")
      case True
      then show ?thesis using False small by (simp add: step check_def)
    next
      case more: False
      have "spans (drop 1 rest) ?k"
      proof (cases "?k < 0")
        case False
        then have "rest \<noteq> []" using more by (auto simp: NUL_def)
        then have "spans (drop (length p + 1) s) (k - int (length p + 1))"
          using False assms(2) s by (intro spans_drop) (auto simp: Suc_le_eq)
        then show ?thesis by (simp add: s algebra_simps)
      qed (simp add: spans_over)
      moreover have "NUL \<notin> set (drop 1 rest)" using assms(1) s by (auto dest: in_set_dropD)
      moreover have "pton_words s k i g n ws =
          pton_words (drop 1 rest) ?k (i + 1) g (n + 1) (ws[i := word_of_int r])"
        using False more small by (auto simp: step check_def)
      ultimately show ?thesis by (intro disjI2 exI conjI) (assumption | simp)+
    qed
  qed (simp add: step)
qed

lemma gap_round:
  assumes "NUL \<notin> set s" "spans s k" "0 < k" "\<not> 7 < i" "\<not> isxdigit (peek s)"
  shows "pton_words s k i g n ws = Inr None \<or>
    (\<exists>t k'. pton_words s k i g n ws = pton_words t k' i (int i) n ws \<and> k' < k \<and> spans t k' \<and> NUL \<notin> set t)"
proof -
  consider (gap) "peek s = CHR '':''" "i > 0" "g = -1"
    | (gap2) "peek s = CHR '':''" "i = 0" "1 < k" "peek (tl s) = CHR '':''" "g = -1"
    | (bad) "\<not> (peek s = CHR '':'' \<and> i > 0 \<and> g = -1)" "\<not> (peek s = CHR '':'' \<and> i = 0 \<and> 1 < k \<and> peek (tl s) = CHR '':'' \<and> g = -1)"
    by auto
  then show ?thesis
  proof cases
    case gap
    then have "s \<noteq> []" by (auto simp: NUL_def)
    then have "spans (drop 1 s) (k - int 1)" using assms by (intro spans_drop) (auto simp: Suc_le_eq)
    moreover have "NUL \<notin> set (drop 1 s)" using assms(1) by (auto dest: in_set_dropD)
    moreover have "pton_words s k i g n ws = pton_words (drop 1 s) (k - 1) i (int i) n ws"
      using gap assms by (subst pton_words.simps) simp
    ultimately show ?thesis by (intro disjI2 exI conjI) (assumption | simp)+
  next
    case gap2
    then obtain t where "s = CHR '':'' # CHR '':'' # t" by (cases s; cases "tl s") (auto simp: NUL_def)
    then have "spans (drop 2 s) (k - int 2)" using assms gap2 by (intro spans_drop) auto
    moreover have "NUL \<notin> set (drop 2 s)" using assms(1) by (auto dest: in_set_dropD)
    moreover have "pton_words s k i g n ws = pton_words (drop 2 s) (k - 2) i (int i) n ws"
      using gap2 assms by (subst pton_words.simps) simp
    ultimately show ?thesis by (intro disjI2 exI conjI) (assumption | simp)+
  next
    case bad
    then show ?thesis using assms(3-5) by (subst pton_words.simps) auto
  qed
qed

lemma pton_words_safe:
  assumes "NUL \<notin> set s" "spans s k" "- 1 \<le> g" "g \<le> int i" "length ws = 8"
  shows "safe_result (int n - int i) (pton_words s k i g n ws)"
  using assms
proof (induction "nat k" arbitrary: s k i g n ws rule: less_induct)
  case less
  note prems = less.prems
  have IH: "safe_result (int n' - int i') (pton_words t k' i' g' n' ws')"
    if "k' < k" "0 < k" "NUL \<notin> set t" "spans t k'" "- 1 \<le> g'" "g' \<le> int i'" "length ws' = 8" for t k' i' g' n' ws'
    using that by (intro less.hyps) auto
  show ?case
  proof (cases "0 < k \<and> \<not> 7 < i")
    case False
    then show ?thesis using prems by (subst pton_words.simps) auto
  next
    case run: True
    show ?thesis
    proof (cases "isxdigit (peek s)")
      case True
      from word_round [OF prems(1,2) _ _ True, of i g n ws] run consider "pton_words s k i g n ws = Inr None"
        | t k' w where "pton_words s k i g n ws = pton_words t k' (i + 1) g (n + 1) (ws[i := w])"
            "k' < k" "spans t k'" "NUL \<notin> set t" by blast
      then show ?thesis
        using run prems IH [of _ _ g "i + 1" _ "n + 1"] by cases auto
    next
      case False
      from gap_round [OF prems(1,2) _ _ False, of i g n ws] run consider "pton_words s k i g n ws = Inr None"
        | t k' where "pton_words s k i g n ws = pton_words t k' i (int i) n ws" "k' < k" "spans t k'" "NUL \<notin> set t"
        by blast
      then show ?thesis using run prems IH [of _ _ "int i" i _ n] by cases auto
    qed
  qed
qed

lemma eow_of_spans:
  assumes "eow_of src = Some k"
  shows "spans src k"
proof -
  let ?before = "takeWhile (\<lambda>c. c \<noteq> CHR ''.'') src"
  from assms obtain cs where cs: "dropWhile isdigit (rev ?before) = CHR '':'' # cs" and k: "k = int (length cs) + 1"
    by (auto simp: eow_of_def Let_def split: list.splits if_splits)
  have "rev ?before = takeWhile isdigit (rev ?before) @ CHR '':'' # cs"
    using takeWhile_dropWhile_id [of isdigit "rev ?before"] cs by simp
  then have "?before = rev cs @ CHR '':'' # rev (takeWhile isdigit (rev ?before))"
    by (metis rev_append rev_rev_ident rev.simps(2) append.assoc append_Cons append_Nil)
  then have "src = rev cs @ CHR '':'' # rev (takeWhile isdigit (rev ?before)) @ dropWhile (\<lambda>c. c \<noteq> CHR ''.'') src"
    by (metis takeWhile_dropWhile_id append.assoc append_Cons)
  then obtain u where "src = rev cs @ CHR '':'' # u" by blast
  then show ?thesis using k by (auto simp: spans_def nth_append)
qed

lemma length_open_gap: "length ws = 8 \<Longrightarrow> g + l + n \<le> 8 \<Longrightarrow> length (open_gap g l n ws) = 8"
  by (simp add: open_gap_def)

lemma length_words_bytes: "length (words_bytes ws) = 2 * length ws"
  by (induction ws) (simp_all add: words_bytes_def)

definition pton_ok :: "(int \<times> net_addr option) checked \<Rightarrow> bool" where
  "pton_ok res \<longleftrightarrow> (case res of
     Inl _ \<Rightarrow> False
   | Inr (v, None) \<Rightarrow> v = 0 \<or> v = -1
   | Inr (v, Some (In6_Addr bs)) \<Rightarrow> v = 1 \<and> length bs = 16
   | Inr (v, Some _) \<Rightarrow> v = 1)"

lemma pton_ok_simps [simp]:
  "pton_ok (Inr (0, None))" "pton_ok (Inr (-1, None))" "pton_ok (Inr (1, Some (In_Addr a)))"
  "pton_ok (Inr (1, Some (In6_Addr bs))) \<longleftrightarrow> length bs = 16"
  by (simp_all add: pton_ok_def)

lemma pton_finish_ok:
  assumes "safe_result (if dot then 2 else 0) res"
  shows "pton_ok (bindE res (pton_finish dot))"
proof (cases res)
  case (Inr r)
  show ?thesis
  proof (cases r)
    case (Some t)
    obtain g m ws where t: "t = (g, m, ws)" by (cases t)
    with assms Inr Some have "- 1 \<le> g" "g + (if dot then 2 else 0) \<le> int m" "length ws = 8" by simp_all
    then show ?thesis
      using Inr Some t by (auto simp: pton_finish_def check_def Let_def length_words_bytes intro!: length_open_gap split: if_splits)
  qed (simp add: Inr pton_finish_def)
qed (use assms in \<open>simp add: safe_result_def\<close>)

lemma pton6_ok:
  assumes "NUL \<notin> set src"
  shows "pton_ok (pton6 L src)"
proof -
  have read: "pton_ok (bindE (pton_words src k 0 (-1) (if dot then 2 else 0) ws) (pton_finish dot))"
    if "spans src k" "length ws = 8" for k dot ws
    using pton_words_safe [OF assms that(1), of "-1" 0 ws "if dot then 2 else 0"] that(2) by (intro pton_finish_ok) (cases dot; simp)
  have ends: "spans src (int (length src))" by (simp add: spans_def)
  show ?thesis
    using read [OF ends, of _ False] read [OF eow_of_spans, of _ _ True]
    by (auto simp: pton6_def Let_def split: option.split)
qed

section \<open>Properties\<close>

fun family_of :: "net_addr \<Rightarrow> family" where
  "family_of (In_Addr _) = AF_INET"
| "family_of (In6_Addr _) = AF_INET6"
| "family_of Other_Addr = AF_OTHER"

text \<open>The C structure holds sixteen bytes.\<close>

fun net_addr_ok :: "net_addr \<Rightarrow> bool" where
  "net_addr_ok (In6_Addr bs) = (length bs = 16)"
| "net_addr_ok _ = True"

text \<open>
  C9. Every address that \<open>tor_inet_ntop\<close> prints is read back by \<open>tor_inet_pton\<close> as the same address,
  whichever form it has: dotted, mapped, with the longest run of zero words left out, or in full.
\<close>

theorem printed_address_is_read_back:
  assumes "inet_laws L" and "net_addr_ok a" and "tor_inet_ntop L a len = Some s"
  shows "tor_inet_pton L (family_of a) s = Inr (1, Some a)"
proof (cases a)
  case (In_Addr w)
  then have "s = dotted w" using assms(3) inet_laws.ntop_In_Addr [OF assms(1), of w len] by (auto split: if_splits)
  then show ?thesis using In_Addr inet_laws.aton_iff [OF assms(1), of s w] by (simp add: tor_inet_pton_def)
next
  case (In6_Addr bs)
  then have "s = inet_laws.text6 L bs" using assms(3) inet_laws.ntop_In6 [OF assms(1), of bs len] by (auto split: if_splits)
  then show ?thesis using In6_Addr assms(2) inet_laws.pton6_text6 [OF assms(1), of bs] by (simp add: tor_inet_pton_def)
next
  case Other_Addr
  then show ?thesis using assms(3) by (simp add: tor_inet_ntop_def)
qed

theorem printed_address_is_read_back_witness:
  "tor_inet_ntop plain_inet (In6_Addr [0x20, 0x01, 0x0d, 0xb8, 0, 0, 0, 0, 0, 0, 0, 0, 0, 0, 0, 1]) 46 = Some ''2001:db8::1'' \<and>
   tor_inet_pton plain_inet AF_INET6 ''2001:db8::1'' =
     Inr (1, Some (In6_Addr [0x20, 0x01, 0x0d, 0xb8, 0, 0, 0, 0, 0, 0, 0, 0, 0, 0, 0, 1]))"
proof -
  have print: "tor_inet_ntop plain_inet (In6_Addr [0x20, 0x01, 0x0d, 0xb8, 0, 0, 0, 0, 0, 0, 0, 0, 0, 0, 0, 1]) 46 = Some ''2001:db8::1''"
    by (simp add: tor_inet_ntop_def plain_inet_def Let_def numeral.simps [of 16] digit_char_def push_bit_eq_mult)
  from printed_address_is_read_back [OF plain.inet_laws_axioms _ print] print show ?thesis by simp
qed

text \<open>
  C32. \<open>tor_inet_aton\<close> accepts exactly the canonical text of an address: four decimal numbers up to 255
  without leading zeros and nothing else, which is what \<open>tor_inet_ntop\<close> prints into a buffer of 16 bytes.
\<close>

theorem aton_reads_canonical_text:
  assumes "inet_laws L"
  shows "tor_inet_aton L s = Some a \<longleftrightarrow> tor_inet_ntop L (In_Addr a) 16 = Some s"
  using inet_laws.aton_iff [OF assms, of s a] inet_laws.ntop_In_Addr [OF assms, of a 16] inet_laws.dotted_length [OF assms, of a]
  by auto

theorem aton_reads_canonical_text_witness:
  "tor_inet_aton plain_inet ''192.168.0.10'' = Some 0xC0A8000A \<and> tor_inet_aton plain_inet ''192.168.00.10'' = None"
proof -
  have "tor_inet_ntop plain_inet (In_Addr 0xC0A8000A) 16 = Some ''192.168.0.10''"
    by (simp add: tor_inet_ntop_def tor_inet_ntoa_def plain_inet_def Let_def numeral.simps [of 10] digit_char_def octet_def quad_text_def)
  moreover have "tor_inet_aton plain_inet ''192.168.00.10'' = None" by code_simp
  ultimately show ?thesis using aton_reads_canonical_text [OF plain.inet_laws_axioms] by simp
qed

text \<open>
  C39. The text of an address never overruns its buffer: it is shorter than 46 bytes with its NUL, so
  \<open>INET6_ADDRSTRLEN\<close> bytes always suffice, and a buffer that is too small gets no text at all.
\<close>

theorem printed_address_fits:
  assumes "inet_laws L" and "net_addr_ok a" and "a \<noteq> Other_Addr"
  shows "\<exists>s. length s \<le> 39 \<and> (\<forall>len. tor_inet_ntop L a len = (if length s < len then Some s else None))"
proof (cases a)
  case (In_Addr w)
  then show ?thesis using inet_laws.ntop_In_Addr [OF assms(1), of w] inet_laws.dotted_length [OF assms(1), of w]
    by (intro exI [of _ "dotted w"]) auto
next
  case (In6_Addr bs)
  then show ?thesis using inet_laws.ntop_In6 [OF assms(1), of bs] inet_laws.text6_length [OF assms(1), of bs] assms(2)
    by (intro exI [of _ "inet_laws.text6 L bs"]) auto
qed (use assms in simp)

theorem printed_address_fits_witness:
  "\<exists>s. length s \<le> 39 \<and> tor_inet_ntop plain_inet (In6_Addr (replicate 16 0xff)) 46 = Some s \<and>
    tor_inet_ntop plain_inet (In6_Addr (replicate 16 0xff)) (length s) = None"
proof -
  from printed_address_fits [OF plain.inet_laws_axioms, of "In6_Addr (replicate 16 0xff)"]
  obtain s where "length s \<le> 39"
    "\<And>len. tor_inet_ntop plain_inet (In6_Addr (replicate 16 0xff)) len = (if length s < len then Some s else None)"
    by auto
  then show ?thesis by (intro exI [of _ s]) simp
qed

text \<open>
  C15. Whatever text it is given, and whatever the library answers, \<open>tor_inet_pton\<close> returns without failing
  an assertion: -1 or 0 and no address, or 1 with an address of its family's size.
\<close>

theorem pton_is_total:
  assumes "NUL \<notin> set src"
  shows "pton_ok (tor_inet_pton L af src)"
  using pton6_ok [OF assms] by (cases af) (auto simp: tor_inet_pton_def split: option.split)

theorem pton_is_total_witness:
  "pton_ok (tor_inet_pton plain_inet AF_INET6 ''1:2:3:4:5:6:7::0x8:9.'')"
  by (rule pton_is_total) (simp add: NUL_def)

end
