(* ===== verification/Comparators.thy ===== *)
theory Comparators
  imports Prelude "HOL-Library.Multiset"
begin

text \<open>
  Comparison functions of the C sources: \<open>strcmp\<close> and its like return a negative number, zero or a
  positive number, of which only the sign is fixed; here it is -1, 0 or 1. The locale \<open>comparator\<close> states
  that such a function is a linear order, and lifts it to lists; sorting by it is unique.
\<close>

definition int_cmp :: "int \<Rightarrow> int \<Rightarrow> int" where
  "int_cmp x y = (if x < y then -1 else if x > y then 1 else 0)"

text \<open>The first difference decides, and a proper prefix is smaller.\<close>

fun lex_cmp :: "('a \<Rightarrow> 'a \<Rightarrow> int) \<Rightarrow> 'a list \<Rightarrow> 'a list \<Rightarrow> int" where
  "lex_cmp cmp [] [] = 0"
| "lex_cmp cmp [] (y # ys) = -1"
| "lex_cmp cmp (x # xs) [] = 1"
| "lex_cmp cmp (x # xs) (y # ys) = (if cmp x y \<noteq> 0 then cmp x y else lex_cmp cmp xs ys)"

definition strcmp :: "string \<Rightarrow> string \<Rightarrow> int" where
  "strcmp a b = lex_cmp int_cmp (map of_char a) (map of_char b)"

definition memcmp :: "8 word list \<Rightarrow> 8 word list \<Rightarrow> nat \<Rightarrow> int" where
  "memcmp a b n = lex_cmp int_cmp (map uint (take n a)) (map uint (take n b))"

locale comparator =
  fixes cmp :: "'a \<Rightarrow> 'a \<Rightarrow> int"
  assumes cmp_sign: "cmp a b \<in> {-1, 0, 1}"
    and cmp_flip: "cmp b a = - cmp a b"
    and cmp_zero: "cmp a b = 0 \<longleftrightarrow> a = b"
    and cmp_less_trans: "cmp a b < 0 \<Longrightarrow> cmp b c < 0 \<Longrightarrow> cmp a c < 0"
begin

lemma cmp_self [simp]: "cmp a a = 0"
  by (simp add: cmp_zero)

lemma cmp_le_trans: "cmp a b \<le> 0 \<Longrightarrow> cmp b c \<le> 0 \<Longrightarrow> cmp a c \<le> 0"
  using cmp_less_trans [of a b c] cmp_zero [of a b] cmp_zero [of b c] by (cases "a = b"; cases "b = c") auto

lemma cmp_antisym: "cmp a b \<le> 0 \<Longrightarrow> cmp b a \<le> 0 \<Longrightarrow> a = b"
  using cmp_flip [of a b] cmp_zero [of a b] by simp

lemma cmp_total: "cmp a b \<le> 0 \<or> cmp b a \<le> 0"
  using cmp_flip [of a b] by linarith

lemma lex_zero: "lex_cmp cmp xs ys = 0 \<longleftrightarrow> xs = ys"
  by (induction xs ys rule: list_induct2') (auto simp: cmp_zero)

lemma lex_less_trans: "lex_cmp cmp xs ys < 0 \<Longrightarrow> lex_cmp cmp ys zs < 0 \<Longrightarrow> lex_cmp cmp xs zs < 0"
proof (induction xs arbitrary: ys zs)
  case Nil
  then show ?case by (cases ys; cases zs) auto
next
  case (Cons x xs)
  then obtain y ys' where ys: "ys = y # ys'" by (cases ys) auto
  with Cons.prems(2) obtain z zs' where zs: "zs = z # zs'" by (cases zs) auto
  consider "x = y" "y = z" | "x = y" "cmp y z < 0" | "cmp x y < 0" "y = z" | "cmp x y < 0" "cmp y z < 0"
    using Cons.prems cmp_zero [of x y] cmp_zero [of y z] unfolding ys zs by (auto split: if_splits)
  then show ?case
    using Cons.prems Cons.IH [of ys' zs'] cmp_less_trans [of x y z] unfolding ys zs
    by cases (auto split: if_splits)
qed

lemma lex_comparator: "comparator (lex_cmp cmp)"
proof
  show "lex_cmp cmp a b \<in> {-1, 0, 1}" for a b
    using cmp_sign by (induction a b rule: list_induct2') auto
  show "lex_cmp cmp b a = - lex_cmp cmp a b" for a b
  proof (induction a b rule: list_induct2')
    case (4 x xs y ys)
    then show ?case using cmp_flip [of x y] by simp
  qed simp_all
  show "lex_cmp cmp a b = 0 \<longleftrightarrow> a = b" for a b
    by (rule lex_zero)
  show "lex_cmp cmp a b < 0 \<Longrightarrow> lex_cmp cmp b c < 0 \<Longrightarrow> lex_cmp cmp a c < 0" for a b c
    by (rule lex_less_trans)
qed

text \<open>Two sorted lists with the same elements are the same list.\<close>

lemma sorted_unique:
  "sorted_wrt (\<lambda>a b. cmp a b \<le> 0) xs \<Longrightarrow> sorted_wrt (\<lambda>a b. cmp a b \<le> 0) ys \<Longrightarrow> mset xs = mset ys \<Longrightarrow> xs = ys"
proof (induction xs arbitrary: ys)
  case Nil
  then show ?case by simp
next
  case (Cons x xs)
  then obtain y ys' where ys: "ys = y # ys'" by (cases ys) auto
  have "x \<in> set ys" "y \<in> set (x # xs)"
    using Cons.prems(3) ys mset_eq_setD [OF Cons.prems(3)] by auto
  then have "cmp x y \<le> 0" "cmp y x \<le> 0" using Cons.prems(1,2) ys by auto
  then have "x = y" by (rule cmp_antisym)
  with Cons ys show ?case by auto
qed

end

interpretation ints: comparator int_cmp
  by unfold_locales (auto simp: int_cmp_def split: if_splits)

interpretation int_lists: comparator "lex_cmp int_cmp"
  by (rule ints.lex_comparator)

interpretation int_list_lists: comparator "lex_cmp (lex_cmp int_cmp)"
  by (rule int_lists.lex_comparator)

lemma strcmp_zero: "strcmp a b = 0 \<longleftrightarrow> a = b"
proof -
  have "inj (of_char :: char \<Rightarrow> int)" by (rule inj_of_char)
  then show ?thesis by (simp add: strcmp_def int_lists.cmp_zero inj_map_eq_map)
qed

interpretation strings: comparator strcmp
proof
  show "strcmp a b \<in> {-1, 0, 1}" for a b
    unfolding strcmp_def by (rule int_lists.cmp_sign)
  show "strcmp b a = - strcmp a b" for a b
    unfolding strcmp_def by (rule int_lists.cmp_flip)
  show "strcmp a b = 0 \<longleftrightarrow> a = b" for a b
    by (rule strcmp_zero)
  show "strcmp a b < 0 \<Longrightarrow> strcmp b c < 0 \<Longrightarrow> strcmp a c < 0" for a b c
    unfolding strcmp_def by (rule int_lists.cmp_less_trans)
qed

end
