(* ===== verification/Version.thy ===== *)
theory Version
  imports C_Text Comparators
begin

text \<open>
  \<open>src/networking/lib/version.c\<close>: Tor versions as text, their order, which of them a list recommends, and
  the cache of what a list of protocols supports. Lines 191 to 195 lack braces around two branches of an
  \<open>if\<close>; the model has the branches their indentation means.
\<close>

section \<open>What the file calls\<close>

text \<open>
  Tor's text utilities. \<open>tor_parse_uint64\<close> reads a number in base 10 from 0 to \<open>INT32_MAX\<close>: the number
  and the rest of the text, or \<open>None\<close> when it says not ok. \<open>find_whitespace\<close> and \<open>eat_whitespace\<close> return a
  rest of their argument. \<open>starts_with s p\<close> is \<open>!strcmpstart(s, p)\<close>. \<open>split_list\<close> is
  \<open>smartlist_split_string\<close> on commas with \<open>SPLIT_SKIP_SPACE\<close>; \<open>status_value\<close> gives the numbers of the
  enumeration in the header.
\<close>

datatype version_status_tag = VER_PRE | VER_RC | VER_RELEASE

record version_lib =
  tor_parse_uint64 :: "string \<Rightarrow> (nat \<times> string) option"
  find_whitespace :: "string \<Rightarrow> string"
  eat_whitespace :: "string \<Rightarrow> string"
  starts_with :: "string \<Rightarrow> string \<Rightarrow> bool"
  starts_with_nocase :: "string \<Rightarrow> string \<Rightarrow> bool"
  split_list :: "string \<Rightarrow> string list"
  base16_decode :: "string \<Rightarrow> 8 word list option"
  status_value :: "version_status_tag \<Rightarrow> int"
  status_tag_size :: nat

abbreviation INT32_MAX :: int where "INT32_MAX \<equiv> 2147483647"

abbreviation HEX_DIGEST_LEN :: nat where "HEX_DIGEST_LEN \<equiv> 40"

text \<open>
  The laws the properties use: a number of digits is read up to the first character that is none, and
  rejected above the maximum; the white space functions return a rest; the statuses are different.
\<close>

locale version_laws =
  fixes L :: version_lib
  assumes parse_number: "ds \<noteq> [] \<Longrightarrow> list_all isdigit ds \<Longrightarrow> \<not> isdigit (peek r) \<Longrightarrow>
      tor_parse_uint64 L (ds @ r) =
        (if int (numeral_value 10 ds) \<le> INT32_MAX then Some (numeral_value 10 ds, r) else None)"
    and find_none: "list_all (\<lambda>c. \<not> isspace c \<and> c \<noteq> CHR ''#'') s \<Longrightarrow> find_whitespace L (s @ CHR '' '' # r) = CHR '' '' # r
      \<and> find_whitespace L s = []"
    and eat_space: "eat_whitespace L (CHR '' '' # s) = eat_whitespace L s"
    and eat_none: "s = [] \<or> \<not> isspace (peek s) \<and> peek s \<noteq> CHR ''#'' \<Longrightarrow> eat_whitespace L s = s"
    and starts: "starts_with L s p \<longleftrightarrow> take (length p) s = p"
    and starts_nocase: "starts_with L s p \<Longrightarrow> starts_with_nocase L s p"
    and starts_nocase_first: "s \<noteq> [] \<Longrightarrow> isdigit (hd s) \<Longrightarrow> \<not> starts_with_nocase L s ''Tor ''"
    and decoded: "base16_decode L s = Some bs \<Longrightarrow> length bs = length s div 2"
    and status_order: "0 \<le> status_value L VER_PRE" "status_value L VER_PRE < status_value L VER_RC"
      "status_value L VER_RC < status_value L VER_RELEASE" "status_value L VER_RELEASE \<le> INT32_MAX"
    and tag_size: "1 < status_tag_size L"

section \<open>Versions\<close>

record tor_version =
  major :: int
  minor :: int
  micro :: int
  status :: version_status_tag
  patchlevel :: int
  status_tag :: string
  svn_revision :: int
  git_tag_len :: nat
  git_tag :: "8 word list"

text \<open>\<open>memset(out, 0, sizeof(tor_version_t))\<close>, then the status.\<close>

definition blank_version :: tor_version where
  "blank_version = \<lparr>major = 0, minor = 0, micro = 0, status = VER_RELEASE, patchlevel = 0, status_tag = [],
     svn_revision = 0, git_tag_len = 0, git_tag = replicate 20 0\<rparr>"

text \<open>The macros \<open>NUMBER\<close> and \<open>DOT\<close>: what is read and where \<open>cp\<close> is then, or \<open>return -1\<close>.\<close>

definition NUMBER :: "version_lib \<Rightarrow> string \<Rightarrow> (int \<times> string) option" where
  "NUMBER L cp =
     (if \<not> isdigit (peek cp) then None
      else (case tor_parse_uint64 L cp of
              None \<Rightarrow> None
            | Some (n, eos) \<Rightarrow> if length eos = length cp then None else Some (int n, eos)))"

definition DOT :: "string \<Rightarrow> string option" where
  "DOT cp = (if peek cp \<noteq> CHR ''.'' then None else Some (drop 1 cp))"

text \<open>The part from the label \<open>status_tag\<close> on; \<open>None\<close> is \<open>return -1\<close>.\<close>

definition parse_status_tag :: "version_lib \<Rightarrow> tor_version \<Rightarrow> string \<Rightarrow> tor_version option" where
  "parse_status_tag L out cp0 =
     (let cp = (if peek cp0 = CHR ''-'' \<or> peek cp0 = CHR ''.'' then drop 1 cp0 else cp0);
          eos = find_whitespace L cp;
          n = length cp - length eos;
          out = out\<lparr>status_tag := take (if n \<ge> status_tag_size L then status_tag_size L - 1 else n) cp\<rparr>;
          cp = eat_whitespace L eos
      in if starts_with L cp ''(r'' then Some (out\<lparr>svn_revision := int_of_long (strtol10 (drop 2 cp))\<rparr>)
         else if starts_with L cp ''(git-'' then
           (if CHR '')'' \<notin> set cp then None
            else
              let hex = drop 5 (takeWhile (\<lambda>c. c \<noteq> CHR '')'') cp);
                  hexlen = length hex
              in if hexlen > HEX_DIGEST_LEN then None
                 else if hexlen = 0 \<or> hexlen mod 2 = 1 then None
                 else (case base16_decode L hex of
                         None \<Rightarrow> None
                       | Some digest \<Rightarrow>
                           Some (out\<lparr>git_tag := digest @ drop (hexlen div 2) (git_tag out), git_tag_len := hexlen div 2\<rparr>)))
         else Some out)"

definition parse_patchlevel :: "version_lib \<Rightarrow> tor_version \<Rightarrow> string \<Rightarrow> tor_version option" where
  "parse_patchlevel L out cp =
     (case NUMBER L cp of None \<Rightarrow> None | Some (n, cp) \<Rightarrow> parse_status_tag L (out\<lparr>patchlevel := n\<rparr>) cp)"

definition tor_version_parse :: "version_lib \<Rightarrow> string \<Rightarrow> tor_version option" where
  "tor_version_parse L s =
     (let cp = (if starts_with_nocase L s ''Tor '' then drop 4 s else s)
      in case NUMBER L cp of None \<Rightarrow> None | Some (n, cp) \<Rightarrow>
        let out = blank_version\<lparr>major := n\<rparr>
        in case DOT cp of None \<Rightarrow> None | Some cp \<Rightarrow>
        case NUMBER L cp of None \<Rightarrow> None | Some (n, cp) \<Rightarrow>
        let out = out\<lparr>minor := n\<rparr>
        in if cp = [] then Some out
           else if peek cp = CHR ''-'' then parse_status_tag L out cp
           else case DOT cp of None \<Rightarrow> None | Some cp \<Rightarrow>
        case NUMBER L cp of None \<Rightarrow> None | Some (n, cp) \<Rightarrow>
        let out = out\<lparr>micro := n\<rparr>
        in if cp = [] then Some out
           else if peek cp = CHR ''.'' then parse_patchlevel L out (drop 1 cp)
           else if peek cp = CHR ''-'' then parse_status_tag L out cp
           else if take 3 cp = ''pre'' then parse_patchlevel L (out\<lparr>status := VER_PRE\<rparr>) (drop 3 cp)
           else if take 2 cp = ''rc'' then parse_patchlevel L (out\<lparr>status := VER_RC\<rparr>) (drop 2 cp)
           else None)"

section \<open>Order\<close>

text \<open>\<open>CMP\<close> subtracts as unsigned and reads the difference as signed; 0 goes on.\<close>

definition CMP :: "int \<Rightarrow> int \<Rightarrow> int" where
  "CMP a b =
     (let result = sint (word_of_int a - word_of_int b :: 32 word)
      in if result < 0 then -1 else if result > 0 then 1 else 0)"

definition tor_version_compare :: "version_lib \<Rightarrow> tor_version \<Rightarrow> tor_version \<Rightarrow> int" where
  "tor_version_compare L a b =
     (let go = (\<lambda>c k. if c \<noteq> 0 then c else k :: int)
      in go (CMP (major a) (major b)) (
         go (CMP (minor a) (minor b)) (
         go (CMP (micro a) (micro b)) (
         go (CMP (status_value L (status a)) (status_value L (status b))) (
         go (CMP (patchlevel a) (patchlevel b)) (
         go (strcmp (status_tag a) (status_tag b)) (
         go (CMP (svn_revision a) (svn_revision b)) (
         go (CMP (int (git_tag_len a)) (int (git_tag_len b))) (
         if git_tag_len a \<noteq> 0 then memcmp (git_tag a) (git_tag b) (git_tag_len a) else 0)))))))))"

definition tor_version_same_series :: "tor_version \<Rightarrow> tor_version \<Rightarrow> bool" where
  "tor_version_same_series a b \<longleftrightarrow> major a = major b \<and> minor a = minor b \<and> micro a = micro b"

text \<open>Versions that can be parsed come first, in their order; the others follow as text.\<close>

definition compare_tor_version_str_ptr :: "version_lib \<Rightarrow> string \<Rightarrow> string \<Rightarrow> int" where
  "compare_tor_version_str_ptr L a b =
     (case (tor_version_parse L a, tor_version_parse L b) of
        (Some va, Some vb) \<Rightarrow> tor_version_compare L va vb
      | (Some _, None) \<Rightarrow> -1
      | (None, Some _) \<Rightarrow> 1
      | (None, None) \<Rightarrow> strcmp a b)"

text \<open>\<open>smartlist_sort\<close> and \<open>smartlist_uniq\<close> are Tor's; they are given the comparison.\<close>

record sort_lib =
  smartlist_sort :: "(string \<Rightarrow> string \<Rightarrow> int) \<Rightarrow> string list \<Rightarrow> string list"
  smartlist_uniq :: "(string \<Rightarrow> string \<Rightarrow> int) \<Rightarrow> string list \<Rightarrow> string list"

definition sort_version_list :: "version_lib \<Rightarrow> sort_lib \<Rightarrow> string list \<Rightarrow> bool \<Rightarrow> string list" where
  "sort_version_list L S versions remove_duplicates =
     (let sorted = smartlist_sort S (compare_tor_version_str_ptr L) versions
      in if remove_duplicates then smartlist_uniq S (compare_tor_version_str_ptr L) sorted else sorted)"

text \<open>The release date: \<open>parse_iso_time\<close> of the date at midnight, cut to the buffer; 0 when it is rejected.\<close>

definition tor_get_approx_release_date :: "(string \<Rightarrow> int option) \<Rightarrow> string \<Rightarrow> int" where
  "tor_get_approx_release_date parse_iso_time APPROX_RELEASE_DATE =
     (case parse_iso_time (take 19 (APPROX_RELEASE_DATE @ '' 00:00:00'')) of None \<Rightarrow> 0 | Some result \<Rightarrow> result)"

section \<open>Recommended versions\<close>

datatype version_status =
  VS_RECOMMENDED | VS_OLD | VS_NEW | VS_NEW_IN_SERIES | VS_EMPTY | VS_UNRECOMMENDED

text \<open>The flags of the loop of \<open>tor_version_is_obsolete\<close>.\<close>

record found =
  found_newer :: bool
  found_older :: bool
  found_newer_in_series :: bool
  found_any_in_series :: bool

definition nothing_found :: found where
  "nothing_found = \<lparr>found_newer = False, found_older = False, found_newer_in_series = False, found_any_in_series = False\<rparr>"

text \<open>One entry of the list, with or without \<open>Tor\<close> in front.\<close>

definition parse_entry :: "version_lib \<Rightarrow> string \<Rightarrow> tor_version option" where
  "parse_entry L cp = tor_version_parse L (if starts_with L cp ''Tor '' then drop 4 cp else cp)"

text \<open>\<open>None\<close> is \<open>VS_RECOMMENDED\<close> with \<open>goto done\<close>.\<close>

fun obsolete_loop :: "version_lib \<Rightarrow> tor_version \<Rightarrow> string list \<Rightarrow> found \<Rightarrow> found option" where
  "obsolete_loop L mine [] f = Some f"
| "obsolete_loop L mine (cp # cps) f =
     (case parse_entry L cp of
        None \<Rightarrow> obsolete_loop L mine cps f
      | Some other \<Rightarrow>
          let same = tor_version_same_series mine other;
              f = (if same then f\<lparr>found_any_in_series := True\<rparr> else f);
              r = tor_version_compare L mine other
          in if r = 0 then None
             else if r < 0 then
               obsolete_loop L mine cps (let f = f\<lparr>found_newer := True\<rparr>
                 in if same then f\<lparr>found_newer_in_series := True\<rparr> else f)
             else obsolete_loop L mine cps (f\<lparr>found_older := True\<rparr>))"

definition tor_version_is_obsolete :: "version_lib \<Rightarrow> string \<Rightarrow> string \<Rightarrow> version_status checked" where
  "tor_version_is_obsolete L myversion versionlist =
     (case tor_version_parse L myversion of
        None \<Rightarrow> Inl (CheckFailed ''tor_assert(0)'')
      | Some mine \<Rightarrow> Inr (
          if versionlist = [] then VS_EMPTY
          else case obsolete_loop L mine (split_list L versionlist) nothing_found of
            None \<Rightarrow> VS_RECOMMENDED
          | Some f \<Rightarrow>
              if found_any_in_series f \<and> \<not> found_newer_in_series f \<and> found_newer f then VS_NEW_IN_SERIES
              else if found_newer f \<and> \<not> found_older f then VS_OLD
              else if found_older f \<and> \<not> found_newer f then VS_NEW
              else VS_UNRECOMMENDED))"

section \<open>The version in a platform line\<close>

text \<open>The result of the call and, when it is 1, the version.\<close>

definition tor_version_parse_platform :: "version_lib \<Rightarrow> string \<Rightarrow> bool \<Rightarrow> int \<times> tor_version option" where
  "tor_version_parse_platform L platform strict =
     (if \<not> starts_with L platform ''Tor '' then (0, None)
      else
        let start = eat_whitespace L (drop 3 platform)
        in if start = [] then (-1, None)
           else
             let s = find_whitespace L start;
                 s2 = eat_whitespace L s;
                 s = (if starts_with L s2 ''(r'' \<or> starts_with L s2 ''(git-'' then find_whitespace L s2 else s);
                 n = length start - length s
             in if n + 1 \<ge> 128 then (-1, None)
                else (case tor_version_parse L (take n start) of
                        None \<Rightarrow> (-1, None)
                      | Some v \<Rightarrow>
                          if strict \<and> (major v < 0 \<or> minor v < 0 \<or> micro v < 0 \<or> patchlevel v < 0 \<or> svn_revision v < 0)
                          then (-1, None) else (1, Some v)))"

definition tor_version_as_new_as :: "version_lib \<Rightarrow> string \<Rightarrow> string \<Rightarrow> bool" where
  "tor_version_as_new_as L platform cutoff =
     (case tor_version_parse L cutoff of
        None \<Rightarrow> False
      | Some cutoff_version \<Rightarrow>
          (case tor_version_parse_platform L platform False of
             (r, Some router_version) \<Rightarrow> tor_version_compare L router_version cutoff_version \<ge> 0
           | (r, None) \<Rightarrow> True))"

end
