(* ===== verification/Version_Props.thy ===== *)
theory Version_Props
  imports Version
begin

text \<open>
  Properties of \<open>src/networking/lib/version.c\<close>: versions without a negative revision are linearly ordered
  by the lexicographic order of their fields, and a cycle of versions with large revisions; the status of
  a version depends only on which versions are recommended; a version is found in its platform line.
\<close>

section \<open>The order of versions\<close>

lemma CMP_int_cmp:
  assumes "0 \<le> a" "a \<le> INT32_MAX" "0 \<le> b" "b \<le> INT32_MAX"
  shows "CMP a b = int_cmp a b"
proof -
  have "(word_of_int a - word_of_int b :: 32 word) = word_of_int (a - b)" by simp
  moreover have "sint (word_of_int (a - b) :: 32 word) = a - b"
    using assms by (intro sint_small) auto
  ultimately show ?thesis by (simp add: CMP_def int_cmp_def Let_def del: of_int_diff)
qed

text \<open>The fields as the order reads them, each a list of numbers.\<close>

definition version_key :: "version_lib \<Rightarrow> tor_version \<Rightarrow> int list list" where
  "version_key L v =
     [[major v], [minor v], [micro v], [status_value L (status v)], [patchlevel v], map of_char (status_tag v),
      [svn_revision v], [int (git_tag_len v)], map uint (take (git_tag_len v) (git_tag v))]"

text \<open>The numbers of a version are not negative; its digest is at most twenty bytes.\<close>

definition version_ok :: "tor_version \<Rightarrow> bool" where
  "version_ok v \<longleftrightarrow> 0 \<le> major v \<and> major v \<le> INT32_MAX \<and> 0 \<le> minor v \<and> minor v \<le> INT32_MAX \<and>
     0 \<le> micro v \<and> micro v \<le> INT32_MAX \<and> 0 \<le> patchlevel v \<and> patchlevel v \<le> INT32_MAX \<and>
     0 \<le> svn_revision v \<and> svn_revision v \<le> INT32_MAX \<and> git_tag_len v \<le> 20"

definition statuses_ordered :: "version_lib \<Rightarrow> bool" where
  "statuses_ordered L \<longleftrightarrow> 0 \<le> status_value L VER_PRE \<and> status_value L VER_PRE < status_value L VER_RC \<and>
     status_value L VER_RC < status_value L VER_RELEASE \<and> status_value L VER_RELEASE \<le> INT32_MAX"

lemma status_range: "statuses_ordered L \<Longrightarrow> 0 \<le> status_value L s \<and> status_value L s \<le> INT32_MAX"
  by (cases s) (auto simp: statuses_ordered_def)

lemma status_value_eq: "statuses_ordered L \<Longrightarrow> status_value L s = status_value L t \<longleftrightarrow> s = t"
  by (cases s; cases t) (auto simp: statuses_ordered_def)

lemma compare_key:
  assumes "statuses_ordered L" and "version_ok a" and "version_ok b"
  shows "tor_version_compare L a b = lex_cmp (lex_cmp int_cmp) (version_key L a) (version_key L b)"
proof -
  have fields: "CMP (major a) (major b) = int_cmp (major a) (major b)"
    "CMP (minor a) (minor b) = int_cmp (minor a) (minor b)"
    "CMP (micro a) (micro b) = int_cmp (micro a) (micro b)"
    "CMP (patchlevel a) (patchlevel b) = int_cmp (patchlevel a) (patchlevel b)"
    "CMP (svn_revision a) (svn_revision b) = int_cmp (svn_revision a) (svn_revision b)"
    "CMP (int (git_tag_len a)) (int (git_tag_len b)) = int_cmp (int (git_tag_len a)) (int (git_tag_len b))"
    "CMP (status_value L (status a)) (status_value L (status b)) = int_cmp (status_value L (status a)) (status_value L (status b))"
    using assms(2,3) status_range [OF assms(1)] by (auto intro!: CMP_int_cmp simp: version_ok_def)
  show ?thesis
    by (simp add: tor_version_compare_def version_key_def fields strcmp_def memcmp_def Let_def)
      (auto simp: ints.cmp_zero)
qed

lemma key_eq:
  assumes "statuses_ordered L"
  shows "version_key L a = version_key L b \<longleftrightarrow>
    major a = major b \<and> minor a = minor b \<and> micro a = micro b \<and> status a = status b \<and>
    patchlevel a = patchlevel b \<and> status_tag a = status_tag b \<and> svn_revision a = svn_revision b \<and>
    git_tag_len a = git_tag_len b \<and> take (git_tag_len a) (git_tag a) = take (git_tag_len b) (git_tag b)"
proof -
  have "inj (of_char :: char \<Rightarrow> int)" "inj (uint :: 8 word \<Rightarrow> int)"
    by (rule inj_of_char) (simp add: inj_on_def word_uint_eq_iff)
  then show ?thesis using status_value_eq [OF assms, of "status a" "status b"] by (simp add: version_key_def inj_map_eq_map)
qed

section \<open>What parsing yields\<close>

context version_laws
begin

lemma statuses: "statuses_ordered L"
  using status_order by (simp add: statuses_ordered_def)

lemma NUMBER_value:
  "NUMBER L cp =
     (let ds = takeWhile isdigit cp
      in if ds \<noteq> [] \<and> int (numeral_value 10 ds) \<le> INT32_MAX then Some (int (numeral_value 10 ds), dropWhile isdigit cp) else None)"
proof (cases "isdigit (peek cp)")
  case False
  then show ?thesis by (cases cp) (auto simp: NUMBER_def)
next
  case True
  let ?ds = "takeWhile isdigit cp"
  let ?r = "dropWhile isdigit cp"
  have ds: "?ds \<noteq> []" using True by (cases cp) (auto simp: NUL_def isdigit_def)
  have "\<not> isdigit (peek ?r)"
    by (rule peek_dropWhile) simp
  moreover have "list_all isdigit ?ds" by (auto simp: list_all_iff dest: set_takeWhileD)
  ultimately have "tor_parse_uint64 L cp =
      (if int (numeral_value 10 ?ds) \<le> INT32_MAX then Some (numeral_value 10 ?ds, ?r) else None)"
    using parse_number [OF ds, of ?r] by simp
  moreover have "length ?r \<noteq> length cp"
    using ds by (metis add_cancel_left_left length_0_conv length_append takeWhile_dropWhile_id)
  ultimately show ?thesis using True ds by (simp add: NUMBER_def Let_def)
qed

lemma NUMBER_range: "NUMBER L cp = Some (n, r) \<Longrightarrow> 0 \<le> n \<and> n \<le> INT32_MAX"
  by (auto simp: NUMBER_value Let_def split: if_splits)

lemma int_of_long_range: "int_of_long x \<le> INT32_MAX" "- INT32_MAX - 1 \<le> int_of_long x"
  using sint_lt [of "word_of_int x :: 32 word"] sint_ge [of "word_of_int x :: 32 word"] by (simp_all add: int_of_long_def)

text \<open>The version is as it should be but for a revision below zero.\<close>

definition numbers_ok :: "tor_version \<Rightarrow> bool" where
  "numbers_ok v \<longleftrightarrow> version_ok (v\<lparr>svn_revision := 0\<rparr>) \<and> - INT32_MAX - 1 \<le> svn_revision v \<and> svn_revision v \<le> INT32_MAX"

lemma numbers_ok_updates:
  "numbers_ok (v\<lparr>status_tag := t\<rparr>) \<longleftrightarrow> numbers_ok v"
  "numbers_ok v \<Longrightarrow> numbers_ok (v\<lparr>svn_revision := int_of_long x\<rparr>)"
  "numbers_ok v \<Longrightarrow> n \<le> 20 \<Longrightarrow> numbers_ok (v\<lparr>git_tag := g, git_tag_len := n\<rparr>)"
  by (auto simp: numbers_ok_def version_ok_def int_of_long_range [simplified])

lemma parse_status_tag_ok:
  assumes "parse_status_tag L v cp = Some v'" and "numbers_ok v"
  shows "numbers_ok v'"
proof -
  have "numbers_ok (v\<lparr>status_tag := t\<rparr>)" for t using assms(2) by (simp add: numbers_ok_updates)
  then show ?thesis
    using assms(1) unfolding parse_status_tag_def Let_def
    by (auto simp del: take_eq_Nil simp: numbers_ok_updates(2,3) split: if_split_asm option.split_asm)
qed

lemma parse_patchlevel_ok: "parse_patchlevel L v cp = Some v' \<Longrightarrow> numbers_ok v \<Longrightarrow> numbers_ok v'"
  by (auto simp: parse_patchlevel_def numbers_ok_def version_ok_def dest!: NUMBER_range parse_status_tag_ok
      split: option.splits)

lemma numbers_ok_base:
  "0 \<le> x \<Longrightarrow> x \<le> INT32_MAX \<Longrightarrow> 0 \<le> y \<Longrightarrow> y \<le> INT32_MAX \<Longrightarrow> 0 \<le> z \<Longrightarrow> z \<le> INT32_MAX \<Longrightarrow>
   numbers_ok \<lparr>major = x, minor = y, micro = z, status = st, patchlevel = 0, status_tag = [], svn_revision = 0,
     git_tag_len = 0, git_tag = ds\<rparr>"
  by (simp add: numbers_ok_def version_ok_def)

lemma tor_version_parse_ok: "tor_version_parse L s = Some v \<Longrightarrow> numbers_ok v"
  by (auto simp: tor_version_parse_def Let_def blank_version_def
      intro: numbers_ok_base parse_status_tag_ok [OF _ numbers_ok_base] parse_patchlevel_ok [OF _ numbers_ok_base]
      dest!: NUMBER_range split: option.splits if_splits prod.splits)

text \<open>The arrays of a version are never overrun: the status tag leaves room for its NUL, the digest has twenty bytes.\<close>

definition arrays_ok :: "tor_version \<Rightarrow> bool" where
  "arrays_ok v \<longleftrightarrow> length (status_tag v) < status_tag_size L \<and> length (git_tag v) = 20"

lemma arrays_ok_updates [simp]:
  "arrays_ok (v\<lparr>status := st\<rparr>) = arrays_ok v" "arrays_ok (v\<lparr>patchlevel := n\<rparr>) = arrays_ok v"
  "arrays_ok (v\<lparr>major := n\<rparr>) = arrays_ok v" "arrays_ok (v\<lparr>minor := n\<rparr>) = arrays_ok v"
  "arrays_ok (v\<lparr>micro := n\<rparr>) = arrays_ok v" "arrays_ok (v\<lparr>svn_revision := n\<rparr>) = arrays_ok v"
  "arrays_ok (v\<lparr>git_tag_len := k\<rparr>) = arrays_ok v"
  by (simp_all add: arrays_ok_def)

lemma blank_arrays_ok [simp]: "arrays_ok blank_version"
  using tag_size by (simp add: arrays_ok_def blank_version_def)

lemma tag_arrays_ok:
  "arrays_ok v \<Longrightarrow> arrays_ok (v\<lparr>status_tag := take (if n \<ge> status_tag_size L then status_tag_size L - 1 else n) cp\<rparr>)"
  using tag_size by (auto simp: arrays_ok_def min_def)

lemma digest_arrays_ok:
  assumes "arrays_ok v" and "base16_decode L hex = Some digest" and "length hex = k" and "k \<le> HEX_DIGEST_LEN"
  shows "arrays_ok (v\<lparr>git_tag := digest @ drop (k div 2) (git_tag v)\<rparr>)"
  using assms(1,3,4) decoded [OF assms(2)] by (simp add: arrays_ok_def)

lemma parse_status_tag_arrays:
  assumes "parse_status_tag L v cp = Some v'" and "arrays_ok v"
  shows "arrays_ok v'"
proof -
  define cp' where "cp' = (if peek cp = CHR ''-'' \<or> peek cp = CHR ''.'' then drop 1 cp else cp)"
  define n where "n = length cp' - length (find_whitespace L cp')"
  define w where "w = v\<lparr>status_tag := take (if n \<ge> status_tag_size L then status_tag_size L - 1 else n) cp'\<rparr>"
  have w: "arrays_ok w" unfolding w_def using assms(2) by (rule tag_arrays_ok)
  from assms(1) show ?thesis
    unfolding parse_status_tag_def Let_def
    unfolding cp'_def [symmetric] n_def [symmetric] w_def [symmetric]
    using w digest_arrays_ok [OF w] by (auto split: if_split_asm option.split_asm)
qed

lemma parse_patchlevel_arrays: "parse_patchlevel L v cp = Some v' \<Longrightarrow> arrays_ok v \<Longrightarrow> arrays_ok v'"
  by (auto simp: parse_patchlevel_def dest!: parse_status_tag_arrays split: option.splits)

lemma tor_version_parse_arrays: "tor_version_parse L s = Some v \<Longrightarrow> arrays_ok v"
  by (auto simp: tor_version_parse_def Let_def intro: parse_status_tag_arrays parse_patchlevel_arrays
      split: option.splits if_splits prod.splits)

lemma parsed_version_ok: "tor_version_parse L s = Some v \<Longrightarrow> 0 \<le> svn_revision v \<Longrightarrow> version_ok v"
  using tor_version_parse_ok [of s v] by (simp add: numbers_ok_def version_ok_def)

end

section \<open>An implementation of the text utilities\<close>

definition plain_parse_uint64 :: "string \<Rightarrow> (nat \<times> string) option" where
  "plain_parse_uint64 s =
     (let ds = takeWhile isdigit s
      in if ds \<noteq> [] \<and> int (numeral_value 10 ds) \<le> INT32_MAX then Some (numeral_value 10 ds, dropWhile isdigit s) else None)"

text \<open>White space and comments, which run to the end of their line.\<close>

function plain_eat :: "string \<Rightarrow> string" where
  "plain_eat s =
     (case dropWhile isspace s of
        [] \<Rightarrow> []
      | c # r \<Rightarrow> if c = CHR ''#'' then plain_eat (dropWhile (\<lambda>d. d \<noteq> CHR 0x0A) r) else c # r)"
  by auto

termination
proof (relation "measure length", simp)
  fix s :: string and c r
  assume "dropWhile isspace s = c # r"
  then have "Suc (length r) \<le> length s" by (metis length_Cons length_dropWhile_le)
  moreover have "length (dropWhile (\<lambda>d. d \<noteq> CHR 0x0A) r) \<le> length r" by (rule length_dropWhile_le)
  ultimately show "(dropWhile (\<lambda>d. d \<noteq> CHR 0x0A) r, s) \<in> measure length" by simp
qed

declare plain_eat.simps [simp del]

definition tolower :: "char \<Rightarrow> char" where
  "tolower c = (let n = of_char c :: nat in if 65 \<le> n \<and> n \<le> 90 then char_of (n + 32) else c)"

definition strip :: "string \<Rightarrow> string" where
  "strip s = rev (dropWhile isspace (rev (dropWhile isspace s)))"

fun hex_pairs :: "string \<Rightarrow> 8 word list option" where
  "hex_pairs [] = Some []"
| "hex_pairs [c] = None"
| "hex_pairs (c # d # s) =
     (if isxdigit c \<and> isxdigit d
      then map_option ((#) (of_nat (numeral_value 16 [c, d]))) (hex_pairs s) else None)"

definition plain_version :: version_lib where
  "plain_version =
     \<lparr>tor_parse_uint64 = plain_parse_uint64,
      find_whitespace = dropWhile (\<lambda>c. \<not> isspace c \<and> c \<noteq> CHR ''#''),
      eat_whitespace = plain_eat,
      starts_with = (\<lambda>s p. take (length p) s = p),
      starts_with_nocase = (\<lambda>s p. map tolower (take (length p) s) = map tolower p),
      split_list = (\<lambda>s. map strip (split_on (CHR '','') s)),
      base16_decode = hex_pairs,
      status_value = (\<lambda>t. case t of VER_PRE \<Rightarrow> 0 | VER_RC \<Rightarrow> 1 | VER_RELEASE \<Rightarrow> 2),
      status_tag_size = 32\<rparr>"

lemma plain_selectors:
  "tor_parse_uint64 plain_version = plain_parse_uint64"
  "find_whitespace plain_version s = dropWhile (\<lambda>c. \<not> isspace c \<and> c \<noteq> CHR ''#'') s"
  "eat_whitespace plain_version = plain_eat"
  "starts_with plain_version s p \<longleftrightarrow> take (length p) s = p"
  "starts_with_nocase plain_version s p \<longleftrightarrow> map tolower (take (length p) s) = map tolower p"
  "status_tag_size plain_version = 32"
  by (simp_all add: plain_version_def)

lemma hex_pairs_length: "hex_pairs s = Some bs \<Longrightarrow> length bs = length s div 2"
  by (induction s arbitrary: bs rule: hex_pairs.induct) (auto split: if_splits)

lemma digit_not_letter: "isdigit c \<Longrightarrow> tolower c = c"
  unfolding isdigit_def insert_iff empty_iff by (elim disjE FalseE; simp add: tolower_def)

lemma tolower_T: "tolower (CHR ''T'') = CHR ''t''"
  by code_simp

interpretation plain: version_laws plain_version
proof
  let ?L = plain_version
  show "tor_parse_uint64 ?L (ds @ r) =
      (if int (numeral_value 10 ds) \<le> INT32_MAX then Some (numeral_value 10 ds, r) else None)"
    if "ds \<noteq> []" "list_all isdigit ds" "\<not> isdigit (peek r)" for ds r
  proof -
    have "takeWhile isdigit (ds @ r) = ds" "dropWhile isdigit (ds @ r) = r"
      using that(2,3) by (cases r; simp add: list_all_iff)+
    with that(1) show ?thesis by (simp add: plain_version_def plain_parse_uint64_def Let_def)
  qed
  show "list_all (\<lambda>c. \<not> isspace c \<and> c \<noteq> CHR ''#'') s \<Longrightarrow>
      find_whitespace ?L (s @ CHR '' '' # r) = CHR '' '' # r \<and> find_whitespace ?L s = []" for s r
    using dropWhile_append2 [of s "\<lambda>c. \<not> isspace c \<and> c \<noteq> CHR ''#''" "CHR '' '' # r"]
    by (simp add: plain_version_def list_all_iff isspace_def [of "CHR '' ''"])
  show "eat_whitespace ?L (CHR '' '' # s) = eat_whitespace ?L s" for s
    by (simp add: plain_version_def plain_eat.simps [of "CHR '' '' # s"] plain_eat.simps [of s] isspace_def)
  show "s = [] \<or> \<not> isspace (peek s) \<and> peek s \<noteq> CHR ''#'' \<Longrightarrow> eat_whitespace ?L s = s" for s
    unfolding plain_version_def by (simp, subst plain_eat.simps) (cases s; auto)
  show "s \<noteq> [] \<Longrightarrow> isdigit (hd s) \<Longrightarrow> \<not> starts_with_nocase ?L s ''Tor ''" for s
    using digit_not_letter [of "hd s"] by (cases s) (auto simp: plain_version_def tolower_T isdigit_def)
  show "base16_decode ?L s = Some bs \<Longrightarrow> length bs = length s div 2" for s bs
    by (simp add: plain_version_def hex_pairs_length)
qed (auto simp: plain_version_def)

section \<open>Versions are ordered\<close>

text \<open>
  C11. Versions that are read from text and whose \<open>svn_revision\<close> is not negative (the number of the text
  is cut to an \<open>int\<close>, which can make it so) are ordered: among them the comparison is antisymmetric and
  transitive, and zero exactly for versions that agree in every field, the digest up to its length. With
  negative revisions versions can compare in a circle: see \<open>large_revisions_in_a_circle\<close>.
\<close>

theorem versions_are_ordered:
  assumes "version_laws L"
    and "tor_version_parse L s = Some a" "tor_version_parse L t = Some b" "tor_version_parse L u = Some c"
    and "0 \<le> svn_revision a" "0 \<le> svn_revision b" "0 \<le> svn_revision c"
  shows "tor_version_compare L b a = - tor_version_compare L a b \<and>
    (tor_version_compare L a b = 0) = (version_key L a = version_key L b) \<and>
    (tor_version_compare L a b \<le> 0 \<and> tor_version_compare L b c \<le> 0 \<longrightarrow> tor_version_compare L a c \<le> 0)"
proof -
  note ok = version_laws.parsed_version_ok [OF assms(1)] and st = version_laws.statuses [OF assms(1)]
  have "version_ok a" "version_ok b" "version_ok c" using ok assms(2-7) by blast+
  then have keys: "tor_version_compare L a b = lex_cmp (lex_cmp int_cmp) (version_key L a) (version_key L b)"
    "tor_version_compare L b a = lex_cmp (lex_cmp int_cmp) (version_key L b) (version_key L a)"
    "tor_version_compare L b c = lex_cmp (lex_cmp int_cmp) (version_key L b) (version_key L c)"
    "tor_version_compare L a c = lex_cmp (lex_cmp int_cmp) (version_key L a) (version_key L c)"
    using compare_key [OF st] by blast+
  show ?thesis
    unfolding keys using int_list_lists.cmp_flip int_list_lists.cmp_zero int_list_lists.cmp_le_trans by blast
qed

text \<open>
  C20. A version that is read has the type its structure declares: its numbers are in the range of their fields, its tag
  with the NUL fits the buffer and its digest the array, whatever the text was.
\<close>

theorem parsed_version_is_well_typed:
  assumes "version_laws L" and "tor_version_parse L s = Some v"
  shows "{major v, minor v, micro v, patchlevel v} \<subseteq> {0..INT32_MAX} \<and>
    svn_revision v \<in> {- INT32_MAX - 1..INT32_MAX} \<and>
    length (status_tag v) < status_tag_size L \<and> length (git_tag v) = 20 \<and> git_tag_len v \<le> 20"
  using version_laws.tor_version_parse_ok [OF assms] version_laws.tor_version_parse_arrays [OF assms]
    version_laws.arrays_ok_def [OF assms(1), of v] version_laws.numbers_ok_def [OF assms(1), of v]
  by (auto simp: version_ok_def)

text \<open>A version with a tag and a revision, for examples.\<close>

definition sample_version :: "int \<Rightarrow> int \<Rightarrow> string \<Rightarrow> int \<Rightarrow> tor_version" where
  "sample_version mi p tag r = blank_version\<lparr>minor := 4, micro := mi, patchlevel := p, status_tag := tag, svn_revision := r\<rparr>"

lemma sample_parses:
  "tor_version_parse plain_version ''0.4.8.9'' = Some (sample_version 8 9 [] 0)"
  "tor_version_parse plain_version ''0.4.8.10-alpha'' = Some (sample_version 8 10 ''alpha'' 0)"
  "tor_version_parse plain_version ''Tor 0.4.8.10 (r77)'' = Some (sample_version 8 10 [] 77)"
  by code_simp+

theorem parsed_version_is_well_typed_witness:
  "length (status_tag (sample_version 8 10 ''alpha'' 0)) < 32 \<and> length (git_tag (sample_version 8 10 ''alpha'' 0)) = 20"
  using parsed_version_is_well_typed [OF plain.version_laws_axioms sample_parses(2)] by (simp add: plain_version_def)

theorem versions_are_ordered_witness:
  "tor_version_compare plain_version (sample_version 8 9 [] 0) (sample_version 8 10 [] 77) = -1 \<and>
   tor_version_compare plain_version (sample_version 8 10 [] 77) (sample_version 8 10 ''alpha'' 0) = -1 \<and>
   tor_version_compare plain_version (sample_version 8 9 [] 0) (sample_version 8 10 ''alpha'' 0) \<le> 0"
proof -
  have "tor_version_compare plain_version (sample_version 8 9 [] 0) (sample_version 8 10 [] 77) = -1"
    "tor_version_compare plain_version (sample_version 8 10 [] 77) (sample_version 8 10 ''alpha'' 0) = -1"
    by code_simp+
  with versions_are_ordered [OF plain.version_laws_axioms sample_parses(1,3,2)] show ?thesis
    by (simp add: sample_version_def blank_version_def)
qed

text \<open>
  A revision is read with \<open>strtol\<close> and cut to 32 bits, and the comparison wraps around: these three
  versions are each below the next, in a circle.
\<close>

lemma large_revisions_in_a_circle:
  "tor_version_parse plain_version ''0.4.2.3 (r0)'' = Some (sample_version 2 3 [] 0)"
  "tor_version_parse plain_version ''0.4.2.3 (r1500000000)'' = Some (sample_version 2 3 [] 1500000000)"
  "tor_version_parse plain_version ''0.4.2.3 (r3000000000)'' = Some (sample_version 2 3 [] (- 1294967296))"
  "tor_version_compare plain_version (sample_version 2 3 [] 0) (sample_version 2 3 [] 1500000000) = -1"
  "tor_version_compare plain_version (sample_version 2 3 [] 1500000000) (sample_version 2 3 [] (- 1294967296)) = -1"
  "tor_version_compare plain_version (sample_version 2 3 [] (- 1294967296)) (sample_version 2 3 [] 0) = -1"
proof -
  note parse = tor_version_parse_def plain.NUMBER_value DOT_def parse_patchlevel_def parse_status_tag_def
    isdigit_def isspace_def strtol10_def numeral_value_def digit_value_def LONG_MAX_def int_of_long_def
    sample_version_def blank_version_def tolower_def plain_eat.simps Let_def plain_selectors
  show "tor_version_parse plain_version ''0.4.2.3 (r0)'' = Some (sample_version 2 3 [] 0)"
    "tor_version_parse plain_version ''0.4.2.3 (r1500000000)'' = Some (sample_version 2 3 [] 1500000000)"
    "tor_version_parse plain_version ''0.4.2.3 (r3000000000)'' = Some (sample_version 2 3 [] (- 1294967296))"
    by (simp_all add: parse)
qed (simp_all add: tor_version_compare_def sample_version_def blank_version_def CMP_def strcmp_def)

section \<open>Recommended versions\<close>

text \<open>The versions a list names, as far as they can be read.\<close>

definition versions_of :: "version_lib \<Rightarrow> string list \<Rightarrow> tor_version set" where
  "versions_of L cps = {v. \<exists>cp \<in> set cps. parse_entry L cp = Some v}"

lemma versions_of_simps [simp]:
  "versions_of L [] = {}"
  "parse_entry L cp = None \<Longrightarrow> versions_of L (cp # cps) = versions_of L cps"
  "parse_entry L cp = Some v \<Longrightarrow> versions_of L (cp # cps) = insert v (versions_of L cps)"
  by (auto simp: versions_of_def)

text \<open>The status in terms of the set of listed versions only.\<close>

definition status_among :: "version_lib \<Rightarrow> tor_version \<Rightarrow> tor_version set \<Rightarrow> version_status" where
  "status_among L mine V =
     (if \<exists>v\<in>V. tor_version_compare L mine v = 0 then VS_RECOMMENDED
      else if (\<exists>v\<in>V. tor_version_same_series mine v) \<and> (\<exists>v\<in>V. tor_version_compare L mine v < 0) \<and>
              \<not> (\<exists>v\<in>V. tor_version_same_series mine v \<and> tor_version_compare L mine v < 0) then VS_NEW_IN_SERIES
      else if (\<exists>v\<in>V. tor_version_compare L mine v < 0) \<and> \<not> (\<exists>v\<in>V. tor_version_compare L mine v > 0) then VS_OLD
      else if (\<exists>v\<in>V. tor_version_compare L mine v > 0) \<and> \<not> (\<exists>v\<in>V. tor_version_compare L mine v < 0) then VS_NEW
      else VS_UNRECOMMENDED)"

lemma obsolete_loop_value:
  "obsolete_loop L mine cps f =
    (let V = versions_of L cps
     in if \<exists>v\<in>V. tor_version_compare L mine v = 0 then None
     else Some \<lparr>found_newer = (found_newer f \<or> (\<exists>v\<in>V. tor_version_compare L mine v < 0)),
       found_older = (found_older f \<or> (\<exists>v\<in>V. tor_version_compare L mine v > 0)),
       found_newer_in_series = (found_newer_in_series f \<or>
         (\<exists>v\<in>V. tor_version_same_series mine v \<and> tor_version_compare L mine v < 0)),
       found_any_in_series = (found_any_in_series f \<or> (\<exists>v\<in>V. tor_version_same_series mine v))\<rparr>)"
proof (induction cps arbitrary: f)
  case Nil
  then show ?case by simp
next
  case (Cons cp cps)
  show ?case
  proof (cases "parse_entry L cp")
    case None
    with Cons show ?thesis by simp
  next
    case (Some v)
    consider "tor_version_compare L mine v = 0" | "tor_version_compare L mine v < 0" | "tor_version_compare L mine v > 0"
      by linarith
    then show ?thesis
      using Some by cases (simp_all add: Cons Let_def)
  qed
qed

text \<open>
  C31. Whether a version is recommended, old or new depends only on the set of versions the list names: their
  order, repetitions and the entries that cannot be read make no difference. An own version that cannot be
  read, and only that, stops the program.
\<close>

theorem obsolete_depends_on_listed_versions:
  "tor_version_is_obsolete L myversion versionlist =
     (case tor_version_parse L myversion of
        None \<Rightarrow> Inl (CheckFailed ''tor_assert(0)'')
      | Some mine \<Rightarrow>
          Inr (if versionlist = [] then VS_EMPTY else status_among L mine (versions_of L (split_list L versionlist))))"
proof (cases "tor_version_parse L myversion")
  case (Some mine)
  then show ?thesis
    by (cases "\<exists>v\<in>versions_of L (split_list L versionlist). tor_version_compare L mine v = 0")
      (simp_all add: tor_version_is_obsolete_def obsolete_loop_value nothing_found_def status_among_def Let_def, blast)
qed (simp add: tor_version_is_obsolete_def)

section \<open>Versions in platform lines\<close>

definition word_char :: "char \<Rightarrow> bool" where
  "word_char c \<longleftrightarrow> \<not> isspace c \<and> c \<noteq> CHR ''#''"

text \<open>
  A version as it is stated: two numbers, three, or four, the last after a dot, \<open>pre\<close> or \<open>rc\<close>; then a tag, or none;
  then a revision in parentheses, of Subversion as a number or of Git as a digest in hexadecimal, with its bytes.
\<close>

datatype series =
    TwoNumbers
  | ThreeNumbers nat
  | FourNumbers nat version_status_tag nat

datatype revision = NoRevision | SvnRevision nat | GitRevision string "8 word list"

record stated_version =
  sv_major :: nat
  sv_minor :: nat
  sv_series :: series
  sv_tag :: string
  sv_revision :: revision

fun before_patchlevel :: "version_status_tag \<Rightarrow> string" where
  "before_patchlevel VER_RELEASE = ''.''"
| "before_patchlevel VER_PRE = ''pre''"
| "before_patchlevel VER_RC = ''rc''"

fun series_text :: "series \<Rightarrow> string" where
  "series_text TwoNumbers = []"
| "series_text (ThreeNumbers c) = CHR ''.'' # numeral 10 c"
| "series_text (FourNumbers c st d) = CHR ''.'' # numeral 10 c @ before_patchlevel st @ numeral 10 d"

definition tag_text :: "string \<Rightarrow> string" where
  "tag_text tag = (if tag = [] then [] else CHR ''-'' # tag)"

fun revision_word :: "revision \<Rightarrow> string" where
  "revision_word NoRevision = []"
| "revision_word (SvnRevision n) = ''(r'' @ numeral 10 n @ '')''"
| "revision_word (GitRevision hex bytes) = ''(git-'' @ hex @ '')''"

definition revision_text :: "revision \<Rightarrow> string" where
  "revision_text r = (if r = NoRevision then [] else CHR '' '' # revision_word r)"

definition version_word :: "stated_version \<Rightarrow> string" where
  "version_word sv =
     numeral 10 (sv_major sv) @ CHR ''.'' # numeral 10 (sv_minor sv) @ series_text (sv_series sv) @ tag_text (sv_tag sv)"

definition version_text :: "stated_version \<Rightarrow> string" where
  "version_text sv = version_word sv @ revision_text (sv_revision sv)"

text \<open>What the statement means.\<close>

fun with_series :: "series \<Rightarrow> tor_version \<Rightarrow> tor_version" where
  "with_series TwoNumbers v = v"
| "with_series (ThreeNumbers c) v = v\<lparr>micro := int c\<rparr>"
| "with_series (FourNumbers c st d) v = v\<lparr>micro := int c, status := st, patchlevel := int d\<rparr>"

fun with_revision :: "revision \<Rightarrow> tor_version \<Rightarrow> tor_version" where
  "with_revision NoRevision v = v"
| "with_revision (SvnRevision n) v = v\<lparr>svn_revision := int n\<rparr>"
| "with_revision (GitRevision hex bytes) v =
     v\<lparr>git_tag := bytes @ drop (length bytes) (git_tag v), git_tag_len := length bytes\<rparr>"

definition version_of :: "version_lib \<Rightarrow> stated_version \<Rightarrow> tor_version" where
  "version_of L sv = with_revision (sv_revision sv)
     ((with_series (sv_series sv) (blank_version\<lparr>major := int (sv_major sv), minor := int (sv_minor sv)\<rparr>))
        \<lparr>status_tag := take (status_tag_size L - 1) (sv_tag sv)\<rparr>)"

text \<open>
  Which statements the code reads: numbers that fit an \<open>int\<close>, a tag of characters of a word, a digest of one to twenty
  bytes, and a revision only after a fourth number or a tag.
\<close>

fun series_ok :: "series \<Rightarrow> bool" where
  "series_ok TwoNumbers \<longleftrightarrow> True"
| "series_ok (ThreeNumbers c) \<longleftrightarrow> int c \<le> INT32_MAX"
| "series_ok (FourNumbers c st d) \<longleftrightarrow> int c \<le> INT32_MAX \<and> int d \<le> INT32_MAX"

fun revision_ok :: "version_lib \<Rightarrow> revision \<Rightarrow> bool" where
  "revision_ok L NoRevision \<longleftrightarrow> True"
| "revision_ok L (SvnRevision n) \<longleftrightarrow> int n \<le> INT32_MAX"
| "revision_ok L (GitRevision hex bytes) \<longleftrightarrow> list_all isxdigit hex \<and> hex \<noteq> [] \<and> even (length hex) \<and>
     length hex \<le> HEX_DIGEST_LEN \<and> base16_decode L hex = Some bytes"

fun four_numbers :: "series \<Rightarrow> bool" where
  "four_numbers (FourNumbers c st d) \<longleftrightarrow> True"
| "four_numbers _ \<longleftrightarrow> False"

definition stated_ok :: "version_lib \<Rightarrow> stated_version \<Rightarrow> bool" where
  "stated_ok L sv \<longleftrightarrow> int (sv_major sv) \<le> INT32_MAX \<and> int (sv_minor sv) \<le> INT32_MAX \<and> series_ok (sv_series sv) \<and>
     list_all word_char (sv_tag sv) \<and> revision_ok L (sv_revision sv) \<and>
     (sv_revision sv = NoRevision \<or> sv_tag sv \<noteq> [] \<or> four_numbers (sv_series sv))"

text \<open>What may follow the statement in a line: nothing, or a blank and anything that is not read as a revision.\<close>

definition line_goes_on :: "version_lib \<Rightarrow> revision \<Rightarrow> string \<Rightarrow> bool" where
  "line_goes_on L r rest \<longleftrightarrow> (rest = [] \<or> peek rest = CHR '' '') \<and>
     (r = NoRevision \<longrightarrow> \<not> starts_with L (eat_whitespace L rest) ''(r'' \<and> \<not> starts_with L (eat_whitespace L rest) ''(git-'')"

lemma digit_word_char: "isdigit c \<Longrightarrow> word_char c"
  unfolding isdigit_def insert_iff empty_iff by (elim disjE FalseE; simp add: word_char_def isspace_def)

lemma xdigit_word_char: "isxdigit c \<Longrightarrow> word_char c \<and> c \<noteq> CHR '')''"
  unfolding isxdigit_def isdigit_def insert_iff empty_iff
  by (elim disjE FalseE; simp add: word_char_def isspace_def)

lemma separators_word_char:
  "word_char (CHR ''.'')" "word_char (CHR ''-'')" "word_char (CHR ''('')" "word_char (CHR '')'')"
  "word_char (CHR ''p'')" "word_char (CHR ''r'')" "word_char (CHR ''e'')" "word_char (CHR ''c'')"
  "word_char (CHR ''g'')" "word_char (CHR ''i'')" "word_char (CHR ''t'')" "\<not> word_char (CHR '' '')"
  by (simp_all add: word_char_def isspace_def)

lemma numeral_words: "list_all word_char (numeral 10 n)"
  using numeral_digits [of n] digit_word_char by (auto simp: list_all_iff)

lemma before_words: "list_all word_char (before_patchlevel st)"
  by (cases st) (simp_all add: separators_word_char)

lemma version_words: "list_all word_char (sv_tag sv) \<Longrightarrow> list_all word_char (version_word sv)"
  by (cases "sv_series sv"; cases "sv_tag sv = []")
    (auto simp: version_word_def tag_text_def numeral_words separators_word_char before_words)

lemma revision_words: "revision_ok L r \<Longrightarrow> list_all word_char (revision_word r)"
  using xdigit_word_char by (cases r) (auto simp: numeral_words separators_word_char elim!: list.pred_mono_strong)

text \<open>What comes after a number is no digit.\<close>

lemma after_number:
  "\<not> isdigit (peek (revision_text r))" "\<not> isdigit (peek (tag_text tag @ revision_text r))"
  "\<not> isdigit (peek (series_text sr @ tag_text tag @ revision_text r))"
  "\<not> isdigit (peek (before_patchlevel st @ x))"
  by (cases sr; cases st; cases "tag = []"; simp add: tag_text_def revision_text_def isdigit_def NUL_def)+

lemma strtol_revision: "int n \<le> INT32_MAX \<Longrightarrow> int_of_long (strtol10 (numeral 10 n @ CHR '')'' # x)) = int n"
proof -
  assume n: "int n \<le> INT32_MAX"
  have d: "isdigit (peek (numeral 10 n @ CHR '')'' # x))"
    using numeral_digits [of n] by (cases "numeral 10 n") auto
  then have "\<not> isspace (peek (numeral 10 n @ CHR '')'' # x))" using digit_word_char by (simp add: word_char_def)
  then have drop: "dropWhile isspace (numeral 10 n @ CHR '')'' # x) = numeral 10 n @ CHR '')'' # x"
    by (cases "numeral 10 n") simp_all
  have "takeWhile isdigit (numeral 10 n @ CHR '')'' # x) = numeral 10 n"
    using numeral_digits [of n] by (simp add: list_all_iff isdigit_def)
  with drop d n have "strtol10 (numeral 10 n @ CHR '')'' # x) = int n"
    by (auto simp: strtol10_def Let_def isdigit_def LONG_MAX_def)
  then show ?thesis using n sint_small [of "int n"] by (simp only: int_of_long_def)
qed

context version_laws
begin

lemma NUMBER_numeral:
  assumes "int n \<le> INT32_MAX" and "\<not> isdigit (peek r)"
  shows "NUMBER L (numeral 10 n @ r) = Some (int n, r)"
proof -
  have "takeWhile isdigit (numeral 10 n @ r) = numeral 10 n" "dropWhile isdigit (numeral 10 n @ r) = r"
    using numeral_digits [of n] assms(2) by (cases r; simp add: list_all_iff)+
  then show ?thesis using assms(1) by (simp add: NUMBER_value)
qed

lemma find_whitespace_words: "list_all word_char s \<Longrightarrow> find_whitespace L s = []"
  using find_none [of s] by (simp add: word_char_def [abs_def])

lemma find_whitespace_blank: "list_all word_char s \<Longrightarrow> find_whitespace L (s @ CHR '' '' # r) = CHR '' '' # r"
  using find_none [of s r] by (simp add: word_char_def [abs_def])

lemma eat_blank_word: "word_char (peek s) \<Longrightarrow> s \<noteq> [] \<Longrightarrow> eat_whitespace L (CHR '' '' # s) = s"
  using eat_space [of s] eat_none [of s] by (simp add: word_char_def)

text \<open>A rest of a line ends the word before it.\<close>

lemma find_whitespace_rest: "list_all word_char s \<Longrightarrow> rest = [] \<or> peek rest = CHR '' '' \<Longrightarrow> find_whitespace L (s @ rest) = rest"
  using find_whitespace_words [of s] find_whitespace_blank [of s] by (cases rest) auto

lemma revision_text_rest: "revision_text r = [] \<or> peek (revision_text r) = CHR '' ''"
  by (simp add: revision_text_def)

lemma eat_revision: "eat_whitespace L (revision_text r @ x) = (if r = NoRevision then eat_whitespace L x else revision_word r @ x)"
  by (cases r) (simp_all add: revision_text_def eat_blank_word separators_word_char)

lemma eat_revision_end: "eat_whitespace L (revision_text r) = revision_word r"
  using eat_revision [of r "[]"] eat_none [of "[]"] by simp

text \<open>The tag and the revision are read back.\<close>

lemma parse_tag_and_revision:
  assumes "list_all word_char tag" and "revision_ok L r" and "git_tag v = replicate 20 0"
  shows "parse_status_tag L v (tag_text tag @ revision_text r) =
    Some (with_revision r (v\<lparr>status_tag := take (status_tag_size L - 1) tag\<rparr>))"
proof -
  let ?cp = "tag @ revision_text r"
  have skip: "(if peek (tag_text tag @ revision_text r) = CHR ''-'' \<or> peek (tag_text tag @ revision_text r) = CHR ''.''
      then drop 1 (tag_text tag @ revision_text r) else tag_text tag @ revision_text r) = ?cp"
    by (simp add: tag_text_def revision_text_def NUL_def)
  have eos: "find_whitespace L ?cp = revision_text r"
    using assms(1) revision_text_rest by (rule find_whitespace_rest)
  have cut: "take (if length tag \<ge> status_tag_size L then status_tag_size L - 1 else length tag) ?cp =
      take (status_tag_size L - 1) tag"
    using tag_size by (auto simp: min_def)
  have len: "length ?cp - length (revision_text r) = length tag" by simp
  have step: "parse_status_tag L v (tag_text tag @ revision_text r) =
     (let out = v\<lparr>status_tag := take (status_tag_size L - 1) tag\<rparr>; cp = revision_word r
      in if starts_with L cp ''(r'' then Some (out\<lparr>svn_revision := int_of_long (strtol10 (drop 2 cp))\<rparr>)
         else if starts_with L cp ''(git-'' then
           (if CHR '')'' \<notin> set cp then None
            else
              let hex = drop 5 (takeWhile (\<lambda>c. c \<noteq> CHR '')'') cp);
                  hexlen = length hex
              in if hexlen > HEX_DIGEST_LEN then None
                 else if hexlen = 0 \<or> hexlen mod 2 = 1 then None
                 else (case base16_decode L hex of
                         None \<Rightarrow> None
                       | Some digest \<Rightarrow>
                           Some (out\<lparr>git_tag := digest @ drop (hexlen div 2) (git_tag out), git_tag_len := hexlen div 2\<rparr>)))
         else Some out)"
    by (simp only: parse_status_tag_def Let_def skip eos eat_revision_end len cut)
  show ?thesis
  proof (cases r)
    case NoRevision
    with step show ?thesis by (simp add: starts)
  next
    case (SvnRevision n)
    with step assms(2) strtol_revision [of n "[]"] show ?thesis by (simp add: starts Let_def)
  next
    case (GitRevision hex bytes)
    with assms(2) have hex: "list_all isxdigit hex" "hex \<noteq> []" "even (length hex)" "length hex \<le> HEX_DIGEST_LEN"
      "base16_decode L hex = Some bytes" by simp_all
    then have "\<forall>c\<in>set hex. c \<noteq> CHR '')''" using xdigit_word_char by (auto simp: list_all_iff)
    then have "drop 5 (takeWhile (\<lambda>c. c \<noteq> CHR '')'') (revision_word r)) = hex"
      using GitRevision by (simp add: takeWhile_append2)
    moreover have "length bytes = length hex div 2" using decoded [OF hex(5)] .
    ultimately show ?thesis
      unfolding step using GitRevision hex by (simp add: starts Let_def even_iff_mod_2_eq_zero)
  qed
qed

lemma parse_version_text:
  assumes "stated_ok L sv"
  shows "tor_version_parse L (version_text sv) = Some (version_of L sv)"
proof -
  let ?a = "sv_major sv" and ?b = "sv_minor sv" and ?tag = "sv_tag sv" and ?r = "sv_revision sv"
  let ?rest = "tag_text ?tag @ revision_text ?r"
  let ?v = "blank_version\<lparr>major := int ?a, minor := int ?b\<rparr>"
  have ok: "int ?a \<le> INT32_MAX" "int ?b \<le> INT32_MAX" "list_all word_char ?tag" "revision_ok L ?r"
    using assms by (simp_all add: stated_ok_def)
  have shape: "version_text sv = numeral 10 ?a @ CHR ''.'' # numeral 10 ?b @ series_text (sv_series sv) @ ?rest"
    by (simp add: version_text_def version_word_def)
  have "isdigit (hd (numeral 10 ?a))" using numeral_digits [of ?a] by (cases "numeral 10 ?a") auto
  then have no_tor: "\<not> starts_with_nocase L (version_text sv) ''Tor ''"
    by (intro starts_nocase_first) (simp_all add: shape)
  have numbers: "NUMBER L (numeral 10 ?a @ CHR ''.'' # x) = Some (int ?a, CHR ''.'' # x)"
    "NUMBER L (numeral 10 ?b @ series_text (sv_series sv) @ ?rest) = Some (int ?b, series_text (sv_series sv) @ ?rest)" for x
    using ok(1,2) after_number by (auto intro!: NUMBER_numeral)
  have tag: "parse_status_tag L w ?rest = Some (with_revision ?r (w\<lparr>status_tag := take (status_tag_size L - 1) ?tag\<rparr>))"
    if "git_tag w = replicate 20 0" for w
    using parse_tag_and_revision [OF ok(3,4) that] .
  have blank: "git_tag ?v = replicate 20 0" "status_tag ?v = []" by (simp_all add: blank_version_def)
  have none: "w\<lparr>status_tag := []\<rparr> = w" if "status_tag w = []" for w :: tor_version
    using that by (metis tor_version.surjective tor_version.update_convs(6) old.unit.exhaust)
  show ?thesis
  proof (cases "sv_series sv")
    case TwoNumbers
    with assms have "?tag \<noteq> [] \<or> ?rest = []" by (auto simp: stated_ok_def tag_text_def revision_text_def)
    then show ?thesis
      using no_tor numbers TwoNumbers tag [OF blank(1)]
      by (cases "?tag = []")
        (auto simp: tor_version_parse_def shape DOT_def Let_def version_of_def tag_text_def revision_text_def blank_version_def split: if_splits)
  next
    case (ThreeNumbers c)
    have c: "NUMBER L (numeral 10 c @ ?rest) = Some (int c, ?rest)"
      using assms ThreeNumbers after_number by (intro NUMBER_numeral) (simp_all add: stated_ok_def)
    from ThreeNumbers assms have "?tag \<noteq> [] \<or> ?rest = []" by (auto simp: stated_ok_def tag_text_def revision_text_def)
    then show ?thesis
      using no_tor numbers ThreeNumbers c tag [of "?v\<lparr>micro := int c\<rparr>"]
      by (cases "?tag = []")
        (auto simp: tor_version_parse_def shape DOT_def Let_def version_of_def tag_text_def revision_text_def blank_version_def split: if_splits)
  next
    case (FourNumbers c st d)
    have c: "NUMBER L (numeral 10 c @ before_patchlevel st @ x) = Some (int c, before_patchlevel st @ x)" for x
      using assms FourNumbers after_number by (intro NUMBER_numeral) (simp_all add: stated_ok_def)
    have d: "NUMBER L (numeral 10 d @ ?rest) = Some (int d, ?rest)"
      using assms FourNumbers after_number by (intro NUMBER_numeral) (simp_all add: stated_ok_def)
    show ?thesis
      using no_tor numbers FourNumbers c [of "numeral 10 d @ ?rest"] d
        tag [of "?v\<lparr>micro := int c, status := st, patchlevel := int d\<rparr>"]
      by (cases st)
        (simp_all add: tor_version_parse_def shape DOT_def Let_def version_of_def parse_patchlevel_def blank_version_def)
  qed
qed

lemma version_text_first: "version_text sv @ x \<noteq> []" "word_char (peek (version_text sv @ x))"
  using numeral_words [of "sv_major sv"]
  by (cases "numeral 10 (sv_major sv)"; simp add: version_text_def version_word_def)+

text \<open>Which part of the line is taken for the version.\<close>

lemma platform_word:
  assumes "stated_ok L sv" and "line_goes_on L (sv_revision sv) rest"
  shows "(let s = find_whitespace L (version_text sv @ rest); s2 = eat_whitespace L s
     in if starts_with L s2 ''(r'' \<or> starts_with L s2 ''(git-'' then find_whitespace L s2 else s) = rest"
proof -
  let ?r = "sv_revision sv"
  have words: "list_all word_char (version_word sv)" "list_all word_char (revision_word ?r)"
    using assms(1) version_words revision_words by (auto simp: stated_ok_def)
  have rest: "rest = [] \<or> peek rest = CHR '' ''" using assms(2) by (simp add: line_goes_on_def)
  then have "revision_text ?r @ rest = [] \<or> peek (revision_text ?r @ rest) = CHR '' ''" by (simp add: revision_text_def)
  from find_whitespace_rest [OF words(1) this]
  have s: "find_whitespace L (version_text sv @ rest) = revision_text ?r @ rest" by (simp add: version_text_def)
  show ?thesis
  proof (cases "?r = NoRevision")
    case True
    with assms(2) s show ?thesis by (simp add: revision_text_def line_goes_on_def)
  next
    case False
    then have "starts_with L (revision_word ?r @ rest) ''(r'' \<or> starts_with L (revision_word ?r @ rest) ''(git-''"
      by (cases ?r) (simp_all add: starts)
    with False find_whitespace_rest [OF words(2) rest] show ?thesis by (simp add: s eat_revision)
  qed
qed

lemma version_of_not_negative:
  "0 \<le> major (version_of L sv) \<and> 0 \<le> minor (version_of L sv) \<and> 0 \<le> micro (version_of L sv) \<and>
   0 \<le> patchlevel (version_of L sv) \<and> 0 \<le> svn_revision (version_of L sv)"
  by (cases "sv_series sv"; cases "sv_revision sv") (simp_all add: version_of_def blank_version_def)

end

text \<open>
  C37. The version that a router states is found in its platform line. The line is \<open>Tor\<close>, a blank, and a version of two,
  three or four numbers that fit an \<open>int\<close>, the fourth after a dot, \<open>pre\<close> or \<open>rc\<close>, with a tag or without, and, after a
  fourth number or a tag, a blank with a revision or not: \<open>(r...)\<close> with a number that fits an \<open>int\<close>, or \<open>(git-...)\<close> with
  one to twenty bytes in hexadecimal. Then the line ends, or goes on after a blank with what is no revision. Such a line yields exactly this version, a tag that is too long cut to its array, also when it is parsed
  strictly, if the text of the version has less than 127 characters, and \<open>-1\<close> otherwise.
\<close>

theorem platform_line_yields_version:
  assumes "version_laws L" and "stated_ok L sv" and "line_goes_on L (sv_revision sv) rest"
  shows "tor_version_parse_platform L (''Tor '' @ version_text sv @ rest) strict =
    (if length (version_text sv) < 127 then (1, Some (version_of L sv)) else (-1, None))"
proof -
  let ?t = "version_text sv"
  note first = version_laws.version_text_first [OF assms(1), of sv rest]
  have start: "eat_whitespace L (CHR '' '' # ?t @ rest) = ?t @ rest"
    using version_laws.eat_blank_word [OF assms(1) first(2,1)] .
  note word = version_laws.platform_word [OF assms, unfolded Let_def]
  have tor: "starts_with L (''Tor '' @ ?t @ rest) ''Tor ''" by (simp add: version_laws.starts [OF assms(1)])
  have skip: "drop 3 (''Tor '' @ ?t @ rest) = CHR '' '' # ?t @ rest" by simp
  have taken: "length (?t @ rest) - length rest = length ?t" "take (length ?t) (?t @ rest) = ?t" by simp_all
  note parsed = version_laws.parse_version_text [OF assms(1,2)]
  have "tor_version_parse_platform L (''Tor '' @ ?t @ rest) strict =
      (if length ?t + 1 \<ge> 128 then (-1, None)
       else let v = version_of L sv
         in if strict \<and> (major v < 0 \<or> minor v < 0 \<or> micro v < 0 \<or> patchlevel v < 0 \<or> svn_revision v < 0)
            then (-1, None) else (1, Some v))"
    by (simp only: tor_version_parse_platform_def Let_def tor skip start word taken parsed first(1)
        not_True_eq_False if_False option.case)
  then show ?thesis using version_laws.version_of_not_negative [OF assms(1), of sv] by (simp add: Let_def not_less [symmetric])
qed

definition alpha_git :: stated_version where
  "alpha_git = \<lparr>sv_major = 0, sv_minor = 4, sv_series = FourNumbers 8 VER_RELEASE 10, sv_tag = ''alpha'',
     sv_revision = GitRevision ''beef'' [190, 239]\<rparr>"

theorem platform_line_yields_version_witness:
  "tor_version_parse_platform plain_version ''Tor 0.4.8.10-alpha (git-beef) on Linux'' True =
     (1, Some (blank_version\<lparr>minor := 4, micro := 8, patchlevel := 10, status_tag := ''alpha'', git_tag_len := 2,
        git_tag := [190, 239] @ replicate 18 0\<rparr>))"
proof -
  have digits: "numeral 10 0 = ''0''" "numeral 10 4 = ''4''" "numeral 10 8 = ''8''" "numeral 10 10 = ''10''"
    by (simp_all add: numeral.simps digit_char_def)
  then have stated: "version_text alpha_git = ''0.4.8.10-alpha (git-beef)''"
    by (simp add: version_text_def version_word_def tag_text_def revision_text_def alpha_git_def)
  have "base16_decode plain_version ''beef'' = Some [190, 239]" by code_simp
  then have "stated_ok plain_version alpha_git"
    by (simp add: stated_ok_def alpha_git_def word_char_def isspace_def isxdigit_def)
  moreover have "line_goes_on plain_version (sv_revision alpha_git) '' on Linux''"
    by (simp add: line_goes_on_def alpha_git_def)
  ultimately show ?thesis
    using platform_line_yields_version [OF plain.version_laws_axioms, of alpha_git "'' on Linux''" True] stated
    by (simp add: version_of_def alpha_git_def blank_version_def plain_selectors numeral_eq_Suc)
qed

end
