(* ===== verification/Version_Sort.thy ===== *)
theory Version_Sort
  imports Version_Props "HOL-Library.Sublist"
begin

text \<open>
  \<open>src/networking/lib/version.c\<close>: sorting a list of versions, and whether a router is as new as a cutoff. Tor's
  smart lists are parameters; the locale \<open>sort_laws\<close> states what sorting and removing duplicates do with a
  comparison function that is a total preorder on the list, and is interpreted on insertion sort.
\<close>

section \<open>Sorting by a comparison function\<close>

definition orders :: "('a \<Rightarrow> 'a \<Rightarrow> int) \<Rightarrow> 'a set \<Rightarrow> bool" where
  "orders cmp A \<longleftrightarrow> (\<forall>a\<in>A. \<forall>b\<in>A. cmp b a = - cmp a b) \<and>
     (\<forall>a\<in>A. \<forall>b\<in>A. \<forall>c\<in>A. cmp a b \<le> 0 \<longrightarrow> cmp b c \<le> 0 \<longrightarrow> cmp a c \<le> 0)"

abbreviation ascending :: "('a \<Rightarrow> 'a \<Rightarrow> int) \<Rightarrow> 'a list \<Rightarrow> bool" where
  "ascending cmp \<equiv> sorted_wrt (\<lambda>a b. cmp a b \<le> 0)"

abbreviation strictly_ascending :: "('a \<Rightarrow> 'a \<Rightarrow> int) \<Rightarrow> 'a list \<Rightarrow> bool" where
  "strictly_ascending cmp \<equiv> sorted_wrt (\<lambda>a b. cmp a b < 0)"

lemma ordersD:
  "orders cmp A \<Longrightarrow> a \<in> A \<Longrightarrow> b \<in> A \<Longrightarrow> cmp b a = - cmp a b"
  "orders cmp A \<Longrightarrow> a \<in> A \<Longrightarrow> b \<in> A \<Longrightarrow> c \<in> A \<Longrightarrow> cmp a b \<le> 0 \<Longrightarrow> cmp b c \<le> 0 \<Longrightarrow> cmp a c \<le> 0"
  unfolding orders_def by blast+

lemma orders_less_trans:
  assumes "orders cmp A" "a \<in> A" "b \<in> A" "c \<in> A" "cmp a b < 0" "cmp b c \<le> 0"
  shows "cmp a c < 0"
proof (rule ccontr)
  assume "\<not> cmp a c < 0"
  then have "cmp c a \<le> 0" using ordersD(1) [OF assms(1,2,4)] by linarith
  from ordersD(2) [OF assms(1,3,4,2) assms(6) this] have "cmp b a \<le> 0" .
  with ordersD(1) [OF assms(1,2,3)] assms(5) show False by linarith
qed

lemma orders_subset: "orders cmp A \<Longrightarrow> B \<subseteq> A \<Longrightarrow> orders cmp B"
  unfolding orders_def by blast

text \<open>A comparison through keys is a total preorder.\<close>

lemma orders_by_key:
  assumes "comparator c" and "\<And>a b. a \<in> A \<Longrightarrow> b \<in> A \<Longrightarrow> cmp a b = c (key a) (key b)"
  shows "orders cmp A"
  using assms(2) comparator.cmp_flip [OF assms(1)] comparator.cmp_le_trans [OF assms(1)]
  unfolding orders_def by metis

text \<open>A list that ascends and has no equal neighbours ascends strictly.\<close>

lemma strictly_ascending_if:
  assumes "orders cmp (set xs)" "ascending cmp xs" "successively (\<lambda>a b. cmp a b \<noteq> 0) xs"
  shows "strictly_ascending cmp xs"
  using assms
proof (induction xs rule: induct_list012)
  case (3 x y zs)
  have tail: "strictly_ascending cmp (y # zs)"
    using 3 orders_subset [of cmp "set (x # y # zs)" "set (y # zs)"] by auto
  have xy: "cmp x y < 0" using 3(4,5) by auto
  have "cmp x z < 0" if "z \<in> set zs" for z
    using orders_less_trans [OF 3(3), of x y z] that xy tail by auto
  with xy tail show ?case by auto
qed auto

lemma sorted_wrt_subseq: "subseq xs ys \<Longrightarrow> sorted_wrt P ys \<Longrightarrow> sorted_wrt P xs"
  by (induction rule: list_emb.induct) (auto dest: list_emb_set)

locale sort_laws =
  fixes S :: sort_lib
  assumes sort_mset: "mset (smartlist_sort S cmp xs) = mset xs"
    and sort_ascends: "orders cmp (set xs) \<Longrightarrow> ascending cmp (smartlist_sort S cmp xs)"
    and uniq_subseq: "subseq (smartlist_uniq S cmp xs) xs"
    and uniq_keeps: "orders cmp (set xs) \<Longrightarrow> ascending cmp xs \<Longrightarrow> x \<in> set xs \<Longrightarrow>
      \<exists>y\<in>set (smartlist_uniq S cmp xs). cmp x y = 0"
    and uniq_different: "orders cmp (set xs) \<Longrightarrow> ascending cmp xs \<Longrightarrow>
      successively (\<lambda>a b. cmp a b \<noteq> 0) (smartlist_uniq S cmp xs)"
begin

lemma set_sort: "set (smartlist_sort S cmp xs) = set xs"
  using mset_eq_setD [OF sort_mset] .

lemma uniq_set: "set (smartlist_uniq S cmp xs) \<subseteq> set xs"
  using list_emb_set [OF uniq_subseq] by blast

lemma sort_uniq_ascends:
  assumes "orders cmp (set xs)"
  shows "strictly_ascending cmp (smartlist_uniq S cmp (smartlist_sort S cmp xs))"
proof -
  let ?ys = "smartlist_sort S cmp xs"
  have ys: "orders cmp (set ?ys)" "ascending cmp ?ys"
    using assms sort_ascends [OF assms] by (simp_all add: set_sort)
  have "ascending cmp (smartlist_uniq S cmp ?ys)"
    using sorted_wrt_subseq [OF uniq_subseq ys(2)] .
  then show ?thesis
    using strictly_ascending_if orders_subset [OF ys(1) uniq_set] uniq_different [OF ys] by blast
qed

end

section \<open>Insertion sort\<close>

fun insert_by :: "('a \<Rightarrow> 'a \<Rightarrow> int) \<Rightarrow> 'a \<Rightarrow> 'a list \<Rightarrow> 'a list" where
  "insert_by cmp x [] = [x]"
| "insert_by cmp x (y # ys) = (if cmp x y \<le> 0 then x # y # ys else y # insert_by cmp x ys)"

fun sort_by :: "('a \<Rightarrow> 'a \<Rightarrow> int) \<Rightarrow> 'a list \<Rightarrow> 'a list" where
  "sort_by cmp [] = []"
| "sort_by cmp (x # xs) = insert_by cmp x (sort_by cmp xs)"

fun first_of_each :: "('a \<Rightarrow> 'a \<Rightarrow> int) \<Rightarrow> 'a list \<Rightarrow> 'a list" where
  "first_of_each cmp (x # y # zs) = (if cmp x y = 0 then first_of_each cmp (x # zs) else x # first_of_each cmp (y # zs))"
| "first_of_each cmp xs = xs"

definition plain_sort :: sort_lib where
  "plain_sort = \<lparr>smartlist_sort = sort_by, smartlist_uniq = first_of_each\<rparr>"

lemma mset_insert_by: "mset (insert_by cmp x xs) = add_mset x (mset xs)"
  by (induction xs) auto

lemma mset_sort_by: "mset (sort_by cmp xs) = mset xs"
  by (induction xs) (auto simp: mset_insert_by)

lemma set_insert_by: "set (insert_by cmp x xs) = insert x (set xs)"
  using mset_insert_by [of cmp x xs] by (metis set_mset_add_mset_insert set_mset_mset)

lemma insert_by_ascends:
  "orders cmp (insert x (set xs)) \<Longrightarrow> ascending cmp xs \<Longrightarrow> ascending cmp (insert_by cmp x xs)"
proof (induction xs)
  case (Cons y ys)
  show ?case
  proof (cases "cmp x y \<le> 0")
    case True
    then have "cmp x z \<le> 0" if "z \<in> set ys" for z
      using ordersD(2) [OF Cons.prems(1), of x y z] Cons.prems(2) that by auto
    with True Cons.prems(2) show ?thesis by auto
  next
    case False
    then have "cmp y x \<le> 0" using ordersD(1) [OF Cons.prems(1), of x y] by simp
    moreover have "ascending cmp (insert_by cmp x ys)"
      using Cons.IH orders_subset [OF Cons.prems(1)] Cons.prems(2) by auto
    ultimately show ?thesis using False Cons.prems(2) by (auto simp: set_insert_by)
  qed
qed simp

lemma sort_by_ascends: "orders cmp (set xs) \<Longrightarrow> ascending cmp (sort_by cmp xs)"
proof (induction xs)
  case (Cons x xs)
  have "set (sort_by cmp xs) = set xs" using mset_eq_setD [OF mset_sort_by] .
  with Cons.prems Cons.IH orders_subset [OF Cons.prems, of "set xs"] show ?case
    by (auto intro!: insert_by_ascends)
qed simp

lemma first_of_each_shape: "\<exists>zs. first_of_each cmp (x # xs) = x # zs \<and> subseq zs xs"
proof (induction cmp "x # xs" arbitrary: x xs rule: first_of_each.induct)
  case (1 cmp x y zs)
  show ?case
  proof (cases "cmp x y = 0")
    case True
    from 1(1) [OF True] obtain us where "first_of_each cmp (x # zs) = x # us" "subseq us zs" by blast
    with True show ?thesis by (auto intro: list_emb_Cons)
  next
    case False
    from 1(2) [OF False] obtain us where "first_of_each cmp (y # zs) = y # us" "subseq us zs" by blast
    with False show ?thesis by auto
  qed
qed simp

lemma subseq_first_of_each: "subseq (first_of_each cmp xs) xs"
  using first_of_each_shape [of cmp "hd xs" "tl xs"] by (cases xs) auto

lemma first_of_each_different: "successively (\<lambda>a b. cmp a b \<noteq> 0) (first_of_each cmp xs)"
proof (induction cmp xs rule: first_of_each.induct)
  case (1 cmp x y zs)
  then show ?case using first_of_each_shape [of cmp y zs] by (auto simp: successively_Cons)
qed auto

lemma first_of_each_keeps:
  assumes "orders cmp (set xs)" "x \<in> set xs"
  shows "\<exists>y\<in>set (first_of_each cmp xs). cmp x y = 0"
  using assms
proof (induction cmp xs arbitrary: x rule: first_of_each.induct)
  case (1 cmp a b zs)
  have refl: "cmp u u = 0" if "u \<in> set (a # b # zs)" for u using ordersD(1) [OF 1(3) that that] by simp
  show ?case
  proof (cases "cmp a b = 0")
    case True
    have ord: "orders cmp (set (a # zs))" using orders_subset [OF 1(3)] by auto
    show ?thesis
    proof (cases "x = b")
      case True
      with \<open>cmp a b = 0\<close> have "cmp x a = 0" using ordersD(1) [OF 1(3), of a b] by simp
      moreover have "a \<in> set (first_of_each cmp (a # zs))" using first_of_each_shape [of cmp a zs] by auto
      ultimately show ?thesis using \<open>cmp a b = 0\<close> by auto
    next
      case False
      with 1(1) [OF True ord, of x] 1(4) True show ?thesis by auto
    qed
  next
    case False
    have ord: "orders cmp (set (b # zs))" using orders_subset [OF 1(3)] by auto
    show ?thesis using 1(2) [OF False ord, of x] 1(4) False refl by (cases "x = a") auto
  qed
qed (use ordersD(1) in fastforce)+

interpretation insertion: sort_laws plain_sort
  by unfold_locales
    (auto simp: plain_sort_def mset_sort_by sort_by_ascends subseq_first_of_each first_of_each_different
      intro: first_of_each_keeps)

section \<open>Lists of versions\<close>

text \<open>The order of the texts: those that are versions by their keys, then the others as strings.\<close>

definition text_key :: "version_lib \<Rightarrow> string \<Rightarrow> int list list" where
  "text_key L s = (case tor_version_parse L s of Some v \<Rightarrow> [0] # version_key L v | None \<Rightarrow> [[1], map of_char s])"

definition no_negative_revision :: "version_lib \<Rightarrow> string \<Rightarrow> bool" where
  "no_negative_revision L s \<longleftrightarrow> (case tor_version_parse L s of Some v \<Rightarrow> 0 \<le> svn_revision v | None \<Rightarrow> True)"

context version_laws
begin

lemma compare_texts:
  assumes "no_negative_revision L a" "no_negative_revision L b"
  shows "compare_tor_version_str_ptr L a b = lex_cmp (lex_cmp int_cmp) (text_key L a) (text_key L b)"
proof (cases "tor_version_parse L a"; cases "tor_version_parse L b")
  fix va vb
  assume v: "tor_version_parse L a = Some va" "tor_version_parse L b = Some vb"
  with assms have "version_ok va" "version_ok vb"
    using parsed_version_ok by (auto simp: no_negative_revision_def)
  with v compare_key [OF statuses] show ?thesis
    by (simp add: compare_tor_version_str_ptr_def text_key_def int_lists.cmp_zero)
qed (auto simp: compare_tor_version_str_ptr_def text_key_def strcmp_def int_cmp_def int_lists.cmp_zero)

lemma texts_ordered:
  "\<forall>s\<in>A. no_negative_revision L s \<Longrightarrow> orders (compare_tor_version_str_ptr L) A"
  by (rule orders_by_key [OF int_list_lists.comparator_axioms]) (simp add: compare_texts)

text \<open>What is no version does not come before one that is.\<close>

lemma versions_come_first:
  "strictly_ascending (compare_tor_version_str_ptr L) xs \<or> ascending (compare_tor_version_str_ptr L) xs \<Longrightarrow>
   \<exists>vs ts. xs = vs @ ts \<and> (\<forall>s\<in>set vs. tor_version_parse L s \<noteq> None) \<and> (\<forall>s\<in>set ts. tor_version_parse L s = None)"
proof (induction xs)
  case (Cons x xs)
  then obtain vs ts where xs: "xs = vs @ ts" "\<forall>s\<in>set vs. tor_version_parse L s \<noteq> None" "\<forall>s\<in>set ts. tor_version_parse L s = None"
    by auto
  show ?case
  proof (cases "tor_version_parse L x")
    case None
    have "vs = []"
    proof (rule ccontr)
      assume "vs \<noteq> []"
      then have "compare_tor_version_str_ptr L x (hd vs) \<le> 0" "tor_version_parse L (hd vs) \<noteq> None"
        using Cons.prems xs by (cases vs; auto)+
      with None show False by (auto simp: compare_tor_version_str_ptr_def)
    qed
    with xs None show ?thesis by (intro exI [of _ "[]"] exI [of _ "x # ts"]) auto
  next
    case (Some v)
    with xs show ?thesis by (intro exI [of _ "x # vs"] exI [of _ ts]) auto
  qed
qed simp

end

text \<open>
  C19. A list in which no text is a version with a negative \<open>svn_revision\<close> is sorted: the result has the same texts, those that are versions
  come first in ascending order and the others after them. When duplicates are removed, the order is strict and
  each text is still represented by one that compares equal.
\<close>

theorem version_lists_are_sorted:
  assumes "version_laws L" and "sort_laws S" and "\<forall>s\<in>set versions. no_negative_revision L s"
  shows "mset (sort_version_list L S versions False) = mset versions \<and>
    ascending (compare_tor_version_str_ptr L) (sort_version_list L S versions False) \<and>
    strictly_ascending (compare_tor_version_str_ptr L) (sort_version_list L S versions True) \<and>
    set (sort_version_list L S versions True) \<subseteq> set versions \<and>
    (\<forall>s\<in>set versions. \<exists>t\<in>set (sort_version_list L S versions True). compare_tor_version_str_ptr L s t = 0) \<and>
    (\<forall>dups. \<exists>vs ts. sort_version_list L S versions dups = vs @ ts \<and>
      (\<forall>s\<in>set vs. tor_version_parse L s \<noteq> None) \<and> (\<forall>s\<in>set ts. tor_version_parse L s = None))"
proof -
  let ?cmp = "compare_tor_version_str_ptr L"
  let ?sorted = "smartlist_sort S ?cmp versions"
  note ord = version_laws.texts_ordered [OF assms(1,3)]
  note sort = sort_laws.sort_mset [OF assms(2), of ?cmp versions] sort_laws.sort_ascends [OF assms(2) ord]
    and set = sort_laws.set_sort [OF assms(2), of ?cmp versions]
  note strict = sort_laws.sort_uniq_ascends [OF assms(2) ord]
    and keeps = sort_laws.uniq_keeps [OF assms(2), of ?cmp ?sorted, unfolded set, OF ord sort(2)]
    and part = sort_laws.uniq_set [OF assms(2), of ?cmp ?sorted, unfolded set]
  have "\<exists>vs ts. sort_version_list L S versions dups = vs @ ts \<and>
      (\<forall>s\<in>set vs. tor_version_parse L s \<noteq> None) \<and> (\<forall>s\<in>set ts. tor_version_parse L s = None)" for dups
    using version_laws.versions_come_first [OF assms(1)] sort(2) strict
    by (cases dups) (simp_all add: sort_version_list_def Let_def)
  with sort strict keeps part show ?thesis by (simp add: sort_version_list_def Let_def)
qed

lemma sample_texts: "\<forall>s\<in>set [''junk'', ''0.4.8.10-alpha'', ''Tor 0.4.8.9'', ''0.4.8.9'']. no_negative_revision plain_version s"
  by (simp only: list_all_iff [symmetric]) code_simp

theorem version_lists_are_sorted_witness:
  "sort_version_list plain_version plain_sort [''junk'', ''0.4.8.10-alpha'', ''Tor 0.4.8.9'', ''0.4.8.9''] True =
     [''Tor 0.4.8.9'', ''0.4.8.10-alpha'', ''junk''] \<and>
   strictly_ascending (compare_tor_version_str_ptr plain_version) [''Tor 0.4.8.9'', ''0.4.8.10-alpha'', ''junk'']"
proof -
  have "sort_version_list plain_version plain_sort [''junk'', ''0.4.8.10-alpha'', ''Tor 0.4.8.9'', ''0.4.8.9''] True =
     [''Tor 0.4.8.9'', ''0.4.8.10-alpha'', ''junk'']" by code_simp
  with version_lists_are_sorted [OF plain.version_laws_axioms insertion.sort_laws_axioms sample_texts] show ?thesis by simp
qed

section \<open>Cutoffs\<close>

text \<open>
  A router that is as new as a cutoff is as new as every older one. A platform line from which no version can be
  read counts as new, a cutoff that is no version as newer than any router.
\<close>

theorem newness_respects_the_order:
  assumes "version_laws L" and "no_negative_revision L cutoff" "no_negative_revision L older"
    and "\<forall>v. tor_version_parse_platform L platform False = (1, Some v) \<longrightarrow> 0 \<le> svn_revision v"
    and "tor_version_parse L older \<noteq> None" and "compare_tor_version_str_ptr L older cutoff \<le> 0"
    and "tor_version_as_new_as L platform cutoff"
  shows "tor_version_as_new_as L platform older"
proof -
  note ok = version_laws.parsed_version_ok [OF assms(1)] and st = version_laws.statuses [OF assms(1)]
  obtain c where c: "tor_version_parse L cutoff = Some c" "version_ok c"
    using assms(2,7) ok by (auto simp: tor_version_as_new_as_def no_negative_revision_def split: option.splits)
  obtain d where d: "tor_version_parse L older = Some d" "version_ok d"
    using assms(3,5) ok by (auto simp: no_negative_revision_def)
  obtain r w where rw: "tor_version_parse_platform L platform False = (r, w)" by fastforce
  show ?thesis
  proof (cases w)
    case None
    with rw d show ?thesis by (simp add: tor_version_as_new_as_def)
  next
    case (Some v)
    with rw have "r = 1" "\<exists>s. tor_version_parse L s = Some v"
      by (auto simp: tor_version_parse_platform_def Let_def split: if_splits option.splits)
    with assms(4) rw Some ok have v: "version_ok v" by blast
    have "tor_version_compare L d c \<le> 0" using assms(6) c d by (simp add: compare_tor_version_str_ptr_def)
    moreover have "tor_version_compare L v c \<ge> 0" using assms(7) c rw Some by (simp add: tor_version_as_new_as_def)
    ultimately have "tor_version_compare L v d \<ge> 0"
      unfolding compare_key [OF st d(2) c(2)] compare_key [OF st v c(2)] compare_key [OF st v d(2)]
      using int_list_lists.cmp_flip int_list_lists.cmp_le_trans by (metis neg_0_le_iff_le)
    with d rw Some show ?thesis by (simp add: tor_version_as_new_as_def)
  qed
qed

theorem newness_respects_the_order_witness:
  "tor_version_as_new_as plain_version ''Tor 0.4.8.10 on Linux'' ''0.4.8.9''"
proof -
  have platform: "tor_version_parse_platform plain_version ''Tor 0.4.8.10 on Linux'' False = (1, Some (sample_version 8 10 [] 0))"
    by code_simp
  have texts: "no_negative_revision plain_version ''0.4.8.10''" "no_negative_revision plain_version ''0.4.8.9''"
    "compare_tor_version_str_ptr plain_version ''0.4.8.9'' ''0.4.8.10'' \<le> 0"
    "tor_version_as_new_as plain_version ''Tor 0.4.8.10 on Linux'' ''0.4.8.10''"
    by code_simp+
  show ?thesis
    by (rule newness_respects_the_order [OF plain.version_laws_axioms texts(1,2) _ _ texts(3,4)])
      (simp_all add: platform sample_parses sample_version_def blank_version_def)
qed

end
