(* ===== verification/Protover.thy ===== *)
theory Protover
  imports Version_Props
begin

text \<open>
  \<open>src/networking/lib/version.c\<close>, from line 299: what a list of protocols supports is computed once and kept
  in a cache of at most 1024 lists, which is emptied when it is full. \<open>protocol_list_supports_protocol\<close> and
  its variant are parameters. The cache is transparent: every summary is what it would be without it.
\<close>

section \<open>Summaries\<close>

datatype protocol_type = PRT_LINKAUTH | PRT_RELAY | PRT_HSINTRO | PRT_HSREND | PRT_HSDIR | PRT_PADDING | PRT_FLOWCTRL | PRT_CONFLUX

text \<open>The protocol versions the file names, whose numbers are in a header.\<close>

datatype protover =
    PROTOVER_LINKAUTH_ED25519_HANDSHAKE | PROTOVER_RELAY_EXTEND2 | PROTOVER_RELAY_ACCEPT_IPV6 | PROTOVER_RELAY_EXTEND_IPV6
  | PROTOVER_RELAY_CANONICAL_IPV6 | PROTOVER_HS_INTRO_V3 | PROTOVER_HS_INTRO_DOS | PROTOVER_HS_RENDEZVOUS_POINT_V3
  | PROTOVER_HSDIR_V3 | PROTOVER_HS_SETUP_PADDING | PROTOVER_FLOWCTRL_CC | PROTOVER_RELAY_NTOR_V3 | PROTOVER_CONFLUX_V1
  | PROTOVER_RELAY_NEGOTIATE_SUBPROTO | PROTOVER_RELAY_CRYPT_CGO

record protover_lib =
  protocol_list_supports_protocol :: "string \<Rightarrow> protocol_type \<Rightarrow> protover \<Rightarrow> bool"
  protocol_list_supports_protocol_or_later :: "string \<Rightarrow> protocol_type \<Rightarrow> protover \<Rightarrow> bool"

record protover_summary_flags =
  protocols_known :: bool
  supports_ed25519_link_handshake_compat :: bool
  supports_ed25519_link_handshake_any :: bool
  supports_extend2_cells :: bool
  supports_accepting_ipv6_extends :: bool
  supports_initiating_ipv6_extends :: bool
  supports_canonical_ipv6_conns :: bool
  supports_ed25519_hs_intro :: bool
  supports_establish_intro_dos_extension :: bool
  supports_v3_rendezvous_point :: bool
  supports_v3_hsdir :: bool
  supports_hs_setup_padding :: bool
  supports_congestion_control :: bool
  supports_conflux :: bool
  supports_ntor_v3 :: bool
  supports_cgo :: bool

definition no_flags :: protover_summary_flags where
  "no_flags = \<lparr>protocols_known = False, supports_ed25519_link_handshake_compat = False,
     supports_ed25519_link_handshake_any = False, supports_extend2_cells = False, supports_accepting_ipv6_extends = False,
     supports_initiating_ipv6_extends = False, supports_canonical_ipv6_conns = False, supports_ed25519_hs_intro = False,
     supports_establish_intro_dos_extension = False, supports_v3_rendezvous_point = False, supports_v3_hsdir = False,
     supports_hs_setup_padding = False, supports_congestion_control = False, supports_conflux = False,
     supports_ntor_v3 = False, supports_cgo = False\<rparr>"

text \<open>Lines 325 to 352.\<close>

definition summarize_protocols :: "protover_lib \<Rightarrow> string \<Rightarrow> protover_summary_flags" where
  "summarize_protocols P protocols =
     (let has = protocol_list_supports_protocol P protocols
      in \<lparr>protocols_known = True,
          supports_ed25519_link_handshake_compat = has PRT_LINKAUTH PROTOVER_LINKAUTH_ED25519_HANDSHAKE,
          supports_ed25519_link_handshake_any =
            protocol_list_supports_protocol_or_later P protocols PRT_LINKAUTH PROTOVER_LINKAUTH_ED25519_HANDSHAKE,
          supports_extend2_cells = has PRT_RELAY PROTOVER_RELAY_EXTEND2,
          supports_accepting_ipv6_extends =
            (has PRT_RELAY PROTOVER_RELAY_ACCEPT_IPV6 \<or> has PRT_RELAY PROTOVER_RELAY_EXTEND_IPV6),
          supports_initiating_ipv6_extends = has PRT_RELAY PROTOVER_RELAY_EXTEND_IPV6,
          supports_canonical_ipv6_conns = has PRT_RELAY PROTOVER_RELAY_CANONICAL_IPV6,
          supports_ed25519_hs_intro = has PRT_HSINTRO PROTOVER_HS_INTRO_V3,
          supports_establish_intro_dos_extension = has PRT_HSINTRO PROTOVER_HS_INTRO_DOS,
          supports_v3_rendezvous_point = has PRT_HSREND PROTOVER_HS_RENDEZVOUS_POINT_V3,
          supports_v3_hsdir = has PRT_HSDIR PROTOVER_HSDIR_V3,
          supports_hs_setup_padding = has PRT_PADDING PROTOVER_HS_SETUP_PADDING,
          supports_congestion_control =
            (has PRT_FLOWCTRL PROTOVER_FLOWCTRL_CC \<and> has PRT_RELAY PROTOVER_RELAY_NTOR_V3),
          supports_conflux = (has PRT_FLOWCTRL PROTOVER_FLOWCTRL_CC \<and> has PRT_CONFLUX PROTOVER_CONFLUX_V1),
          supports_ntor_v3 = has PRT_RELAY PROTOVER_RELAY_NTOR_V3,
          supports_cgo =
            (has PRT_FLOWCTRL PROTOVER_FLOWCTRL_CC \<and> has PRT_RELAY PROTOVER_RELAY_NEGOTIATE_SUBPROTO \<and>
             has PRT_RELAY PROTOVER_RELAY_CRYPT_CGO)\<rparr>)"

section \<open>The cache\<close>

definition MAX_PROTOVER_SUMMARY_MAP_LEN :: nat where "MAX_PROTOVER_SUMMARY_MAP_LEN = 1024"

text \<open>\<open>protover_summary_map\<close>: a null pointer, or the entries with different keys.\<close>

type_synonym summary_cache = "(string \<times> protover_summary_flags) list option"

definition protover_summary_cache_free_all :: "summary_cache \<Rightarrow> summary_cache" where
  "protover_summary_cache_free_all m = None"

definition memoize_protover_summary ::
    "protover_lib \<Rightarrow> summary_cache \<Rightarrow> string \<Rightarrow> (summary_cache \<times> protover_summary_flags) checked" where
  "memoize_protover_summary P m0 protocols =
     (let m = (case m0 of None \<Rightarrow> [] | Some es \<Rightarrow> es);
          full = (length m \<ge> MAX_PROTOVER_SUMMARY_MAP_LEN);
          freed = protover_summary_cache_free_all (Some m)
      in check (full \<longrightarrow> freed = None) ''protover_summary_map == NULL'' (
           let m = (if full then [] else m)
           in case map_of m protocols of
                Some cached \<Rightarrow> check (protocols_known cached) ''out->protocols_known'' (Inr (Some m, cached))
              | None \<Rightarrow>
                  let out = summarize_protocols P protocols
                  in check (map_of m protocols = None) ''!cached'' (Inr (Some ((protocols, out) # m), out))))"

text \<open>Null pointers are \<open>None\<close>.\<close>

definition summarize_protover_flags ::
    "version_lib \<Rightarrow> protover_lib \<Rightarrow> summary_cache \<Rightarrow> string option \<Rightarrow> string option \<Rightarrow>
     (summary_cache \<times> protover_summary_flags) checked" where
  "summarize_protover_flags L P m protocols version =
     bindE (case protocols of
              Some p \<Rightarrow> if p \<noteq> [] then memoize_protover_summary P m p else Inr (m, no_flags)
            | None \<Rightarrow> Inr (m, no_flags))
       (\<lambda>(m, out).
          case version of
            None \<Rightarrow> Inr (m, out)
          | Some v \<Rightarrow>
              if v \<noteq> [] \<and> starts_with L v ''Tor '' then
                if \<not> protocols_known out then
                  Inr (m, out\<lparr>supports_extend2_cells := tor_version_as_new_as L v ''0.2.4.8-alpha'', protocols_known := True\<rparr>)
                else if \<not> tor_version_as_new_as L v ''0.3.0.8'' then Inr (m, out\<lparr>supports_v3_hsdir := False\<rparr>)
                else Inr (m, out)
              else Inr (m, out))"

datatype summary_event = Summarize "string option" "string option" | FreeSummaries

definition summary_step ::
    "version_lib \<Rightarrow> protover_lib \<Rightarrow> summary_cache \<Rightarrow> summary_event \<Rightarrow> (summary_cache \<times> protover_summary_flags list) checked" where
  "summary_step L P m e =
     (case e of
        Summarize protocols version \<Rightarrow>
          bindE (summarize_protover_flags L P m protocols version) (\<lambda>(m', out). Inr (m', [out]))
      | FreeSummaries \<Rightarrow> Inr (protover_summary_cache_free_all m, []))"

section \<open>The cache is transparent\<close>

text \<open>The summary computed from the two strings alone.\<close>

definition plain_summary :: "version_lib \<Rightarrow> protover_lib \<Rightarrow> string option \<Rightarrow> string option \<Rightarrow> protover_summary_flags" where
  "plain_summary L P protocols version =
     (let out = (case protocols of Some p \<Rightarrow> if p \<noteq> [] then summarize_protocols P p else no_flags | None \<Rightarrow> no_flags)
      in case version of
           Some v \<Rightarrow>
             if starts_with L v ''Tor '' \<and> v \<noteq> [] then
               (if protocols_known out
                then out\<lparr>supports_v3_hsdir := supports_v3_hsdir out \<and> tor_version_as_new_as L v ''0.3.0.8''\<rparr>
                else out\<lparr>supports_extend2_cells := tor_version_as_new_as L v ''0.2.4.8-alpha'', protocols_known := True\<rparr>)
             else out
         | None \<Rightarrow> out)"

text \<open>Entries are what would be computed, their keys are different and there are at most 1024.\<close>

definition cache_ok :: "protover_lib \<Rightarrow> summary_cache \<Rightarrow> bool" where
  "cache_ok P m \<longleftrightarrow> (case m of
     None \<Rightarrow> True
   | Some es \<Rightarrow> distinct (map fst es) \<and> length es \<le> MAX_PROTOVER_SUMMARY_MAP_LEN \<and>
       list_all (\<lambda>(p, out). out = summarize_protocols P p) es)"

lemma cached_value: "cache_ok P (Some es) \<Longrightarrow> map_of es p = Some out \<Longrightarrow> out = summarize_protocols P p"
  by (auto simp: cache_ok_def list_all_iff dest!: map_of_SomeD)

lemma known_summary [simp]: "protocols_known (summarize_protocols P p)"
  by (simp add: summarize_protocols_def Let_def)

lemma memoize_ok:
  assumes "cache_ok P m"
  shows "\<exists>m'. memoize_protover_summary P m p = Inr (m', summarize_protocols P p) \<and> cache_ok P m'"
proof -
  define es where "es = (case m of None \<Rightarrow> [] | Some es \<Rightarrow> if length es \<ge> MAX_PROTOVER_SUMMARY_MAP_LEN then [] else es)"
  have es: "cache_ok P (Some es)" "length es < MAX_PROTOVER_SUMMARY_MAP_LEN"
    using assms by (auto simp: es_def cache_ok_def MAX_PROTOVER_SUMMARY_MAP_LEN_def split: option.splits)
  have eq: "memoize_protover_summary P m p =
      (case map_of es p of
         Some cached \<Rightarrow> check (protocols_known cached) ''out->protocols_known'' (Inr (Some es, cached))
       | None \<Rightarrow> Inr (Some ((p, summarize_protocols P p) # es), summarize_protocols P p))"
    by (auto simp: memoize_protover_summary_def es_def check_def Let_def protover_summary_cache_free_all_def
        MAX_PROTOVER_SUMMARY_MAP_LEN_def split: option.splits)
  show ?thesis
  proof (cases "map_of es p")
    case None
    then have "p \<notin> set (map fst es)" by (simp add: map_of_eq_None_iff)
    with es None show ?thesis by (simp add: eq cache_ok_def)
  next
    case (Some out)
    with cached_value [OF es(1) Some] es(1) show ?thesis by (simp add: eq check_def)
  qed
qed

lemma summary_step_ok:
  assumes "cache_ok P m"
  shows "\<exists>m'. summary_step L P m e = Inr (m', case e of Summarize p v \<Rightarrow> [plain_summary L P p v] | FreeSummaries \<Rightarrow> []) \<and> cache_ok P m'"
proof (cases e)
  case (Summarize p v)
  obtain m' where memo: "(case p of
              Some p \<Rightarrow> if p \<noteq> [] then memoize_protover_summary P m p else Inr (m, no_flags)
            | None \<Rightarrow> Inr (m, no_flags)) =
      Inr (m', case p of Some p \<Rightarrow> if p \<noteq> [] then summarize_protocols P p else no_flags | None \<Rightarrow> no_flags)"
    and ok: "cache_ok P m'"
  proof (cases "p = None \<or> p = Some []")
    case True
    with that [of m] assms show ?thesis by auto
  next
    case False
    then obtain q where q: "p = Some q" "q \<noteq> []" by auto
    from memoize_ok [OF assms, of q] obtain m' where
      "memoize_protover_summary P m q = Inr (m', summarize_protocols P q)" "cache_ok P m'" by blast
    with q that [of m'] show ?thesis by simp
  qed
  have "summarize_protover_flags L P m p v = Inr (m', plain_summary L P p v)"
    unfolding summarize_protover_flags_def memo plain_summary_def Let_def bindE_simps prod.case
    by (cases v) (auto simp: conj_commute)
  with Summarize ok show ?thesis by (simp add: summary_step_def)
qed (simp add: summary_step_def protover_summary_cache_free_all_def cache_ok_def)

text \<open>No assertion fails, whatever the calls.\<close>

interpretation summaries: safe_machine "summary_step L P" "\<lambda>_ _. True" "cache_ok P"
proof
  show "\<exists>s' out. summary_step L P s e = Inr (s', out) \<and> cache_ok P s'" if "cache_ok P s" for s e
    using summary_step_ok [OF that, of L e] by blast
qed

definition summaries_asked :: "version_lib \<Rightarrow> protover_lib \<Rightarrow> summary_event list \<Rightarrow> protover_summary_flags list" where
  "summaries_asked L P es =
     concat (map (\<lambda>e. case e of Summarize p v \<Rightarrow> [plain_summary L P p v] | FreeSummaries \<Rightarrow> []) es)"

text \<open>
  C16. The cache of protocol summaries is transparent: over any calls, also those that empty it or overflow
  it, no assertion fails, every summary is the one computed from its strings alone, and the cache never
  holds more than 1024 lists.
\<close>

theorem summary_cache_is_transparent:
  assumes "cache_ok P m"
  shows "\<exists>m'. run (summary_step L P) m es = Inr (m', summaries_asked L P es) \<and> cache_ok P m'"
  using assms
proof (induction es arbitrary: m)
  case Nil
  then show ?case by (simp add: summaries_asked_def)
next
  case (Cons e es)
  from summary_step_ok [OF Cons.prems, of L e] obtain m1
    where st: "summary_step L P m e = Inr (m1, case e of Summarize p v \<Rightarrow> [plain_summary L P p v] | FreeSummaries \<Rightarrow> [])"
      and "cache_ok P m1" by blast
  from Cons.IH [OF this(2)] obtain m2 where "run (summary_step L P) m1 es = Inr (m2, summaries_asked L P es)" "cache_ok P m2"
    by blast
  with st show ?case by (simp add: summaries_asked_def)
qed

theorem summary_cache_is_transparent_witness:
  "\<exists>m. run (summary_step plain_version
          \<lparr>protocol_list_supports_protocol = (\<lambda>s p v. p = PRT_HSDIR), protocol_list_supports_protocol_or_later = (\<lambda>s p v. False)\<rparr>)
        None [Summarize (Some ''HSDir=2'') None, Summarize (Some ''HSDir=2'') None] = Inr (m,
          replicate 2 (no_flags\<lparr>protocols_known := True, supports_v3_hsdir := True\<rparr>))"
proof -
  let ?P = "\<lparr>protocol_list_supports_protocol = (\<lambda>s p v. p = PRT_HSDIR), protocol_list_supports_protocol_or_later = (\<lambda>s p v. False)\<rparr>"
  have "summaries_asked plain_version ?P [Summarize (Some ''HSDir=2'') None, Summarize (Some ''HSDir=2'') None] =
      replicate 2 (no_flags\<lparr>protocols_known := True, supports_v3_hsdir := True\<rparr>)"
    by (simp add: summaries_asked_def plain_summary_def summarize_protocols_def no_flags_def numeral_eq_Suc)
  with summary_cache_is_transparent [of ?P None plain_version "[Summarize (Some ''HSDir=2'') None, Summarize (Some ''HSDir=2'') None]"]
  show ?thesis by (auto simp: cache_ok_def)
qed

end
