(* ===== verification/Alert_Sock.thy ===== *)
theory Alert_Sock
  imports Prelude
begin

text \<open>
  \<open>src/networking/lib/alertsock.c\<close>: a pair of descriptors through which one thread wakes another, made of an
  \<open>eventfd\<close>, a pipe or a pair of sockets. The system calls are parameters over a state of the kernel. Two
  locales state what is used of them: \<open>descriptor_laws\<close> which descriptors are open, \<open>alert_kernel\<close> when a
  descriptor can be read. The loops that repeat a call need not end, so not returning is \<open>None\<close>.
  \<open>tor_assert_nonfatal_unreached\<close> only writes to the log, which is left out.
\<close>

section \<open>System calls\<close>

text \<open>What is written: a \<open>uint64_t\<close> or characters.\<close>

datatype io_buffer = U64 "64 word" | Chars string

text \<open>
  The calls that move data give the new state of the kernel, the result and \<open>errno\<close> (for the socket calls
  \<open>tor_socket_errno\<close>). \<open>eventfd\<close> takes its flags or none. \<open>pipe2\<close>, \<open>pipe\<close> and \<open>tor_socketpair\<close> give the two
  descriptors when they return 0.
\<close>

record 'k kernel =
  sys_write :: "'k \<Rightarrow> int \<Rightarrow> io_buffer \<Rightarrow> 'k \<times> int \<times> int"
  sys_read :: "'k \<Rightarrow> int \<Rightarrow> nat \<Rightarrow> 'k \<times> int \<times> int"
  sys_send :: "'k \<Rightarrow> int \<Rightarrow> io_buffer \<Rightarrow> 'k \<times> int \<times> int"
  sys_recv :: "'k \<Rightarrow> int \<Rightarrow> nat \<Rightarrow> 'k \<times> int \<times> int"
  EINTR :: int
  EAGAIN :: int
  ERRNO_IS_EINTR :: "int \<Rightarrow> bool"
  ERRNO_IS_EAGAIN :: "int \<Rightarrow> bool"
  sys_eventfd :: "'k \<Rightarrow> bool \<Rightarrow> 'k \<times> int"
  set_cloexec :: "'k \<Rightarrow> int \<Rightarrow> 'k \<times> int"
  set_socket_nonblocking :: "'k \<Rightarrow> int \<Rightarrow> 'k \<times> int"
  sys_pipe2 :: "'k \<Rightarrow> 'k \<times> (int \<times> int) option"
  sys_pipe :: "'k \<Rightarrow> 'k \<times> (int \<times> int) option"
  tor_socketpair :: "'k \<Rightarrow> 'k \<times> (int \<times> int) option"
  sys_close :: "'k \<Rightarrow> int \<Rightarrow> 'k"
  tor_close_socket :: "'k \<Rightarrow> int \<Rightarrow> 'k"

section \<open>Calls that are not interrupted\<close>






section \<open>Alerting and draining\<close>








section \<open>Creating and closing\<close>

datatype alert_kind = Eventfd | Pipe | Sock

text \<open>\<open>alert_sockets_t\<close>: the two function pointers name one of the three kinds.\<close>

record alert_sockets =
  read_fd :: int
  write_fd :: int
  alert_fn :: alert_kind
  drain_fn :: alert_kind

text \<open>What the build found, and the flags of the caller.\<close>

record asock_build =
  HAVE_EVENTFD :: bool
  HAVE_EFD_FLAGS :: bool
  HAVE_PIPE2 :: bool
  HAVE_PIPE :: bool

datatype asocks_flag = ASOCKS_NOEVENTFD2 | ASOCKS_NOEVENTFD | ASOCKS_NOPIPE2 | ASOCKS_NOPIPE | ASOCKS_NOSOCKETPAIR

text \<open>
  The conditions \<open>f(x) < 0 || g(y) < 0 || ...\<close>: the calls up to the first that fails are made. True when one
  failed.
\<close>

fun any_fails :: "('k \<Rightarrow> 'k \<times> int) list \<Rightarrow> 'k \<Rightarrow> 'k \<times> bool" where
  "any_fails [] k = (k, False)"
| "any_fails (c # cs) k = (let (k', r) = c k in if r < 0 then (k', True) else any_fails cs k')"

text \<open>The first part: \<open>Inl\<close> the descriptor, or -1 when the next part is to be tried, \<open>Inr ()\<close> for \<open>return -1\<close>.\<close>

definition open_eventfd :: "'k kernel \<Rightarrow> asock_build \<Rightarrow> asocks_flag set \<Rightarrow> 'k \<Rightarrow> 'k \<times> (int + unit)" where
  "open_eventfd K B flags k =
     (let (k1, fd) = (if HAVE_EFD_FLAGS B \<and> ASOCKS_NOEVENTFD2 \<notin> flags then sys_eventfd K k True else (k, -1))
      in if fd < 0 \<and> ASOCKS_NOEVENTFD \<notin> flags then
           let (k2, fd) = sys_eventfd K k1 False
           in if fd \<ge> 0 then
                let (k3, failed) = any_fails [\<lambda>k. set_cloexec K k fd, \<lambda>k. set_socket_nonblocking K k fd] k2
                in if failed then (sys_close K k3 fd, Inr ()) else (k3, Inl fd)
              else (k2, Inl fd)
         else (k1, Inl fd))"

definition open_socketpair :: "'k kernel \<Rightarrow> asocks_flag set \<Rightarrow> 'k \<Rightarrow> 'k \<times> alert_sockets option" where
  "open_socketpair K flags k =
     (if ASOCKS_NOSOCKETPAIR \<in> flags then (k, None)
      else case tor_socketpair K k of
        (k1, None) \<Rightarrow> (k1, None)
      | (k1, Some (a, b)) \<Rightarrow>
          let (k2, r) = set_socket_nonblocking K k1 a;
              (k3, failed) = (if r < 0 then (k2, True)
                              else let (k3, r') = set_socket_nonblocking K k2 b in (k3, r' \<noteq> 0))
          in if failed then (tor_close_socket K (tor_close_socket K k3 a) b, None)
             else (k3, Some \<lparr>read_fd = a, write_fd = b, alert_fn = Sock, drain_fn = Sock\<rparr>))"

definition open_pipe :: "'k kernel \<Rightarrow> asock_build \<Rightarrow> asocks_flag set \<Rightarrow> 'k \<Rightarrow> 'k \<times> alert_sockets option" where
  "open_pipe K B flags k =
     (case (if HAVE_PIPE B \<and> ASOCKS_NOPIPE \<notin> flags then sys_pipe K k else (k, None)) of
        (k1, None) \<Rightarrow> open_socketpair K flags k1
      | (k1, Some (a, b)) \<Rightarrow>
          let (k2, failed) = any_fails [\<lambda>k. set_cloexec K k a, \<lambda>k. set_cloexec K k b,
                \<lambda>k. set_socket_nonblocking K k a, \<lambda>k. set_socket_nonblocking K k b] k1
          in if failed then (sys_close K (sys_close K k2 a) b, None)
             else (k2, Some \<lparr>read_fd = a, write_fd = b, alert_fn = Pipe, drain_fn = Pipe\<rparr>))"

definition open_pipe2 :: "'k kernel \<Rightarrow> asock_build \<Rightarrow> asocks_flag set \<Rightarrow> 'k \<Rightarrow> 'k \<times> alert_sockets option" where
  "open_pipe2 K B flags k =
     (case (if HAVE_PIPE2 B \<and> ASOCKS_NOPIPE2 \<notin> flags then sys_pipe2 K k else (k, None)) of
        (k1, Some (a, b)) \<Rightarrow> (k1, Some \<lparr>read_fd = a, write_fd = b, alert_fn = Pipe, drain_fn = Pipe\<rparr>)
      | (k1, None) \<Rightarrow> open_pipe K B flags k1)"

text \<open>\<open>Some s\<close> when it returns 0 with \<open>s\<close> stored, \<open>None\<close> when it returns -1.\<close>

definition alert_sockets_create ::
    "'k kernel \<Rightarrow> asock_build \<Rightarrow> asocks_flag set \<Rightarrow> 'k \<Rightarrow> 'k \<times> alert_sockets option" where
  "alert_sockets_create K B flags k =
     (case (if HAVE_EVENTFD B then open_eventfd K B flags k else (k, Inl (-1))) of
        (k1, Inr u) \<Rightarrow> (k1, None)
      | (k1, Inl fd) \<Rightarrow>
          if fd \<ge> 0
          then (k1, Some \<lparr>read_fd = fd, write_fd = fd, alert_fn = Eventfd, drain_fn = Eventfd\<rparr>)
          else open_pipe2 K B flags k1)"

definition alert_sockets_close :: "'k kernel \<Rightarrow> alert_sockets \<Rightarrow> 'k \<Rightarrow> 'k \<times> alert_sockets" where
  "alert_sockets_close K s k =
     (if alert_fn s = Sock then tor_close_socket K (tor_close_socket K k (read_fd s)) (write_fd s)
      else let k1 = sys_close K k (read_fd s)
           in if write_fd s \<noteq> read_fd s then sys_close K k1 (write_fd s) else k1,
      s\<lparr>read_fd := -1, write_fd := -1\<rparr>)"

section \<open>Which descriptors are open\<close>

text \<open>
  A new descriptor is not negative and was not open; setting its flags opens and closes none. The locale
  is about the descriptors \<open>open_fds k\<close> of the process.
\<close>

definition opened_two :: "('k \<Rightarrow> int set) \<Rightarrow> 'k \<Rightarrow> 'k \<times> (int \<times> int) option \<Rightarrow> bool" where
  "opened_two open_fds k result = (case result of
     (k', None) \<Rightarrow> open_fds k' = open_fds k
   | (k', Some (a, b)) \<Rightarrow> a \<ge> 0 \<and> b \<ge> 0 \<and> a \<noteq> b \<and> {a, b} \<inter> open_fds k = {} \<and> open_fds k' = open_fds k \<union> {a, b})"

text \<open>What an attempt may leave: nothing new, or the descriptors of the pair it made.\<close>

definition leaves :: "('k \<Rightarrow> int set) \<Rightarrow> 'k \<Rightarrow> 'k \<times> alert_sockets option \<Rightarrow> bool" where
  "leaves open_fds k result = (case result of
     (k', None) \<Rightarrow> open_fds k' = open_fds k
   | (k', Some s) \<Rightarrow> read_fd s \<ge> 0 \<and> write_fd s \<ge> 0 \<and> {read_fd s, write_fd s} \<inter> open_fds k = {} \<and>
       open_fds k' = open_fds k \<union> {read_fd s, write_fd s} \<and> drain_fn s = alert_fn s \<and>
       (read_fd s = write_fd s \<longleftrightarrow> alert_fn s = Eventfd))"

locale descriptor_laws =
  fixes K :: "'k kernel" and open_fds :: "'k \<Rightarrow> int set"
  assumes eventfd_opens: "sys_eventfd K k fl = (k', fd) \<Longrightarrow>
      (if fd \<ge> 0 then fd \<notin> open_fds k \<and> open_fds k' = open_fds k \<union> {fd} else open_fds k' = open_fds k)"
    and pipe2_opens: "opened_two open_fds k (sys_pipe2 K k)"
    and pipe_opens: "opened_two open_fds k (sys_pipe K k)"
    and socketpair_opens: "opened_two open_fds k (tor_socketpair K k)"
    and flags_open_none: "open_fds (fst (set_cloexec K k fd)) = open_fds k"
      "open_fds (fst (set_socket_nonblocking K k fd)) = open_fds k"
    and close_closes: "open_fds (sys_close K k fd) = open_fds k - {fd}"
      "open_fds (tor_close_socket K k fd) = open_fds k - {fd}"
begin

lemma any_fails_open: "list_all (\<lambda>c. \<forall>k. open_fds (fst (c k)) = open_fds k) cs \<Longrightarrow> open_fds (fst (any_fails cs k)) = open_fds k"
proof (induction cs arbitrary: k)
  case (Cons c cs)
  obtain k' r where c: "c k = (k', r)" by fastforce
  from Cons.prems have "open_fds (fst (c k)) = open_fds k" by simp
  with c Cons.IH [of k'] Cons.prems show ?case by simp
qed simp

lemma nonblocking_open: "set_socket_nonblocking K k fd = (k', r) \<Longrightarrow> open_fds k' = open_fds k"
  using flags_open_none(2) [of k fd] by simp

lemma any_fails_flags:
  assumes "any_fails cs k = (k', f)"
    and "set cs \<subseteq> {c. (\<exists>fd. c = (\<lambda>k. set_cloexec K k fd)) \<or> (\<exists>fd. c = (\<lambda>k. set_socket_nonblocking K k fd))}"
  shows "open_fds k' = open_fds k"
proof -
  have "list_all (\<lambda>c. \<forall>k. open_fds (fst (c k)) = open_fds k) cs"
    unfolding list_all_iff
  proof (intro ballI allI)
    fix c k assume "c \<in> set cs"
    with assms(2) show "open_fds (fst (c k)) = open_fds k" using flags_open_none by blast
  qed
  from any_fails_open [OF this, of k] assms(1) show ?thesis by simp
qed

lemma socketpair_leaves: "leaves open_fds k (open_socketpair K flags k)"
proof (cases "ASOCKS_NOSOCKETPAIR \<in> flags")
  case True
  then show ?thesis by (simp add: open_socketpair_def leaves_def)
next
  case False
  obtain k1 r where p: "tor_socketpair K k = (k1, r)" by fastforce
  show ?thesis
  proof (cases r)
    case None
    with False p socketpair_opens [of k] show ?thesis by (simp add: open_socketpair_def leaves_def opened_two_def)
  next
    case (Some ab)
    obtain a b where ab: "ab = (a, b)" by fastforce
    obtain k2 r2 where n1: "set_socket_nonblocking K k1 a = (k2, r2)" by fastforce
    obtain k3 r3 where n2: "set_socket_nonblocking K k2 b = (k3, r3)" by fastforce
    note opens = nonblocking_open [OF n1] nonblocking_open [OF n2]
    with False p Some ab n1 n2 socketpair_opens [of k] show ?thesis
      by (auto simp: open_socketpair_def leaves_def opened_two_def close_closes)
  qed
qed

lemma leaves_cong: "open_fds k1 = open_fds k \<Longrightarrow> leaves open_fds k1 result \<longleftrightarrow> leaves open_fds k result"
  unfolding leaves_def by simp

lemma pipe_leaves: "leaves open_fds k (open_pipe K B flags k)"
proof (cases "HAVE_PIPE B \<and> ASOCKS_NOPIPE \<notin> flags")
  case False
  then show ?thesis using socketpair_leaves by (auto simp: open_pipe_def)
next
  case True
  obtain k1 r where p: "sys_pipe K k = (k1, r)" by (cases "sys_pipe K k")
  show ?thesis
  proof (cases r)
    case None
    with p pipe_opens [of k] have "open_fds k1 = open_fds k" by (simp add: opened_two_def)
    from leaves_cong [OF this] socketpair_leaves [of k1 flags] True p None show ?thesis by (simp add: open_pipe_def)
  next
    case (Some ab)
    obtain a b where ab: "ab = (a, b)" by (cases ab)
    let ?cs = "[\<lambda>k. set_cloexec K k a, \<lambda>k. set_cloexec K k b, \<lambda>k. set_socket_nonblocking K k a, \<lambda>k. set_socket_nonblocking K k b]"
    obtain k2 f where f: "any_fails ?cs k1 = (k2, f)" by (cases "any_fails ?cs k1")
    have "open_fds k2 = open_fds k1" by (rule any_fails_flags [OF f]) auto
    with p Some ab pipe_opens [of k] True f show ?thesis
      by (auto simp: open_pipe_def leaves_def opened_two_def close_closes simp del: any_fails.simps)
  qed
qed

lemma pipe2_leaves: "leaves open_fds k (open_pipe2 K B flags k)"
proof (cases "HAVE_PIPE2 B \<and> ASOCKS_NOPIPE2 \<notin> flags")
  case False
  then show ?thesis using pipe_leaves by (auto simp: open_pipe2_def)
next
  case True
  obtain k1 r where p: "sys_pipe2 K k = (k1, r)" by (cases "sys_pipe2 K k")
  show ?thesis
  proof (cases r)
    case None
    with p pipe2_opens [of k] have "open_fds k1 = open_fds k" by (simp add: opened_two_def)
    from leaves_cong [OF this] pipe_leaves [of k1] True p None show ?thesis by (simp add: open_pipe2_def)
  next
    case (Some ab)
    with p pipe2_opens [of k] True show ?thesis by (auto simp: open_pipe2_def leaves_def opened_two_def split: prod.splits)
  qed
qed

lemma eventfd_leaves:
  assumes "open_eventfd K B flags k = (k', result)"
  shows "case result of Inr u \<Rightarrow> open_fds k' = open_fds k
    | Inl fd \<Rightarrow> if fd \<ge> 0 then fd \<notin> open_fds k \<and> open_fds k' = open_fds k \<union> {fd} else open_fds k' = open_fds k"
proof -
  obtain k1 fd where first: "(if HAVE_EFD_FLAGS B \<and> ASOCKS_NOEVENTFD2 \<notin> flags then sys_eventfd K k True else (k, -1)) = (k1, fd)"
    by fastforce
  have o1: "if fd \<ge> 0 then fd \<notin> open_fds k \<and> open_fds k1 = open_fds k \<union> {fd} else open_fds k1 = open_fds k"
    using first eventfd_opens [of k True k1 fd] by (cases "HAVE_EFD_FLAGS B \<and> ASOCKS_NOEVENTFD2 \<notin> flags") auto
  show ?thesis
  proof (cases "fd < 0 \<and> ASOCKS_NOEVENTFD \<notin> flags")
    case False
    with assms first o1 show ?thesis by (auto simp: open_eventfd_def)
  next
    case True
    obtain k2 fd2 where second: "sys_eventfd K k1 False = (k2, fd2)" by fastforce
    from o1 True have "open_fds k1 = open_fds k" by simp
    with eventfd_opens [OF second]
    have o2: "if fd2 \<ge> 0 then fd2 \<notin> open_fds k \<and> open_fds k2 = open_fds k \<union> {fd2} else open_fds k2 = open_fds k"
      by (simp split: if_splits)
    let ?cs = "[\<lambda>k. set_cloexec K k fd2, \<lambda>k. set_socket_nonblocking K k fd2]"
    obtain k3 f where f: "any_fails ?cs k2 = (k3, f)" by (cases "any_fails ?cs k2")
    have "open_fds k3 = open_fds k2" by (rule any_fails_flags [OF f]) auto
    with assms first True second f o2 show ?thesis
      by (auto simp: open_eventfd_def close_closes simp del: any_fails.simps split: if_splits)
  qed
qed

lemma create_leaves: "leaves open_fds k (alert_sockets_create K B flags k)"
proof -
  obtain k1 r where e: "(if HAVE_EVENTFD B then open_eventfd K B flags k else (k, Inl (-1))) = (k1, r)"
    by fastforce
  have "case r of Inr u \<Rightarrow> open_fds k1 = open_fds k
    | Inl fd \<Rightarrow> if fd \<ge> 0 then fd \<notin> open_fds k \<and> open_fds k1 = open_fds k \<union> {fd} else open_fds k1 = open_fds k"
    using e eventfd_leaves [of B flags k k1 r] by (cases "HAVE_EVENTFD B") auto
  note opened = this
  show ?thesis
  proof (cases "\<exists>fd. r = Inl fd \<and> fd < 0")
    case True
    then obtain fd where fd: "r = Inl fd" "fd < 0" by blast
    with opened have "open_fds k1 = open_fds k" by simp
    from leaves_cong [OF this] pipe2_leaves [of k1 B flags] e fd show ?thesis by (simp add: alert_sockets_create_def)
  next
    case False
    with opened show ?thesis unfolding alert_sockets_create_def e by (cases r) (simp_all add: leaves_def)
  qed
qed

lemma close_undoes:
  assumes "alert_sockets_create K B flags k = (k', Some s)"
  shows "open_fds (fst (alert_sockets_close K s k')) = open_fds k"
  using create_leaves [of k B flags] assms by (auto simp: alert_sockets_close_def leaves_def Let_def close_closes)

end

section \<open>Waking and draining\<close>














section \<open>A small kernel\<close>

text \<open>
  A kernel for which the laws hold, for examples: descriptors \<open>2 n\<close> and \<open>2 n + 1\<close> share an object that holds
  up to two items, a read takes all of them, and the first calls are interrupted.
\<close>

record plain_state =
  ps_open :: "int list"
  ps_items :: "int \<Rightarrow> nat"
  ps_interrupts :: nat

definition plain_transfer :: "(nat \<Rightarrow> (nat \<times> int) option) \<Rightarrow> plain_state \<Rightarrow> int \<Rightarrow> plain_state \<times> int \<times> int" where
  "plain_transfer f p fd =
     (if ps_interrupts p > 0 then (p\<lparr>ps_interrupts := ps_interrupts p - 1\<rparr>, -1, 4)
      else case f (ps_items p (fd div 2)) of
        None \<Rightarrow> (p, -1, 11)
      | Some (n, r) \<Rightarrow> (p\<lparr>ps_items := (ps_items p)(fd div 2 := n)\<rparr>, r, 0))"

definition put_item :: "nat \<Rightarrow> (nat \<times> int) option" where
  "put_item n = (if n \<ge> 2 then None else Some (Suc n, 1))"

definition take_items :: "nat \<Rightarrow> (nat \<times> int) option" where
  "take_items n = (if n = 0 then None else Some (0, int n))"

definition fresh_fd :: "plain_state \<Rightarrow> int" where
  "fresh_fd p = 2 * (foldr max (ps_open p) 0 + 1)"

definition plain_two :: "plain_state \<Rightarrow> plain_state \<times> (int \<times> int) option" where
  "plain_two p =
     (p\<lparr>ps_open := fresh_fd p # (fresh_fd p + 1) # ps_open p\<rparr>, Some (fresh_fd p, fresh_fd p + 1))"

definition plain_close :: "plain_state \<Rightarrow> int \<Rightarrow> plain_state" where
  "plain_close p fd = p\<lparr>ps_open := removeAll fd (ps_open p)\<rparr>"

definition plain_kernel :: "plain_state kernel" where
  "plain_kernel = \<lparr>sys_write = (\<lambda>p fd b. plain_transfer put_item p fd), sys_read = (\<lambda>p fd n. plain_transfer take_items p fd),
     sys_send = (\<lambda>p fd b. plain_transfer put_item p fd), sys_recv = (\<lambda>p fd n. plain_transfer take_items p fd),
     EINTR = 4, EAGAIN = 11, ERRNO_IS_EINTR = (\<lambda>e. e = 4), ERRNO_IS_EAGAIN = (\<lambda>e. e = 11),
     sys_eventfd = (\<lambda>p fl. (p\<lparr>ps_open := fresh_fd p # ps_open p\<rparr>, fresh_fd p)),
     set_cloexec = (\<lambda>p fd. (p, 0)), set_socket_nonblocking = (\<lambda>p fd. (p, if odd fd then -1 else 0)),
     sys_pipe2 = (\<lambda>p. (p, None)), sys_pipe = plain_two, tor_socketpair = plain_two,
     sys_close = plain_close, tor_close_socket = plain_close\<rparr>"

lemma plain_kernel_sel [simp]:
  "sys_write plain_kernel = (\<lambda>p fd b. plain_transfer put_item p fd)"
  "sys_read plain_kernel = (\<lambda>p fd n. plain_transfer take_items p fd)"
  "sys_send plain_kernel = (\<lambda>p fd b. plain_transfer put_item p fd)"
  "sys_recv plain_kernel = (\<lambda>p fd n. plain_transfer take_items p fd)"
  "EINTR plain_kernel = 4" "EAGAIN plain_kernel = 11"
  "ERRNO_IS_EINTR plain_kernel = (\<lambda>e. e = 4)" "ERRNO_IS_EAGAIN plain_kernel = (\<lambda>e. e = 11)"
  "sys_eventfd plain_kernel = (\<lambda>p fl. (p\<lparr>ps_open := fresh_fd p # ps_open p\<rparr>, fresh_fd p))"
  "set_cloexec plain_kernel = (\<lambda>p fd. (p, 0))"
  "set_socket_nonblocking plain_kernel = (\<lambda>p fd. (p, if odd fd then -1 else 0))"
  "sys_pipe2 plain_kernel = (\<lambda>p. (p, None))" "sys_pipe plain_kernel = plain_two" "tor_socketpair plain_kernel = plain_two"
  "sys_close plain_kernel = plain_close" "tor_close_socket plain_kernel = plain_close"
  by (simp_all add: plain_kernel_def)

lemma foldr_max_bounds: "0 \<le> foldr max xs (0 :: int)" "fd \<in> set xs \<Longrightarrow> fd \<le> foldr max xs 0"
  by (induction xs) auto

lemma fresh_fd_new: "0 < fresh_fd p" "fd \<in> set (ps_open p) \<Longrightarrow> fd < fresh_fd p"
  using foldr_max_bounds [where xs = "ps_open p"] by (force simp: fresh_fd_def)+

lemma plain_two_opens: "opened_two (\<lambda>p. set (ps_open p)) p (plain_two p)"
  using fresh_fd_new [where p = p] by (force simp: opened_two_def plain_two_def)

interpretation plain_fds: descriptor_laws plain_kernel "\<lambda>p. set (ps_open p)"
proof (unfold_locales, goal_cases)
  case (1 k fl k' fd)
  then show ?case using fresh_fd_new [where p = k] by force
next
  case (2 k)
  then show ?case by (simp add: opened_two_def)
qed (simp_all add: plain_two_opens plain_close_def)




section \<open>Properties\<close>

text \<open>
  C5. Whichever of the four ways works or fails half way, no descriptor is leaked: a pair that was created holds
  exactly the new descriptors, and closing it gives them back; a failure leaves none.
\<close>

theorem alert_sockets_leak_nothing:
  assumes "descriptor_laws K open_fds" and "alert_sockets_create K B flags k = (k', result)"
  shows "case result of
      None \<Rightarrow> open_fds k' = open_fds k
    | Some s \<Rightarrow> {read_fd s, write_fd s} \<inter> open_fds k = {} \<and> open_fds k' = open_fds k \<union> {read_fd s, write_fd s} \<and>
        open_fds (fst (alert_sockets_close K s k')) = open_fds k"
  using descriptor_laws.create_leaves [OF assms(1), of k B flags] descriptor_laws.close_undoes [OF assms(1), of B flags k k'] assms(2)
  by (auto simp: leaves_def split: option.split)

text \<open>A kernel in which the write end of a pipe cannot be made non-blocking.\<close>

theorem alert_sockets_leak_nothing_witness:
  "\<exists>k'. alert_sockets_create plain_kernel \<lparr>HAVE_EVENTFD = False, HAVE_EFD_FLAGS = False, HAVE_PIPE2 = True, HAVE_PIPE = True\<rparr> {}
      \<lparr>ps_open = [0, 1], ps_items = (\<lambda>_. 0), ps_interrupts = 0\<rparr> = (k', None) \<and> set (ps_open k') = {0, 1}"
proof -
  let ?B = "\<lparr>HAVE_EVENTFD = False, HAVE_EFD_FLAGS = False, HAVE_PIPE2 = True, HAVE_PIPE = True\<rparr>"
  let ?k = "\<lparr>ps_open = [0, 1 :: int], ps_items = (\<lambda>_. 0), ps_interrupts = 0\<rparr>"
  obtain k' where create: "alert_sockets_create plain_kernel ?B {} ?k = (k', None)"
    by (simp add: alert_sockets_create_def open_pipe2_def open_pipe_def plain_two_def fresh_fd_def)
  from alert_sockets_leak_nothing [OF plain_fds.descriptor_laws_axioms create] create show ?thesis by auto
qed



end
