(* ===== verification/Onion_Stats.thy ===== *)
theory Onion_Stats
  imports C_Text
begin

text \<open>
  The statistics that the signal \<open>SIGUSR1\<close> writes to the log, \<open>src/app/startup/main.c\<close> lines 261 to 336. A line of
  the log is a value with the numbers it shows, cut to an \<open>int\<close> where the code does; what other parts of the
  router write is one value each. The lemmas show which lines are written for a connection and that the averages
  are exact.
\<close>

section \<open>Lines\<close>

text \<open>
  The averages of cells are floating point numbers: the line holds the bytes and the bytes that would fit, whose
  ratio in percent is shown.
\<close>

datatype direction = Reading | Writing

datatype stat_line =
    DumpingStats
  | ConnLine nat int string int
  | InbufLine nat int int int
  | OutbufLine nat int int int
  | TlsLine nat int int int int
  | CircuitsOf nat
  | ChannelStats
  | ChannelListenerStats
  | CellsProcessed "nat list"
  | PackagedFullness nat nat
  | DeliveredFullness nat nat
  | OnionskinOverhead string
  | AverageBandwidth direction nat int int
  | MemoryHeader
  | BufferMemory
  | RephistMemory nat int
  | RouterlistMemory
  | CellPoolMemory
  | DnsMemory
  | RephistStats int
  | HsServiceStats

text \<open>
  A connection as it is shown: its buffers with what is in them and what is allocated, and, for an OR connection
  with TLS, the capacities and lengths of the buffers of OpenSSL, \<open>Some None\<close> when they cannot be had.
\<close>

record connection =
  conn_socket :: int
  connection_describe :: string
  timestamp_created :: int
  connection_is_listener :: bool
  inbuf_len :: nat
  inbuf_allocation :: nat
  timestamp_last_read_allowed :: int
  outbuf_len :: nat
  outbuf_allocation :: nat
  timestamp_last_write_allowed :: int
  is_or_connection :: bool
  tls_buffer_sizes :: "(nat \<times> nat \<times> nat \<times> nat) option option"

record stats_env =
  now :: int
  time_of_process_start :: int
  get_connection_array :: "connection list"
  stats_n_cells_processed :: "nat list"
  data_bytes_packaged :: nat
  data_cells_packaged :: nat
  data_bytes_received :: nat
  data_cells_received :: nat
  get_bytes_read :: nat
  get_bytes_written :: nat
  rephist_total_alloc :: nat
  rephist_total_num :: int
  RELAY_PAYLOAD_SIZE_MAX :: nat

section \<open>Operations\<close>

definition dumpmemusage :: "stats_env \<Rightarrow> stat_line list" where
  "dumpmemusage E =
     [BufferMemory, RephistMemory (rephist_total_alloc E) (rephist_total_num E), RouterlistMemory, CellPoolMemory, DnsMemory]"

text \<open>The body of the loop over the connections.\<close>

definition dump_connection :: "int \<Rightarrow> nat \<times> connection \<Rightarrow> stat_line list" where
  "dump_connection t = (\<lambda>(i, conn).
     ConnLine i (conn_socket conn) (connection_describe conn) (int_of_long (t - timestamp_created conn)) #
     (if \<not> connection_is_listener conn then
        [InbufLine i (int_of_long (int (inbuf_len conn))) (int_of_long (int (inbuf_allocation conn)))
           (int_of_long (t - timestamp_last_read_allowed conn)),
         OutbufLine i (int_of_long (int (outbuf_len conn))) (int_of_long (int (outbuf_allocation conn)))
           (int_of_long (t - timestamp_last_write_allowed conn))] @
        (case (if is_or_connection conn then tls_buffer_sizes conn else None) of
           Some (Some (rbuf_cap, rbuf_len, wbuf_cap, wbuf_len)) \<Rightarrow>
             [TlsLine i (int_of_long (int rbuf_len)) (int_of_long (int rbuf_cap))
                (int_of_long (int wbuf_len)) (int_of_long (int wbuf_cap))]
         | _ \<Rightarrow> [])
      else []) @
     [CircuitsOf i])"

definition elapsed_time :: "stats_env \<Rightarrow> int" where
  "elapsed_time E = (if now E - time_of_process_start E \<ge> 0 then now E - time_of_process_start E else 0)"

definition average_line :: "direction \<Rightarrow> nat \<Rightarrow> int \<Rightarrow> stat_line" where
  "average_line d bytes elapsed = AverageBandwidth d bytes (int_of_long elapsed) (int_of_long (int bytes div elapsed))"

definition dumpstats :: "stats_env \<Rightarrow> stat_line list" where
  "dumpstats E =
     DumpingStats # concat (map (dump_connection (now E)) (enumerate 0 (get_connection_array E))) @
     [ChannelStats, ChannelListenerStats, CellsProcessed (stats_n_cells_processed E)] @
     (if data_cells_packaged E \<noteq> 0
      then [PackagedFullness (data_bytes_packaged E) (data_cells_packaged E * RELAY_PAYLOAD_SIZE_MAX E)] else []) @
     (if data_cells_received E \<noteq> 0
      then [DeliveredFullness (data_bytes_received E) (data_cells_received E * RELAY_PAYLOAD_SIZE_MAX E)] else []) @
     [OnionskinOverhead ''TAP'', OnionskinOverhead ''ntor''] @
     (if elapsed_time E \<noteq> 0
      then [average_line Reading (get_bytes_read E) (elapsed_time E), average_line Writing (get_bytes_written E) (elapsed_time E)]
      else []) @
     [MemoryHeader] @ dumpmemusage E @ [RephistStats (now E), HsServiceStats]"

section \<open>What is written\<close>

text \<open>The connection a line is about.\<close>

fun line_connection :: "stat_line \<Rightarrow> nat option" where
  "line_connection (ConnLine i s d c) = Some i"
| "line_connection (InbufLine i n a t) = Some i"
| "line_connection (OutbufLine i n a t) = Some i"
| "line_connection (TlsLine i a b c d) = Some i"
| "line_connection (CircuitsOf i) = Some i"
| "line_connection _ = None"

lemma dump_connection_lines:
  "l \<in> set (dump_connection t (i, conn)) \<Longrightarrow> line_connection l = Some i"
  by (auto simp: dump_connection_def split: if_splits option.splits)

lemma filter_dump_connection:
  "filter (\<lambda>l. line_connection l = Some j) (dump_connection t (i, conn)) = (if i = j then dump_connection t (i, conn) else [])"
  using dump_connection_lines [of _ t i conn] by (auto simp: filter_id_conv filter_empty_conv)

lemma filter_dump_connections:
  "filter (\<lambda>l. line_connection l = Some j) (concat (map (dump_connection t) (enumerate n conns))) =
    (if n \<le> j \<and> j < n + length conns then dump_connection t (j, conns ! (j - n)) else [])"
proof (induction conns arbitrary: n)
  case (Cons c cs)
  show ?case
    using Cons.IH [of "Suc n"] by (cases "j = n") (auto simp: filter_dump_connection nth_Cons' Suc_diff_Suc)
qed auto

lemma filter_dumpstats:
  "filter (\<lambda>l. line_connection l = Some j) (dumpstats E) =
    filter (\<lambda>l. line_connection l = Some j) (concat (map (dump_connection (now E)) (enumerate 0 (get_connection_array E))))"
  by (simp add: dumpstats_def dumpmemusage_def average_line_def)

text \<open>
  The lines about a connection are written together and once, for every connection: it is described, its buffers
  are shown unless it is a listener, those of OpenSSL only for an OR connection that has them, and its circuits
  come last.
\<close>

theorem every_connection_is_dumped_once:
  assumes "j < length (get_connection_array E)"
  shows "filter (\<lambda>l. line_connection l = Some j) (dumpstats E) = dump_connection (now E) (j, get_connection_array E ! j) \<and>
    ((\<exists>n a t. InbufLine j n a t \<in> set (dumpstats E)) \<longleftrightarrow> \<not> connection_is_listener (get_connection_array E ! j)) \<and>
    ((\<exists>a b c d. TlsLine j a b c d \<in> set (dumpstats E)) \<longleftrightarrow>
      \<not> connection_is_listener (get_connection_array E ! j) \<and> is_or_connection (get_connection_array E ! j) \<and>
      (\<exists>sizes. tls_buffer_sizes (get_connection_array E ! j) = Some (Some sizes)))"
proof -
  have only: "filter (\<lambda>l. line_connection l = Some j) (dumpstats E) = dump_connection (now E) (j, get_connection_array E ! j)"
    using assms by (simp add: filter_dumpstats filter_dump_connections)
  have mem: "l \<in> set (dumpstats E) \<longleftrightarrow> l \<in> set (dump_connection (now E) (j, get_connection_array E ! j))"
    if "line_connection l = Some j" for l
    using arg_cong [OF only, of set] that by auto
  show ?thesis
    unfolding only by (cases "tls_buffer_sizes (get_connection_array E ! j)") (auto simp: mem dump_connection_def split: option.splits)
qed

text \<open>The averages among the lines, with the bytes they are of.\<close>

fun average_of :: "stat_line \<Rightarrow> (direction \<times> nat) list" where
  "average_of (AverageBandwidth d bytes secs rate) = [(d, bytes)]"
| "average_of _ = []"

definition averages_shown :: "stat_line list \<Rightarrow> (direction \<times> nat) list" where
  "averages_shown ls = concat (map average_of ls)"

lemma averages_shown_simps [simp]:
  "averages_shown [] = []" "averages_shown (l # ls) = average_of l @ averages_shown ls"
  "averages_shown (ls @ ms) = averages_shown ls @ averages_shown ms"
  by (simp_all add: averages_shown_def)

lemma averages_of_connection [simp]: "averages_shown (dump_connection t ic) = []"
  by (cases ic) (simp add: dump_connection_def split: option.split)

lemma averages_of_connections [simp]: "averages_shown (concat (map (dump_connection t) ics)) = []"
  by (induction ics) simp_all

lemma average_shown: "AverageBandwidth d bytes secs rate \<in> set ls \<Longrightarrow> (d, bytes) \<in> set (averages_shown ls)"
  by (force simp: averages_shown_def)

text \<open>The whole bytes in each second, for a rate and a time that fit an \<open>int\<close>.\<close>

lemma average_line_exact:
  assumes "0 < t" and "t < 2 ^ 31" and "int bytes < 2 ^ 31 * t" and "average_line d bytes t = AverageBandwidth d' bytes' secs rate"
  shows "secs = t \<and> 0 \<le> rate \<and> rate * secs \<le> int bytes \<and> int bytes < (rate + 1) * secs"
proof -
  have fits: "int_of_long x = x" if "0 \<le> x" "x < 2 ^ 31" for x
    using that by (simp add: int_of_long_def sint_small)
  have le: "int bytes div t * t \<le> int bytes"
    using div_mult_mod_eq [of "int bytes" t] pos_mod_sign [OF assms(1), of "int bytes"] by linarith
  have "int bytes div t < 2 ^ 31"
  proof (rule ccontr)
    assume "\<not> int bytes div t < 2 ^ 31"
    then have "2 ^ 31 * t \<le> int bytes div t * t" using assms(1) by (intro mult_right_mono) auto
    with le assms(3) show False by linarith
  qed
  moreover have nonneg: "0 \<le> int bytes div t" using assms(1) by (simp add: pos_imp_zdiv_nonneg_iff)
  ultimately have shown: "secs = t" "rate = int bytes div t"
    using assms(1,2,4) fits by (auto simp: average_line_def)
  have "int bytes < (int bytes div t + 1) * t"
    using div_mult_mod_eq [of "int bytes" t] pos_mod_bound [OF assms(1), of "int bytes"] by (simp only: distrib_right mult_1)
  then show ?thesis unfolding shown using le nonneg by blast
qed

lemma average_lines:
  "AverageBandwidth d bytes secs rate \<in> set (dumpstats E) \<Longrightarrow>
     average_line d bytes (now E - time_of_process_start E) = AverageBandwidth d bytes secs rate"
proof -
  assume line: "AverageBandwidth d bytes secs rate \<in> set (dumpstats E)"
  have "AverageBandwidth d b s r \<notin> set (dump_connection t ic)" for b s r t ic
    using average_shown [of d b s r "dump_connection t ic"] by auto
  with line show ?thesis
    by (auto simp: dumpstats_def dumpmemusage_def elapsed_time_def average_line_def split: if_splits)
qed

text \<open>
  C38. The averages are shown exactly when the clock is past the time of the start, one for the bytes read and one for the
  bytes written; a clock that stands still or was set back shows none, so that nothing is divided by zero. An average that
  is shown is the number of whole bytes in each second, provided that the time, in seconds, and the rate fit an \<open>int\<close>:
  the code cuts both to one.
\<close>

theorem averages_are_exact:
  "averages_shown (dumpstats E) =
     (if now E \<le> time_of_process_start E then []
      else [(Reading, get_bytes_read E), (Writing, get_bytes_written E)]) \<and>
   (\<forall>d bytes secs rate. AverageBandwidth d bytes secs rate \<in> set (dumpstats E) \<and>
      now E - time_of_process_start E < 2 ^ 31 \<and> int bytes < 2 ^ 31 * (now E - time_of_process_start E) \<longrightarrow>
      secs = now E - time_of_process_start E \<and> 0 \<le> rate \<and> rate * secs \<le> int bytes \<and> int bytes < (rate + 1) * secs)"
proof (intro conjI allI impI)
  show shown: "averages_shown (dumpstats E) =
     (if now E \<le> time_of_process_start E then []
      else [(Reading, get_bytes_read E), (Writing, get_bytes_written E)])"
    by (simp add: dumpstats_def dumpmemusage_def elapsed_time_def average_line_def)
  fix d bytes secs rate
  let ?t = "now E - time_of_process_start E"
  assume line: "AverageBandwidth d bytes secs rate \<in> set (dumpstats E) \<and> ?t < 2 ^ 31 \<and> int bytes < 2 ^ 31 * ?t"
  with average_shown [of d bytes secs rate "dumpstats E"] have "0 < ?t" by (auto simp: shown split: if_splits)
  with line average_lines average_line_exact show "secs = ?t" "0 \<le> rate" "rate * secs \<le> int bytes" "int bytes < (rate + 1) * secs"
    by blast+
qed

definition sample_stats :: stats_env where
  "sample_stats = \<lparr>now = 1010, time_of_process_start = 1000,
     get_connection_array = [\<lparr>conn_socket = 3, connection_describe = ''listener'', timestamp_created = 1000,
       connection_is_listener = True, inbuf_len = 0, inbuf_allocation = 0, timestamp_last_read_allowed = 0, outbuf_len = 0,
       outbuf_allocation = 0, timestamp_last_write_allowed = 0, is_or_connection = False, tls_buffer_sizes = None\<rparr>],
     stats_n_cells_processed = [0, 0, 0, 0, 0, 0, 0], data_bytes_packaged = 0, data_cells_packaged = 0,
     data_bytes_received = 0, data_cells_received = 0, get_bytes_read = 1234, get_bytes_written = 99,
     rephist_total_alloc = 0, rephist_total_num = 0, RELAY_PAYLOAD_SIZE_MAX = 498\<rparr>"

theorem averages_are_exact_witness:
  "AverageBandwidth Reading 1234 10 123 \<in> set (dumpstats sample_stats) \<and> (123 :: int) * 10 \<le> 1234 \<and>
   averages_shown (dumpstats (sample_stats\<lparr>now := 990\<rparr>)) = []"
proof -
  have line: "AverageBandwidth Reading 1234 10 123 \<in> set (dumpstats sample_stats)"
    by (simp add: dumpstats_def sample_stats_def elapsed_time_def average_line_def int_of_long_def)
  have "(123 :: int) * 10 \<le> int 1234"
    using averages_are_exact [of sample_stats] line by (simp add: sample_stats_def)
  moreover have "averages_shown (dumpstats (sample_stats\<lparr>now := 990\<rparr>)) = []"
    using averages_are_exact [of "sample_stats\<lparr>now := 990\<rparr>"] by (simp add: sample_stats_def)
  ultimately show ?thesis using line by simp
qed

theorem every_connection_is_dumped_once_witness:
  "\<not> (\<exists>n a t. InbufLine 0 n a t \<in> set (dumpstats sample_stats))"
  using every_connection_is_dumped_once [of 0 sample_stats] by (simp add: sample_stats_def)

end
