(* ===== verification/Polling_Programs.thy ===== *)
theory Polling_Programs
  imports Small_Programs C_Text
begin

text \<open>
  Two programs that wait for a thread, \<open>main\<close> of \<open>src/native-header/spl/futureh.cpp\<close> and
  \<open>src/native-header/spl/future_startup.cpp\<close>, and \<open>src/pointers/ex.c\<close>, which writes through a pointer. When
  the thread is done is not theirs to say: it is the answer of each \<open>wait_for\<close>. The lemmas show that the
  programs end exactly when the thread does, and what they have then printed.
\<close>

section \<open>Waiting\<close>

abbreviation newline :: string where "newline \<equiv> [CHR 0x0A]"

text \<open>
  \<open>while (f.wait_for(...) != ready) { body }\<close> from the \<open>i\<close>-th question on: \<open>ready i\<close> is its answer, \<open>printed i\<close>
  what is printed before the next question. The loop need not end, so its output may be \<open>None\<close>.
\<close>

partial_function (option) wait_loop :: "(nat \<Rightarrow> bool) \<Rightarrow> (nat \<Rightarrow> string) \<Rightarrow> nat \<Rightarrow> string option" where
  "wait_loop ready printed i =
     (if ready i then Some []
      else Option.bind (wait_loop ready printed (Suc i)) (\<lambda>out. Some (printed i @ out)))"

lemma wait_loop_returns:
  assumes "ready (i + n)" and "\<And>k. k < n \<Longrightarrow> \<not> ready (i + k)"
  shows "wait_loop ready printed i = Some (concat (map printed [i..<i + n]))"
  using assms
proof (induction n arbitrary: i)
  case 0
  then show ?case by (simp add: wait_loop.simps [of ready])
next
  case (Suc n)
  have "wait_loop ready printed (Suc i) = Some (concat (map printed [Suc i..<Suc i + n]))"
    using Suc.prems(1) Suc.prems(2) [of "Suc k" for k] by (intro Suc.IH) auto
  moreover have "[i..<i + Suc n] = i # [Suc i..<Suc i + n]" by (simp add: upt_conv_Cons)
  ultimately show ?case using Suc.prems(2) [of 0] by (simp add: wait_loop.simps [of ready printed i])
qed

lemma wait_loop_ends:
  assumes "wait_loop ready printed i = Some out"
  shows "\<exists>k. ready (i + k)"
proof (rule wait_loop.raw_induct [OF _ assms])
  fix loop and ready :: "nat \<Rightarrow> bool" and printed and i :: nat and out :: string
  assume later: "\<And>ready printed i out. loop ready printed i = Some out \<Longrightarrow> \<exists>k. ready (i + k)"
    and body: "(if ready i then Some [] else Option.bind (loop ready printed (Suc i)) (\<lambda>out. Some (printed i @ out))) = Some out"
  show "\<exists>k. ready (i + k)"
  proof (cases "ready i")
    case True
    then show ?thesis by (intro exI [of _ 0]) simp
  next
    case False
    with body obtain rest where "loop ready printed (Suc i) = Some rest" by (auto simp: bind_eq_Some_conv)
    from later [OF this] obtain k where "ready (Suc i + k)" ..
    then show ?thesis by (intro exI [of _ "Suc k"]) simp
  qed
qed

text \<open>The output of the loop, when its \<open>n\<close>-th question is the first that is answered with ready.\<close>

lemma wait_loop_value:
  "wait_loop ready printed 0 =
    (if \<exists>n. ready n then Some (concat (map printed [0..<LEAST n. ready n])) else None)"
proof (cases "\<exists>n. ready n")
  case True
  then have "ready (LEAST n. ready n)" by (rule LeastI_ex)
  then have "wait_loop ready printed 0 = Some (concat (map printed [0..<LEAST n. ready n]))"
    using wait_loop_returns [of ready 0 "LEAST n. ready n" printed, unfolded add_0, OF _ not_less_Least [where P = ready]] by blast
  with True show ?thesis by (simp only: if_True)
next
  case False
  then show ?thesis using wait_loop_ends [of ready printed 0] by (cases "wait_loop ready printed 0") auto
qed

section \<open>Programs\<close>

text \<open>\<open>result.get()\<close> returns what \<open>calcSum\<close> returned on its thread.\<close>

definition futureh_main :: "(nat \<Rightarrow> bool) \<Rightarrow> string option checked" where
  "futureh_main ready = bindE calcSum (\<lambda>sum. Inr (
     Option.bind (wait_loop ready (\<lambda>_. newline @ ''Working >>> '' @ newline) 0) (\<lambda>waited. Some (
       ''Calculating >>> '' @ newline @ waited @ newline @ ''Calculation finished'' @ newline @
       ''Result: '' @ numeral 10 (nat sum) @ newline))))"

text \<open>
  The thread of \<open>loadLevel\<close> ends the line and returns its text. Both threads print; \<open>p\<close> is the number of questions
  that were asked before the thread did, so it is not ready before that.
\<close>

definition loadLevel :: "string \<times> string" where
  "loadLevel = (newline, ''Game Start!'')"

definition startup_main :: "(nat \<Rightarrow> bool) \<Rightarrow> nat \<Rightarrow> string option" where
  "startup_main ready p =
     Option.bind (wait_loop ready (\<lambda>i. ''.'' @ (if Suc i = p then fst loadLevel else [])) 0) (\<lambda>waited. Some (
       newline @ ''Loading'' @ (if p = 0 then fst loadLevel else []) @ waited @ newline @ snd loadLevel @ newline))"

section \<open>What they print\<close>

text \<open>
  The calculation ends exactly when its thread does. It has then reported each question that was answered with
  not ready, and its result is the sum of the numbers up to 1456824145.
\<close>

theorem calculation_ends_with_its_thread:
  "futureh_main ready = Inr (if \<exists>n. ready n then Some (
     ''Calculating >>> '' @ newline @ concat (replicate (LEAST n. ready n) (newline @ ''Working >>> '' @ newline)) @
     newline @ ''Calculation finished'' @ newline @ ''Result: '' @ numeral 10 1061168295455902585 @ newline) else None)"
  by (simp add: futureh_main_def calcSum_exact wait_loop_value map_replicate_const)

text \<open>
  The game starts exactly when its level is loaded, after one dot for each question that was answered with not
  ready, on two lines: the line is ended by the thread after the dots printed until then.
\<close>

theorem level_ends_one_line_of_dots:
  assumes "ready n" "\<And>k. k < n \<Longrightarrow> \<not> ready k" "p \<le> n"
  shows "startup_main ready p = Some (
    newline @ ''Loading'' @ replicate p CHR ''.'' @ newline @ replicate (n - p) CHR ''.'' @ newline @ ''Game Start!'' @ newline)"
proof -
  let ?f = "\<lambda>i. ''.'' @ (if Suc i = p then newline else [])"
  have dots: "concat (map ?f [a..<b]) = replicate (b - a) CHR ''.''" if "\<And>i. a \<le> i \<Longrightarrow> i < b \<Longrightarrow> Suc i \<noteq> p" for a b
    using that by (induction b) (auto simp: Suc_diff_le replicate_append_same upt_conv_Nil le_Suc_eq)
  have "concat (map ?f [0..<n]) = (if p = 0 then [] else replicate p CHR ''.'' @ newline) @ replicate (n - p) CHR ''.''"
  proof (cases p)
    case 0
    then show ?thesis using dots [of 0 n] by simp
  next
    case (Suc m)
    have "[0..<n] = [0..<m] @ m # [p..<n]" using Suc assms(3) upt_add_eq_append [of 0 m "n - m"] by (simp add: upt_conv_Cons [of m n])
    then show ?thesis using Suc dots [of 0 m] dots [of p n] by (simp add: replicate_append_same flip: replicate_Suc)
  qed
  moreover have "wait_loop ready ?f 0 = Some (concat (map ?f [0..<n]))"
    using wait_loop_returns [of ready 0 n ?f] assms(1,2) by simp
  ultimately show ?thesis unfolding startup_main_def loadLevel_def fst_conv snd_conv by (cases p) simp_all
qed

theorem level_ends_one_line_of_dots_witness:
  "startup_main (\<lambda>i. i = 3) 2 = Some (newline @ ''Loading..'' @ newline @ ''.'' @ newline @ ''Game Start!'' @ newline)"
  using level_ends_one_line_of_dots [of "\<lambda>i. i = 3" 3 2] by (simp add: numeral_2_eq_2)

section \<open>Writing through a pointer\<close>

text \<open>Memory by address, and what the program prints with each line.\<close>

datatype cell = IntCell int | PointerCell nat

datatype shown = ShownInt string int | ShownPointer string nat | BlankLine

definition deref :: "(nat \<rightharpoonup> cell) \<Rightarrow> nat \<Rightarrow> nat option" where
  "deref mem a = (case mem a of Some (PointerCell b) \<Rightarrow> Some b | _ \<Rightarrow> None)"

definition int_at :: "(nat \<rightharpoonup> cell) \<Rightarrow> nat \<Rightarrow> int option" where
  "int_at mem a = (case mem a of Some (IntCell n) \<Rightarrow> Some n | _ \<Rightarrow> None)"

text \<open>\<open>age\<close> and \<open>ptr\<close> are the addresses of the two variables.\<close>

definition pointer_main :: "nat \<Rightarrow> nat \<Rightarrow> shown list option" where
  "pointer_main age ptr =
     (let mem = [age \<mapsto> IntCell 21, ptr \<mapsto> PointerCell age]
      in Option.bind (int_at mem age) (\<lambda>a. Option.bind (deref mem ptr) (\<lambda>p. Option.bind (int_at mem p) (\<lambda>b.
         let before = [ShownInt ''Value: '' a, ShownPointer ''Address: '' age, ShownPointer ''Pointers value: '' ptr,
               ShownPointer ''Pointers address: '' ptr, ShownInt ''Dereference: '' b];
             mem = mem(p \<mapsto> IntCell 99)
         in Option.bind (int_at mem age) (\<lambda>a. Option.bind (deref mem ptr) (\<lambda>p. Option.bind (int_at mem p) (\<lambda>b.
            Some (before @ [BlankLine, ShownInt ''Value: '' a, ShownInt ''Derefence: '' b]))))))))"

text \<open>
  The write through the pointer changes the variable it points to. What is shown as the value of the pointer is
  its address.
\<close>

theorem write_through_pointer_is_seen:
  "age \<noteq> ptr \<Longrightarrow> pointer_main age ptr =
     Some [ShownInt ''Value: '' 21, ShownPointer ''Address: '' age, ShownPointer ''Pointers value: '' ptr,
       ShownPointer ''Pointers address: '' ptr, ShownInt ''Dereference: '' 21, BlankLine, ShownInt ''Value: '' 99,
       ShownInt ''Derefence: '' 99]"
  by (simp add: pointer_main_def int_at_def deref_def Let_def)

end
