(* ===== verification/Onion_Signals.thy ===== *)
theory Onion_Signals
  imports Prelude
begin

text \<open>
  Signals of the onion router, \<open>src/app/startup/main.c\<close> lines 92 to 258 and 337 to 414: the table of signals
  and their events, how a signal of the system or of the controller reaches \<open>process_signal\<close>, and what each
  does. What the functions call elsewhere is recorded in its order; their results are parameters. Log
  messages are left out.
\<close>

section \<open>Reloading\<close>

text \<open>The options that are read, and the answers of the functions that are called.\<close>

record hup_options =
  ReloadTorrcOnSIGHUP :: bool
  TruncateLogFile :: bool
  authdir_mode :: bool
  ManualOnionKeyRotation :: bool
  server_mode :: bool

record hup_answers =
  accounting_is_enabled :: bool
  options_init_from_torrc :: int
  options_after_reload :: hup_options
  set_options :: int
  dirserv_load_fingerprint_file :: int
  net_is_disabled :: bool
  load_ed_keys :: int
  generate_ed_link_cert :: "bool \<Rightarrow> int"
  load_family_id_keys :: int

datatype hup_call =
    AccountingRecordBandwidthUsage
  | RouterResetWarnings
  | RouterlistResetWarnings
  | OptionsInitFromTorrc
  | TruncateLogs
  | SetOptions
  | DirservLoadFingerprintFile
  | RouterReloadManualOnionKeys
  | CircuitMarkAllDirtyCircsAsUnusable
  | RouterResetStatusDownloadFailures
  | RouterResetDescriptorDownloadFailures
  | UpdateNetworkstatusDownloads
  | LoadEdKeys
  | GenerateEdLinkCert bool
  | LoadFamilyIdKeys
  | CpuworkersRotateKeyinfo
  | DnsReset

definition when_true :: "bool \<Rightarrow> 'a list \<Rightarrow> 'a list" where
  "when_true b cs = (if b then cs else [])"

text \<open>What follows once the options are in place.\<close>

definition reset_state :: "hup_options \<Rightarrow> hup_answers \<Rightarrow> hup_call list" where
  "reset_state options A =
     when_true (authdir_mode options) [DirservLoadFingerprintFile] @
     when_true (ManualOnionKeyRotation options) [RouterReloadManualOnionKeys] @
     [CircuitMarkAllDirtyCircsAsUnusable, RouterResetStatusDownloadFailures, RouterResetDescriptorDownloadFailures] @
     when_true (\<not> net_is_disabled A) [UpdateNetworkstatusDownloads] @
     when_true (server_mode options)
       ([LoadEdKeys] @
        when_true (\<not> load_ed_keys A < 0) [GenerateEdLinkCert (load_ed_keys A > 0)] @
        [LoadFamilyIdKeys, CpuworkersRotateKeyinfo, DnsReset])"

definition do_hup :: "hup_options \<Rightarrow> hup_answers \<Rightarrow> int \<times> hup_call list" where
  "do_hup options A =
     (let begun = when_true (accounting_is_enabled A) [AccountingRecordBandwidthUsage] @
                  [RouterResetWarnings, RouterlistResetWarnings]
      in if ReloadTorrcOnSIGHUP options then
           let init_rv = options_init_from_torrc A
           in if init_rv < 0 then (-1, begun @ [OptionsInitFromTorrc])
              else if init_rv > 0 then (-1, begun @ [OptionsInitFromTorrc])
              else let options = options_after_reload A
                   in (0, begun @ [OptionsInitFromTorrc] @ when_true (TruncateLogFile options) [TruncateLogs] @
                          reset_state options A)
         else (0, begun @ [SetOptions] @ reset_state options A))"

section \<open>Processing a signal\<close>

text \<open>The signals the file names, whose numbers differ, and any other.\<close>

datatype tor_signal =
    SIGINT | SIGTERM | SIGPIPE | SIGUSR1 | SIGUSR2 | SIGHUP | SIGXFSZ | SIGCHLD
  | SIGNEWNYM | SIGCLEARDNSCACHE | SIGHEARTBEAT | SIGACTIVE | SIGDORMANT | UnknownSignal int

datatype signal_call =
    ShutdownEventLoopAndExit int
  | SdNotify string
  | HibernateBeginShutdown
  | DumpStats int
  | ControlEventSignal tor_signal
  | SwitchLogsDebug
  | OnHup hup_call
  | NotifyPendingWaitpidCallbacks
  | DoSignewnym
  | AddressmapClearTransient
  | LogHeartbeat
  | NoteUserActivity
  | ResetUserActivity int
  | SetNetworkParticipation bool
  | ScheduleRescanPeriodicEvents
  | UpdateCurrentTime

text \<open>The build: Windows or not, systemd or not, and the signals its headers define.\<close>

record tor_build =
  WIN32 :: bool
  HAVE_SYSTEMD :: bool
  defines_signal :: "tor_signal \<Rightarrow> bool"
  LOG_INFO :: int

record signal_env =
  current_options :: hup_options
  hup_results :: hup_answers
  get_min_log_level :: int

definition process_signal :: "tor_build \<Rightarrow> signal_env \<Rightarrow> tor_signal \<Rightarrow> signal_call list" where
  "process_signal B E sig = (case sig of
     SIGTERM \<Rightarrow> [ShutdownEventLoopAndExit 0]
   | SIGINT \<Rightarrow>
       if \<not> server_mode (current_options E) then [ShutdownEventLoopAndExit 0]
       else when_true (HAVE_SYSTEMD B) [SdNotify ''STOPPING=1''] @ [HibernateBeginShutdown]
   | SIGPIPE \<Rightarrow> []
   | SIGUSR1 \<Rightarrow>
       [DumpStats (if get_min_log_level E < LOG_INFO B then get_min_log_level E else LOG_INFO B), ControlEventSignal sig]
   | SIGUSR2 \<Rightarrow> [SwitchLogsDebug, ControlEventSignal sig]
   | SIGHUP \<Rightarrow>
       when_true (HAVE_SYSTEMD B) [SdNotify ''RELOADING=1''] @
       (let (r, calls) = do_hup (current_options E) (hup_results E)
        in map OnHup calls @
           (if r < 0 then [ShutdownEventLoopAndExit 1]
            else when_true (HAVE_SYSTEMD B) [SdNotify ''READY=1''] @ [ControlEventSignal sig]))
   | SIGCHLD \<Rightarrow> when_true (defines_signal B SIGCHLD) [NotifyPendingWaitpidCallbacks]
   | SIGNEWNYM \<Rightarrow> [DoSignewnym]
   | SIGCLEARDNSCACHE \<Rightarrow> [AddressmapClearTransient, ControlEventSignal sig]
   | SIGHEARTBEAT \<Rightarrow> [LogHeartbeat, ControlEventSignal sig]
   | SIGACTIVE \<Rightarrow> [NoteUserActivity, ControlEventSignal sig]
   | SIGDORMANT \<Rightarrow>
       [ResetUserActivity 0, SetNetworkParticipation False, ScheduleRescanPeriodicEvents, ControlEventSignal sig]
   | _ \<Rightarrow> [])"

section \<open>The table of signals\<close>

text \<open>
  An entry of \<open>signal_handlers\<close>. An event is made for its own entry, whose index its callback reads the signal
  from: one that libevent delivers when the process receives the signal, or one that only \<open>event_active\<close>
  triggers.
\<close>

datatype signal_event = SystemSignal tor_signal nat | ManualEvent nat

record signal_entry =
  signal_value :: tor_signal
  try_to_register :: bool
  signal_event_of :: "signal_event option"

definition signal_handlers :: "tor_build \<Rightarrow> signal_entry list" where
  "signal_handlers B =
     (let UNIX_ONLY = \<not> WIN32 B
      in map (\<lambda>(sig, reg). \<lparr>signal_value = sig, try_to_register = reg, signal_event_of = None\<rparr>)
           (filter (\<lambda>(sig, reg). defines_signal B sig)
              [(SIGINT, UNIX_ONLY), (SIGTERM, UNIX_ONLY), (SIGPIPE, UNIX_ONLY), (SIGUSR1, UNIX_ONLY),
               (SIGUSR2, UNIX_ONLY), (SIGHUP, UNIX_ONLY), (SIGXFSZ, UNIX_ONLY), (SIGCHLD, UNIX_ONLY)] @
            [(SIGNEWNYM, False), (SIGCLEARDNSCACHE, False), (SIGHEARTBEAT, False), (SIGACTIVE, False),
             (SIGDORMANT, False)]))"

text \<open>
  \<open>handle_signals\<close> with the index \<open>i\<close> of its loop. \<open>event_add\<close> is libevent's, whose result is not 0 when it cannot add
  the event of a signal: the code warns and keeps the event in the table, where it can still be activated, but
  libevent does not deliver the signal to it. The events that were added are returned. Making an event does not
  fail: the code does not check it.
\<close>

fun make_events ::
    "(tor_signal \<Rightarrow> int) \<Rightarrow> bool \<Rightarrow> nat \<Rightarrow> signal_entry list \<Rightarrow> signal_entry list \<times> signal_event list" where
  "make_events event_add enabled i [] = ([], [])"
| "make_events event_add enabled i (h # hs) =
     (let (hs', added) = make_events event_add enabled (i + 1) hs
      in if enabled \<and> try_to_register h then
           let ev = SystemSignal (signal_value h) i
           in (h\<lparr>signal_event_of := Some ev\<rparr> # hs', if event_add (signal_value h) \<noteq> 0 then added else ev # added)
         else (h\<lparr>signal_event_of := Some (ManualEvent i)\<rparr> # hs', added))"

text \<open>The last result tells whether the console handler of Windows is set, which activates \<open>SIGINT\<close>.\<close>

definition handle_signals ::
    "tor_build \<Rightarrow> (tor_signal \<Rightarrow> int) \<Rightarrow> bool \<Rightarrow> signal_entry list \<Rightarrow> signal_entry list \<times> signal_event list \<times> bool" where
  "handle_signals B event_add DisableSignalHandlers hs =
     (let enabled = \<not> DisableSignalHandlers;
          (hs', added) = make_events event_add enabled 0 hs
      in (hs', added, WIN32 B \<and> enabled))"

definition signal_callback :: "tor_build \<Rightarrow> signal_env \<Rightarrow> signal_entry list \<Rightarrow> nat \<Rightarrow> signal_call list" where
  "signal_callback B E hs sigptr = UpdateCurrentTime # process_signal B E (signal_value (hs ! sigptr))"

fun event_arg :: "signal_event \<Rightarrow> nat" where
  "event_arg (SystemSignal sig i) = i"
| "event_arg (ManualEvent i) = i"

text \<open>\<open>event_active\<close> on a null event is an error of the caller.\<close>

fun activate_first :: "tor_build \<Rightarrow> signal_env \<Rightarrow> signal_entry list \<Rightarrow> signal_entry list \<Rightarrow> tor_signal \<Rightarrow> signal_call list checked" where
  "activate_first B E hs [] sig = Inr []"
| "activate_first B E hs (h # rest) sig =
     (if signal_value h = sig then
        (case signal_event_of h of
           None \<Rightarrow> Inl (CheckFailed ''signal_event'')
         | Some ev \<Rightarrow> Inr (signal_callback B E hs (event_arg ev)))
      else activate_first B E hs rest sig)"

definition activate_signal :: "tor_build \<Rightarrow> signal_env \<Rightarrow> signal_entry list \<Rightarrow> tor_signal \<Rightarrow> signal_call list checked" where
  "activate_signal B E hs sig = activate_first B E hs hs sig"

text \<open>A signal of the operating system: delivered to the events that were added for it.\<close>

definition receive_signal :: "tor_build \<Rightarrow> signal_env \<Rightarrow> signal_entry list \<Rightarrow> signal_event list \<Rightarrow> tor_signal \<Rightarrow> signal_call list" where
  "receive_signal B E hs added sig =
     concat (map (\<lambda>ev. case ev of
       SystemSignal s i \<Rightarrow> if s = sig then signal_callback B E hs i else []
     | ManualEvent i \<Rightarrow> []) added)"

definition process_win32_console_ctrl :: "tor_build \<Rightarrow> signal_env \<Rightarrow> signal_entry list \<Rightarrow> signal_call list checked" where
  "process_win32_console_ctrl B E hs = activate_signal B E hs SIGINT"

section \<open>Each signal reaches its handler\<close>

lemma make_events_nth:
  "length (fst (make_events add b i hs)) = length hs"
  "j < length hs \<Longrightarrow> fst (make_events add b i hs) ! j =
     (hs ! j)\<lparr>signal_event_of := Some (if b \<and> try_to_register (hs ! j) then SystemSignal (signal_value (hs ! j)) (i + j)
                                      else ManualEvent (i + j))\<rparr>"
  by (induction add b i hs arbitrary: j rule: make_events.induct) (auto simp: Let_def split: prod.splits nat.splits simp: nth_Cons)

lemma make_events_added:
  "snd (make_events add b i hs) = map (\<lambda>j. SystemSignal (signal_value (hs ! j)) (i + j))
     (filter (\<lambda>j. b \<and> try_to_register (hs ! j) \<and> add (signal_value (hs ! j)) = 0) [0..<length hs])"
proof (induction add b i hs rule: make_events.induct)
  case (2 add b i h hs)
  have "[0..<length (h # hs)] = 0 # map Suc [0..<length hs]" by (simp del: upt_Suc add: upt_conv_Cons map_Suc_upt)
  with 2 show ?case by (cases "make_events add b (i + 1) hs") (simp add: filter_map comp_def Let_def)
qed simp

lemma signal_handlers_distinct: "distinct (map signal_value (signal_handlers B))"
  by (simp add: signal_handlers_def Let_def comp_def case_prod_unfold)

definition known_signals :: "tor_build \<Rightarrow> tor_signal list" where
  "known_signals B = map signal_value (signal_handlers B)"

lemma activate_first_value:
  assumes "j < length hs" and "signal_value (hs ! j) = sig" and "distinct (map signal_value hs)"
    and "signal_event_of (hs ! j) = Some ev"
  shows "activate_first B E hs0 hs sig = Inr (signal_callback B E hs0 (event_arg ev))"
  using assms
proof (induction hs arbitrary: j)
  case (Cons h hs)
  then show ?case by (cases j) (auto dest: nth_mem)
qed simp

lemma activate_first_unknown: "sig \<notin> set (map signal_value hs) \<Longrightarrow> activate_first B E hs0 hs sig = Inr []"
  by (induction hs) auto


lemma handled:
  assumes "handle_signals B add D (signal_handlers B) = (hs, added, console)"
  shows "map signal_value hs = known_signals B" and "length hs = length (signal_handlers B)"
    and "j < length hs \<Longrightarrow> \<exists>ev. signal_event_of (hs ! j) = Some ev \<and> event_arg ev = j"
    and "added = map (\<lambda>j. SystemSignal (signal_value (hs ! j)) j)
           (filter (\<lambda>j. \<not> D \<and> try_to_register (signal_handlers B ! j) \<and> add (signal_value (signal_handlers B ! j)) = 0)
             [0..<length hs])"
proof -
  have hs: "hs = fst (make_events add (\<not> D) 0 (signal_handlers B))"
    "added = snd (make_events add (\<not> D) 0 (signal_handlers B))"
    using assms by (auto simp: handle_signals_def Let_def split: prod.splits)
  note nth = make_events_nth [where add = add and b = "\<not> D" and i = 0 and hs = "signal_handlers B"]
  show len: "length hs = length (signal_handlers B)" by (simp add: hs nth)
  have same: "signal_value (hs ! j) = signal_value (signal_handlers B ! j)" if "j < length hs" for j
    using that by (simp add: hs nth)
  show "map signal_value hs = known_signals B"
    by (rule nth_equalityI) (simp_all add: hs nth known_signals_def)
  show "\<exists>ev. signal_event_of (hs ! j) = Some ev \<and> event_arg ev = j" if "j < length hs"
    using that by (simp add: hs nth)
  show "added = map (\<lambda>j. SystemSignal (signal_value (hs ! j)) j)
      (filter (\<lambda>j. \<not> D \<and> try_to_register (signal_handlers B ! j) \<and> add (signal_value (signal_handlers B ! j)) = 0)
        [0..<length hs])"
    unfolding hs(2) make_events_added len using same by (auto simp: len)
qed

text \<open>An entry is registered with the system when it is not for the controller alone and this is not Windows.\<close>

definition controller_only :: "tor_signal set" where
  "controller_only = {SIGNEWNYM, SIGCLEARDNSCACHE, SIGHEARTBEAT, SIGACTIVE, SIGDORMANT}"

lemma registered_entries:
  assumes "h \<in> set (signal_handlers B)"
  shows "try_to_register h \<longleftrightarrow> signal_value h \<notin> controller_only \<and> \<not> WIN32 B"
proof -
  let ?mk = "\<lambda>(sig, reg). \<lparr>signal_value = sig, try_to_register = reg, signal_event_of = None\<rparr>"
  let ?u = "\<not> WIN32 B"
  let ?system = "[(SIGINT, ?u), (SIGTERM, ?u), (SIGPIPE, ?u), (SIGUSR1, ?u), (SIGUSR2, ?u), (SIGHUP, ?u), (SIGXFSZ, ?u), (SIGCHLD, ?u)]"
  let ?own = "[(SIGNEWNYM, False), (SIGCLEARDNSCACHE, False), (SIGHEARTBEAT, False), (SIGACTIVE, False), (SIGDORMANT, False)]"
  have "h \<in> ?mk ` (set ?system \<union> set ?own)"
    using assms unfolding signal_handlers_def Let_def set_map set_append set_filter by blast
  then show ?thesis by (auto simp: controller_only_def)
qed

text \<open>Of all entries only the one with the signal's number answers.\<close>

lemma concat_single:
  assumes "distinct (map f js)" and "\<And>j. f j = x \<Longrightarrow> g j = c"
  shows "concat (map (\<lambda>j. if f j = x then g j else []) js) = (if \<exists>j\<in>set js. f j = x then c else [])"
  using assms
proof (induction js)
  case (Cons j js)
  have "concat (map (\<lambda>j. if f j = x then g j else []) js) = []" if "f j = x"
    using Cons.prems(1) that by (auto simp: image_iff)
  with Cons show ?case by auto
qed simp

text \<open>
  C18. Once the signals are handled, each reaches \<open>process_signal\<close> under its own number. The controller can
  activate every signal of the table and no other, also when the handlers are disabled or on Windows; the
  system delivers exactly those whose event libevent could add: of the signals of the table that are not reserved for
  the controller, when the handlers are enabled and this is not Windows, those for which \<open>event_add\<close> succeeded. A
  signal whose event could not be added can still be activated.
\<close>

theorem signals_reach_their_handler:
  assumes "handle_signals B event_add D (signal_handlers B) = (hs, added, console)"
  shows "activate_signal B E hs sig =
      Inr (if sig \<in> set (known_signals B) then UpdateCurrentTime # process_signal B E sig else []) \<and>
    receive_signal B E hs added sig =
      (if sig \<in> set (known_signals B) \<and> sig \<notin> controller_only \<and> \<not> WIN32 B \<and> \<not> D \<and> event_add sig = 0
       then UpdateCurrentTime # process_signal B E sig else [])"
proof
  note facts = handled [OF assms]
  have dist: "distinct (map signal_value hs)" using signal_handlers_distinct [of B] by (simp add: facts(1) known_signals_def)
  have same_value: "signal_value (hs ! j) = signal_value (signal_handlers B ! j)" if "j < length hs" for j
    using arg_cong [OF facts(1), of "\<lambda>xs. xs ! j"] that facts(2) by (simp add: known_signals_def)
  show "activate_signal B E hs sig =
      Inr (if sig \<in> set (known_signals B) then UpdateCurrentTime # process_signal B E sig else [])"
  proof (cases "sig \<in> set (known_signals B)")
    case True
    then obtain j where j: "j < length hs" "signal_value (hs ! j) = sig" by (auto simp: in_set_conv_nth simp flip: facts(1))
    from facts(3) [OF j(1)] obtain ev where "signal_event_of (hs ! j) = Some ev" "event_arg ev = j" by blast
    with activate_first_value [OF j dist] True j(2) show ?thesis by (simp add: activate_signal_def signal_callback_def)
  next
    case False
    then show ?thesis using activate_first_unknown [of sig hs] by (simp add: activate_signal_def facts(1))
  qed
  let ?js = "filter (\<lambda>j. \<not> D \<and> try_to_register (signal_handlers B ! j) \<and>
    event_add (signal_value (signal_handlers B ! j)) = 0) [0..<length hs]"
  let ?f = "\<lambda>j. signal_value (hs ! j)"
  have "inj_on ?f (set ?js)" using dist by (auto simp: inj_on_def distinct_conv_nth)
  then have "distinct (map ?f ?js)" by (simp add: distinct_map)
  then have "receive_signal B E hs added sig =
      (if \<exists>j\<in>set ?js. ?f j = sig then UpdateCurrentTime # process_signal B E sig else [])"
    unfolding receive_signal_def facts(4) by (simp add: comp_def concat_single signal_callback_def)
  also have "(\<exists>j\<in>set ?js. ?f j = sig) \<longleftrightarrow>
      sig \<in> set (known_signals B) \<and> sig \<notin> controller_only \<and> \<not> WIN32 B \<and> \<not> D \<and> event_add sig = 0"
    using registered_entries [of _ B] by (fastforce simp: facts(2) same_value in_set_conv_nth known_signals_def)
  finally show "receive_signal B E hs added sig =
      (if sig \<in> set (known_signals B) \<and> sig \<notin> controller_only \<and> \<not> WIN32 B \<and> \<not> D \<and> event_add sig = 0
       then UpdateCurrentTime # process_signal B E sig else [])" .
qed


definition reload_sample :: "bool \<Rightarrow> bool \<Rightarrow> hup_options" where
  "reload_sample reload server = \<lparr>ReloadTorrcOnSIGHUP = reload, TruncateLogFile = False, authdir_mode = False,
     ManualOnionKeyRotation = False, server_mode = server\<rparr>"

definition signal_sample :: "bool \<Rightarrow> bool \<Rightarrow> int \<Rightarrow> signal_env" where
  "signal_sample reload server init_rv = \<lparr>current_options = reload_sample reload server,
     hup_results = \<lparr>accounting_is_enabled = False, options_init_from_torrc = init_rv,
       options_after_reload = reload_sample reload server, set_options = 0, dirserv_load_fingerprint_file = 0,
       net_is_disabled = False, load_ed_keys = 1, generate_ed_link_cert = (\<lambda>_. 0), load_family_id_keys = 0\<rparr>,
     get_min_log_level = 5\<rparr>"

definition sample_unix :: tor_build where
  "sample_unix = \<lparr>WIN32 = False, HAVE_SYSTEMD = True, defines_signal = (\<lambda>_. True), LOG_INFO = 6\<rparr>"

definition sample_event_add :: "tor_signal \<Rightarrow> int" where
  "sample_event_add sig = (if sig = SIGHUP then -1 else 0)"

theorem signals_reach_their_handler_witness:
  "\<exists>hs added console.
     handle_signals sample_unix sample_event_add False (signal_handlers sample_unix) = (hs, added, console) \<and>
     activate_signal sample_unix (signal_sample True False 0) hs SIGACTIVE =
       Inr [UpdateCurrentTime, NoteUserActivity, ControlEventSignal SIGACTIVE] \<and>
     activate_signal sample_unix (signal_sample True False 0) hs SIGUSR2 =
       Inr [UpdateCurrentTime, SwitchLogsDebug, ControlEventSignal SIGUSR2] \<and>
     receive_signal sample_unix (signal_sample True False 0) hs added SIGTERM = [UpdateCurrentTime, ShutdownEventLoopAndExit 0] \<and>
     receive_signal sample_unix (signal_sample True False 0) hs added SIGHUP = [] \<and>
     receive_signal sample_unix (signal_sample True False 0) hs added SIGACTIVE = []"
proof -
  obtain hs added console where
    h: "handle_signals sample_unix sample_event_add False (signal_handlers sample_unix) = (hs, added, console)"
    by (cases "handle_signals sample_unix sample_event_add False (signal_handlers sample_unix)") auto
  have "set (known_signals sample_unix) \<supseteq> {SIGACTIVE, SIGTERM, SIGUSR2}"
    by (auto simp: known_signals_def signal_handlers_def sample_unix_def)
  with signals_reach_their_handler [OF h, of "signal_sample True False 0"] h show ?thesis
    by (auto simp: process_signal_def controller_only_def sample_unix_def sample_event_add_def)
qed

section \<open>When the router stops\<close>

text \<open>
  The exit codes a signal asks for, and no other: 0 for \<open>SIGTERM\<close>, and for \<open>SIGINT\<close> unless the router is a
  server, 1 for \<open>SIGHUP\<close> when the configuration is to be read again and cannot be.
\<close>

theorem exit_codes_of_signals:
  "filter (\<lambda>c. \<exists>code. c = ShutdownEventLoopAndExit code) (process_signal B E sig) = map ShutdownEventLoopAndExit
     (case sig of
        SIGTERM \<Rightarrow> [0]
      | SIGINT \<Rightarrow> if server_mode (current_options E) then [] else [0]
      | SIGHUP \<Rightarrow>
          if ReloadTorrcOnSIGHUP (current_options E) \<and> options_init_from_torrc (hup_results E) \<noteq> 0 then [1] else []
      | _ \<Rightarrow> [])"
proof -
  have "filter (\<lambda>c. \<exists>code. c = ShutdownEventLoopAndExit code) (map OnHup cs) = []" for cs by (induction cs) auto
  then show ?thesis
    by (auto simp: process_signal_def do_hup_def when_true_def Let_def split: tor_signal.split)
qed

text \<open>
  A reload is all or nothing. When the new configuration cannot be read, nothing happens after the attempt;
  otherwise the options that are then in force decide: circuits and download failures are always reset, the keys
  of the workers and the DNS state exactly on a server, and only after the keys were loaded.
\<close>

theorem reload_is_all_or_nothing:
  assumes "do_hup options A = (r, calls)"
  shows "if ReloadTorrcOnSIGHUP options \<and> options_init_from_torrc A \<noteq> 0
    then r = -1 \<and> last calls = OptionsInitFromTorrc \<and>
      set calls \<subseteq> {AccountingRecordBandwidthUsage, RouterResetWarnings, RouterlistResetWarnings, OptionsInitFromTorrc}
    else r = 0 \<and>
      (\<exists>before. calls = before @
        reset_state (if ReloadTorrcOnSIGHUP options then options_after_reload A else options) A) \<and>
      {CircuitMarkAllDirtyCircsAsUnusable, RouterResetStatusDownloadFailures, RouterResetDescriptorDownloadFailures} \<subseteq> set calls \<and>
      (DnsReset \<in> set calls \<longleftrightarrow> server_mode (if ReloadTorrcOnSIGHUP options then options_after_reload A else options)) \<and>
      (CpuworkersRotateKeyinfo \<in> set calls \<longleftrightarrow> LoadEdKeys \<in> set calls \<and> DnsReset \<in> set calls)"
proof (cases "ReloadTorrcOnSIGHUP options \<and> options_init_from_torrc A \<noteq> 0")
  case True
  then show ?thesis using assms by (auto simp: do_hup_def Let_def when_true_def split: if_splits)
next
  case False
  let ?o = "if ReloadTorrcOnSIGHUP options then options_after_reload A else options"
  have sets: "DnsReset \<in> set (reset_state ?o A) \<longleftrightarrow> server_mode ?o"
    "CpuworkersRotateKeyinfo \<in> set (reset_state ?o A) \<longleftrightarrow> server_mode ?o"
    "LoadEdKeys \<in> set (reset_state ?o A) \<longleftrightarrow> server_mode ?o"
    "{CircuitMarkAllDirtyCircsAsUnusable, RouterResetStatusDownloadFailures, RouterResetDescriptorDownloadFailures}
       \<subseteq> set (reset_state ?o A)"
    by (auto simp: reset_state_def when_true_def)
  have "\<exists>before. r = 0 \<and> calls = before @ reset_state ?o A \<and> {DnsReset, CpuworkersRotateKeyinfo, LoadEdKeys} \<inter> set before = {}"
    using assms False by (auto simp: do_hup_def Let_def when_true_def split: if_splits)
  with False sets show ?thesis by auto
qed

theorem reload_is_all_or_nothing_witness:
  "fst (do_hup (reload_sample True True) (hup_results (signal_sample True True (-1)))) = -1 \<and>
   fst (do_hup (reload_sample True True) (hup_results (signal_sample True True 0))) = 0"
proof -
  obtain r calls where bad: "do_hup (reload_sample True True) (hup_results (signal_sample True True (-1))) = (r, calls)" by fastforce
  obtain r' calls' where good: "do_hup (reload_sample True True) (hup_results (signal_sample True True 0)) = (r', calls')" by fastforce
  from reload_is_all_or_nothing [OF bad] reload_is_all_or_nothing [OF good] bad good show ?thesis
    by (simp add: reload_sample_def signal_sample_def)
qed

end
