(* ===== verification/Onion_Lock.thy ===== *)
theory Onion_Lock
  imports Prelude
begin

text \<open>
  The lock on the data directory, \<open>src/app/startup/main.c\<close> lines 492 to 545. \<open>tor_lockfile_lock\<close> is a
  parameter over a state of the file system; the calls are recorded. The interpretation of \<open>balanced_machine\<close>
  accounts for every lock that is taken.
\<close>

section \<open>Operations\<close>

text \<open>A new state, the lock or a null pointer, and whether another process held it.\<close>

record ('w, 'l) lock_lib =
  tor_lockfile_lock :: "'w \<Rightarrow> 'w \<times> 'l option \<times> bool"
  tor_lockfile_unlock :: "'w \<Rightarrow> 'l \<Rightarrow> 'w"

record ('w, 'l) lock_state =
  files :: 'w
  lockfile :: "'l option"

definition no_lock :: "'w \<Rightarrow> ('w, 'l) lock_state" where
  "no_lock w = \<lparr>files = w, lockfile = None\<rparr>"

datatype 'l lock_call = Locked 'l | LockRefused bool | Slept nat | Unlocked 'l

text \<open>The inner call asks not to wait again.\<close>

function try_locking ::
    "('w, 'l) lock_lib \<Rightarrow> bool \<Rightarrow> ('w, 'l) lock_state \<Rightarrow> ('w, 'l) lock_state \<times> int \<times> 'l lock_call list" where
  "try_locking L err_if_locked s =
     (if lockfile s \<noteq> None then (s, 0, [])
      else case tor_lockfile_lock L (files s) of
        (w, None, already_locked) \<Rightarrow>
          if err_if_locked \<and> already_locked then
            let (s', r, calls) = try_locking L False (s\<lparr>files := w\<rparr>)
            in (s', if r < 0 then -1 else r, [LockRefused already_locked, Slept 5] @ calls)
          else (s\<lparr>files := w\<rparr>, -1, [LockRefused already_locked])
      | (w, Some lf, already_locked) \<Rightarrow> (s\<lparr>files := w, lockfile := Some lf\<rparr>, 0, [Locked lf]))"
  by auto

termination by (relation "measure (\<lambda>(L, err, s). if err then 1 else 0)") auto

declare try_locking.simps [simp del]

definition have_lockfile :: "('w, 'l) lock_state \<Rightarrow> bool" where
  "have_lockfile s \<longleftrightarrow> lockfile s \<noteq> None"

definition release_lockfile :: "('w, 'l) lock_lib \<Rightarrow> ('w, 'l) lock_state \<Rightarrow> ('w, 'l) lock_state \<times> 'l lock_call list" where
  "release_lockfile L s = (case lockfile s of
     None \<Rightarrow> (s, [])
   | Some lf \<Rightarrow> (s\<lparr>files := tor_lockfile_unlock L (files s) lf, lockfile := None\<rparr>, [Unlocked lf]))"

text \<open>Removing a file: \<open>None\<close> a null pointer; the result of \<open>tor_unlink\<close> with \<open>errno\<close>; whether a warning is logged.\<close>

definition tor_remove_file :: "(string \<Rightarrow> int \<times> int) \<Rightarrow> int \<Rightarrow> string option \<Rightarrow> string list \<times> bool" where
  "tor_remove_file tor_unlink ENOENT filename = (case filename of
     None \<Rightarrow> ([], False)
   | Some f \<Rightarrow> ([f], fst (tor_unlink f) \<noteq> 0 \<and> snd (tor_unlink f) \<noteq> ENOENT))"

section \<open>What a try does\<close>

lemma try_locking_once: "try_locking L False s =
    (if lockfile s \<noteq> None then (s, 0, [])
     else case tor_lockfile_lock L (files s) of
       (w, None, al) \<Rightarrow> (s\<lparr>files := w\<rparr>, -1, [LockRefused al])
     | (w, Some lf, al) \<Rightarrow> (s\<lparr>files := w, lockfile := Some lf\<rparr>, 0, [Locked lf]))"
  by (subst try_locking.simps) (auto split: option.split prod.split)

lemma try_locking_cases:
  assumes "try_locking L err s = (s', r, calls)"
  obtains (held) "lockfile s \<noteq> None" "s' = s" "r = 0" "calls = []"
  | (got) lf before where "lockfile s = None" "lockfile s' = Some lf" "r = 0" "calls = before @ [Locked lf]"
      "before = [] \<or> err \<and> before = [LockRefused True, Slept 5]"
  | (refused) "lockfile s = None" "lockfile s' = None" "r = -1"
      "calls = [LockRefused False] \<or> \<not> err \<and> calls = [LockRefused True] \<or>
       err \<and> (\<exists>al. calls = [LockRefused True, Slept 5, LockRefused al])"
proof -
  note eq = assms [unfolded try_locking.simps [of L err s]]
  show ?thesis
  proof (cases "lockfile s \<noteq> None")
    case True
    then have "s' = s" "r = 0" "calls = []" using eq by auto
    with True show ?thesis by (rule held)
  next
    case False
    obtain w l al where lock: "tor_lockfile_lock L (files s) = (w, l, al)" by (cases "tor_lockfile_lock L (files s)") auto
    obtain w2 l2 al2 where lock2: "tor_lockfile_lock L w = (w2, l2, al2)" by (cases "tor_lockfile_lock L w") auto
    show ?thesis
    proof (cases l)
      case (Some lf)
      then have "s' = s\<lparr>files := w, lockfile := Some lf\<rparr>" "r = 0" "calls = [] @ [Locked lf]"
        using eq lock False by auto
      with False show ?thesis by (intro got [of lf "[]"]) auto
    next
      case None
      show ?thesis
      proof (cases "err \<and> al")
        case noal: False
        then have "s' = s\<lparr>files := w\<rparr>" "r = -1" "calls = [LockRefused al]"
          using eq lock False None by auto
        with False noal show ?thesis by (intro refused) auto
      next
        case True
        then show ?thesis
        proof (cases l2)
          case None2: None
          then have "s' = s\<lparr>files := w2\<rparr>" "r = -1" "calls = [LockRefused True, Slept 5, LockRefused al2]"
            using eq lock lock2 False None True by (auto simp: try_locking_once)
          with False True show ?thesis by (intro refused) auto
        next
          case (Some lf)
          then have "s' = s\<lparr>files := w2, lockfile := Some lf\<rparr>" "r = 0" "calls = [LockRefused True, Slept 5] @ [Locked lf]"
            using eq lock lock2 False None True by (auto simp: try_locking_once)
          with False True show ?thesis by (intro got [of lf "[LockRefused True, Slept 5]"]) auto
        qed
      qed
    qed
  qed
qed

section \<open>Every lock that is taken is held or given back\<close>

datatype lock_event = TryLocking bool | ReleaseLockfile

definition lock_step :: "('w, 'l) lock_lib \<Rightarrow> ('w, 'l) lock_state \<Rightarrow> lock_event \<Rightarrow> (('w, 'l) lock_state \<times> 'l lock_call list) checked" where
  "lock_step L s e = Inr (case e of
     TryLocking err \<Rightarrow> (case try_locking L err s of (s', r, calls) \<Rightarrow> (s', calls))
   | ReleaseLockfile \<Rightarrow> release_lockfile L s)"

definition locks_taken :: "'l lock_call list \<Rightarrow> 'l multiset" where
  "locks_taken calls = mset (concat (map (\<lambda>c. case c of Locked l \<Rightarrow> [l] | _ \<Rightarrow> []) calls))"

definition locks_released :: "'l lock_call list \<Rightarrow> 'l multiset" where
  "locks_released calls = mset (concat (map (\<lambda>c. case c of Unlocked l \<Rightarrow> [l] | _ \<Rightarrow> []) calls))"

definition lock_held :: "('w, 'l) lock_state \<Rightarrow> 'l multiset" where
  "lock_held s = mset (case lockfile s of None \<Rightarrow> [] | Some l \<Rightarrow> [l])"

lemma lock_counts [simp]:
  "locks_taken [] = {#}" "locks_released [] = {#}"
  "locks_taken (c # cs) = (case c of Locked l \<Rightarrow> {#l#} | _ \<Rightarrow> {#}) + locks_taken cs"
  "locks_released (c # cs) = (case c of Unlocked l \<Rightarrow> {#l#} | _ \<Rightarrow> {#}) + locks_released cs"
  "locks_taken (cs @ ds) = locks_taken cs + locks_taken ds"
  "locks_released (cs @ ds) = locks_released cs + locks_released ds"
  by (auto simp: locks_taken_def locks_released_def split: lock_call.split)

lemma lock_balance:
  assumes "lock_step L s e = Inr (s', out)"
  shows "lock_held s + locks_taken out = locks_released out + lock_held s'"
proof (cases e)
  case (TryLocking err)
  then obtain r where "try_locking L err s = (s', r, out)"
    using assms by (auto simp: lock_step_def split: prod.splits)
  then show ?thesis by (cases rule: try_locking_cases) (auto simp: lock_held_def)
next
  case ReleaseLockfile
  with assms show ?thesis by (auto simp: lock_step_def release_lockfile_def lock_held_def split: option.splits)
qed

interpretation locks: balanced_machine "lock_step L" "\<lambda>_ _. True" "\<lambda>_. True" lock_held "\<lambda>_. {#}" locks_taken locks_released
proof (unfold_locales, goal_cases)
  case (1 s e)
  then show ?case by (auto simp: lock_step_def split: lock_event.split prod.split)
qed (simp_all add: lock_balance)

lemma all_lock_events: "admissible (lock_step L) (\<lambda>_ _. True) s es"
  by (induction es arbitrary: s) (auto split: sum.split)

text \<open>
  C22. Over any tries and releases, every lock that was taken has been given back once, except the one that is held:
  no lock is taken over another and none is released twice, and \<open>have_lockfile\<close> tells whether one is held.
\<close>

theorem locks_are_given_back:
  assumes "run (lock_step L) (no_lock w) es = Inr (s, out)"
  shows "locks_taken out = locks_released out + lock_held s \<and> (have_lockfile s \<longleftrightarrow> lock_held s \<noteq> {#}) \<and> size (lock_held s) \<le> 1"
  using locks.run_balance [OF TrueI all_lock_events assms]
  by (auto simp: no_lock_def lock_held_def have_lockfile_def sum_list_eq_0_iff image_iff split: option.splits)

text \<open>
  A try returns 0 exactly when the lock is held afterwards. It waits at most once, for five seconds, only when
  asked to and when another process holds the lock, and it asks for the lock at most twice.
\<close>

theorem try_locking_waits_once:
  assumes "try_locking L err s = (s', r, calls)"
  shows "(r = 0 \<longleftrightarrow> have_lockfile s') \<and> r \<in> {0, -1} \<and>
    calls \<in> {[]} \<union> range (\<lambda>l. [Locked l]) \<union> range (\<lambda>al. [LockRefused al]) \<union>
      (if err then range (\<lambda>l. [LockRefused True, Slept 5, Locked l]) \<union> range (\<lambda>al. [LockRefused True, Slept 5, LockRefused al]) else {})"
  using assms by (cases rule: try_locking_cases) (auto simp: have_lockfile_def)

text \<open>A lock that another process gives up while this one waits.\<close>

definition busy_lock :: "(nat, nat) lock_lib" where
  "busy_lock = \<lparr>tor_lockfile_lock = (\<lambda>n. if n > 0 then (n - 1, None, True) else (n, Some 7, False)),
     tor_lockfile_unlock = (\<lambda>n l. n)\<rparr>"

theorem try_locking_waits_once_witness:
  "\<exists>s'. try_locking busy_lock True (no_lock 1) = (s', 0, [LockRefused True, Slept 5, Locked 7]) \<and> have_lockfile s'"
proof -
  let ?s' = "\<lparr>files = 0, lockfile = Some 7\<rparr>"
  have t: "try_locking busy_lock True (no_lock 1) = (?s', 0, [LockRefused True, Slept 5, Locked 7])"
    by (subst try_locking.simps) (simp add: try_locking_once busy_lock_def no_lock_def)
  from try_locking_waits_once [OF t] t show ?thesis by simp
qed

theorem locks_are_given_back_witness:
  "\<exists>s out. run (lock_step busy_lock) (no_lock 1) [TryLocking True, TryLocking False, ReleaseLockfile, ReleaseLockfile] = Inr (s, out) \<and>
     locks_taken out = locks_released out"
proof -
  let ?es = "[TryLocking True, TryLocking False, ReleaseLockfile, ReleaseLockfile]"
  have "\<exists>s out. run (lock_step busy_lock) (no_lock 1) ?es = Inr (s, out) \<and> lockfile s = None"
    by (simp add: lock_step_def try_locking.simps busy_lock_def no_lock_def release_lockfile_def)
  then obtain s out where r: "run (lock_step busy_lock) (no_lock 1) ?es = Inr (s, out)" and "lockfile s = None" by blast
  with locks_are_given_back [OF r] show ?thesis by (auto simp: lock_held_def)
qed

end
