(* ===== verification/Onion_Start.thy ===== *)
theory Onion_Start
  imports Prelude
begin

text \<open>
  The life of the onion router, \<open>src/app/startup/main.c\<close> lines 416 to 491, 547 to 678 and 933 to 1120, and the
  default log of \<open>src/app/level.c\<close>: initialisation, the commands, the main loop and the clean-up. What is
  called elsewhere is recorded in its order, with its answers as parameters. Log messages are left out but
  for the one that announces an exit; the sandbox filter is in \<open>Sandbox_Filter\<close>.
\<close>

section \<open>Calls\<close>

datatype init_call =
    InitConnectionLists | LogSetApplicationName string | RepHistInit | BwhistInit | AddressmapInit | HsInit
  | ConfigParseCommandline "string list" | AddDefaultLog int | CompressLogInitWarnings | TracingLogWarning
  | OptionsInitFromTorrc "string list" | ChannelpaddingNewConsensusParams
  | CircpadNewConsensusParams | CongestionControlNewConsensusParams | FlowControlNewConsensusParams | CircpadMachinesInit | HsDosInit | PredictedPortsInit
  | RouterparseInit

datatype tool_call =
    SandboxDisableGetaddrinfoCache | InitKeys | LoadEdKeys | LogCertExpiration | Print string | PrintErr string
  | CreateFamilyIdKey string | WriteStrToFile string string | FreeStrings nat | KeypairGenerate bool
  | KeypairWriteToFile string string | WipeKeypair | CryptoRand nat | GetHostname | TorAddAddrinfo string

datatype loop_call =
    HandleSignals | TimersInitialize | InitializeMainloopEvents | LoopInitKeys | ConnectionBucketInit
  | ControlEventBootstrapStarting | KeypinLoadJournal | KeypinOpenJournal | UnlinkKeyPinningEntries
  | TrustedDirsReloadCerts | RouterReloadConsensusNetworkstatus | RouterReloadRouterList | DirectoryInfoHasArrived
  | CpuworkerInit | ConsdiffmgrEnableBackgroundCompression | SrInit | DnsInit | LogErrDnsExiting | SdNotifyReady
  | DoMainLoop

datatype main_call =
    EventSetMemFunctions | SubsystemsInit | InitProtocolWarningSeverityLevel | NtServiceParseOptions "string list"
  | SubsystemsAddPubsub | TorMainloopConnectPubsub | TorMainloopConnectPubsubEvents | SetDeliveryStrategy string
  | SandboxInitFilter | SandboxInit | MakeGetaddrinfoCacheActive | SetUrandomDeviceFile
  | NtServiceSetStateRunning | TorCleanup | TorFreeAll | FreeArgv
  | OnInit init_call | OnTool tool_call | OnLoop loop_call

text \<open>A result with the calls that led to it: a step that cannot fail, and one whose failure ends with -1.\<close>

definition perform :: "'c list \<Rightarrow> int \<times> 'c list \<Rightarrow> int \<times> 'c list" where
  "perform cs rest = (fst rest, cs @ snd rest)"

definition require :: "'c \<Rightarrow> bool \<Rightarrow> int \<times> 'c list \<Rightarrow> int \<times> 'c list" where
  "require c failed rest = (if failed then (-1, [c]) else (fst rest, c # snd rest))"

lemma fst_perform [simp]: "fst (perform cs rest) = fst rest"
  and snd_perform [simp]: "snd (perform cs rest) = cs @ snd rest"
  by (simp_all add: perform_def)

lemma fst_require [simp]: "fst (require c failed rest) = (if failed then -1 else fst rest)"
  and snd_require [simp]: "snd (require c failed rest) = c # (if failed then [] else snd rest)"
  by (simp_all add: require_def)

section \<open>Initialisation\<close>

datatype quiet_level = QUIET_NONE | QUIET_HUSH | QUIET_SILENT

datatype tor_command =
    CMD_RUN_TOR | CMD_KEYGEN | CMD_KEYGEN_FAMILY | CMD_KEYGEN_ONION | CMD_KEY_EXPIRATION | CMD_LIST_FINGERPRINT
  | CMD_HASH_PASSWORD | CMD_VERIFY_CONFIG | CMD_DUMP_CONFIG | CMD_RUN_UNITTESTS | CMD_IMMEDIATE | UnknownCommand int

text \<open>The severities are in a header.\<close>

record main_build =
  LOG_WARN :: int
  LOG_NOTICE :: int
  HAVE_SYSTEMD :: bool
  EVENT_SET_MEM_FUNCTIONS_IMPLEMENTED :: bool
  HAVE_EVUTIL_SECURE_RNG_SET_URANDOM_DEVICE_FILE :: bool

definition add_default_log_for_quiet_level :: "main_build \<Rightarrow> quiet_level \<Rightarrow> init_call list" where
  "add_default_log_for_quiet_level B quiet = (case quiet of
     QUIET_SILENT \<Rightarrow> []
   | QUIET_HUSH \<Rightarrow> [AddDefaultLog (LOG_WARN B)]
   | QUIET_NONE \<Rightarrow> [AddDefaultLog (LOG_NOTICE B)])"

record init_env =
  get_version :: string
  config_parse_commandline :: "string list \<Rightarrow> (quiet_level \<times> tor_command) option"
  options_init_from_torrc :: "string list \<Rightarrow> int"

text \<open>The result of \<open>tor_init\<close> with the value it leaves in the global \<open>quiet_level\<close>.\<close>

definition tor_init :: "main_build \<Rightarrow> init_env \<Rightarrow> string list \<Rightarrow> (int \<times> quiet_level) \<times> init_call list" where
  "tor_init B E argv =
     (let quiet = (case config_parse_commandline E argv of None \<Rightarrow> QUIET_NONE | Some (q, cmd) \<Rightarrow> q);
          begun = [InitConnectionLists, LogSetApplicationName (take 255 (''Tor '' @ get_version E)), RepHistInit,
            BwhistInit, AddressmapInit, HsInit, ConfigParseCommandline argv] @
            add_default_log_for_quiet_level B quiet @
            [CompressLogInitWarnings, TracingLogWarning, OptionsInitFromTorrc argv];
          init_rv = options_init_from_torrc E argv
      in if init_rv < 0 then ((-1, quiet), begun)
         else if init_rv > 0 then ((1, quiet), begun)
         else ((0, quiet), begun @ [ChannelpaddingNewConsensusParams, CircpadNewConsensusParams,
           CongestionControlNewConsensusParams, FlowControlNewConsensusParams, CircpadMachinesInit, HsDosInit, PredictedPortsInit, RouterparseInit]))"

section \<open>The commands\<close>

record ('k, 'e) fingerprint_env =
  fp_server_mode :: bool
  Nickname :: "string option"
  fp_init_keys :: int
  get_server_identity_key :: "'k option"
  crypto_pk_get_fingerprint :: "'k \<Rightarrow> int \<times> string"
  get_master_identity_key :: "'e option"
  digest256_to_base64 :: "'e \<Rightarrow> string"

definition newline :: string where "newline = [CHR 0x0A]"

definition do_list_fingerprint :: "('k, 'e) fingerprint_env \<Rightarrow> string \<Rightarrow> (int \<times> tool_call list) checked" where
  "do_list_fingerprint E arg =
     (let show_rsa = (arg = '''' \<or> arg = ''rsa'');
          show_ed25519 = (arg = ''ed25519'');
          begun = [SandboxDisableGetaddrinfoCache]
      in if \<not> show_rsa \<and> \<not> show_ed25519 then Inr (-1, begun)
         else if \<not> fp_server_mode E then Inr (-1, begun)
         else case Nickname E of
           None \<Rightarrow> Inl (CheckFailed ''nickname'')
         | Some nickname \<Rightarrow>
             let begun = begun @ [InitKeys]
             in if fp_init_keys E < 0 then Inr (-1, begun)
                else case get_server_identity_key E of
                  None \<Rightarrow> Inr (-1, begun)
                | Some k \<Rightarrow>
                    let (r, rsa) = crypto_pk_get_fingerprint E k
                    in if r < 0 then Inr (-1, begun)
                       else case get_master_identity_key E of
                         None \<Rightarrow> Inr (-1, begun)
                       | Some edkey \<Rightarrow> Inr (0, begun @
                           (if show_rsa then [Print (nickname @ '' '' @ rsa @ newline)] else []) @
                           (if show_ed25519
                            then [Print (nickname @ '' '' @ digest256_to_base64 E edkey @ newline)] else [])))"

text \<open>
  \<open>do_hash_password\<close>: the random bytes, the function that derives the key from the secret and the
  specifier, and the encoding are parameters; the specifier is the random bytes with 96 behind them.
\<close>

record hash_env =
  S2K_RFC2440_SPECIFIER_LEN :: nat
  crypto_rand :: "nat \<Rightarrow> 8 word list"
  secret_to_key_rfc2440 :: "string \<Rightarrow> 8 word list \<Rightarrow> 8 word list"
  base16_encode :: "8 word list \<Rightarrow> string"

definition do_hash_password :: "hash_env \<Rightarrow> string \<Rightarrow> tool_call list" where
  "do_hash_password H arg =
     (let n = S2K_RFC2440_SPECIFIER_LEN H - 1;
          specifier = crypto_rand H n @ [96];
          key = specifier @ secret_to_key_rfc2440 H arg specifier
      in [CryptoRand n, Print (''16:'' @ base16_encode H key @ newline)])"

definition quoted :: "string \<Rightarrow> string" where "quoted s = [CHR 0x27] @ s @ [CHR 0x27]"

datatype dump_how = OPTIONS_DUMP_MINIMAL | OPTIONS_DUMP_ALL

definition do_dump_config :: "(dump_how \<Rightarrow> string) \<Rightarrow> string \<Rightarrow> int \<times> tool_call list" where
  "do_dump_config options_dump arg =
     (let dump = (\<lambda>how. [Print (options_dump how), FreeStrings 1])
      in if arg = ''short'' then (0, dump OPTIONS_DUMP_MINIMAL)
         else if arg = ''non-builtin''
         then (0, PrintErr (quoted ''non-builtin'' @ '' is deprecated; use '' @ quoted ''short'' @ '' instead.'' @ newline) # dump OPTIONS_DUMP_MINIMAL)
         else if arg = ''full'' then (0, dump OPTIONS_DUMP_ALL)
         else (-1, [PrintErr (''No valid argument to --dump-config found!'' @ newline),
                    PrintErr (''Please select '' @ quoted ''short'' @ '' or '' @ quoted ''full'' @ ''.'' @ newline)]))"

record 'p keygen_env =
  create_family_id_key :: "string \<Rightarrow> int \<times> 'p"
  ed25519_fmt :: "'p \<Rightarrow> string"
  write_str_to_file :: "string \<Rightarrow> string \<Rightarrow> int"
  curve25519_keypair_generate :: int
  curve25519_keypair_write_to_file :: "string \<Rightarrow> int"

text \<open>\<open>BUG(! p)\<close> is \<open>p = None\<close>; the three strings are freed on every path.\<close>

definition do_keygen_family :: "'p keygen_env \<Rightarrow> string option \<Rightarrow> int \<times> tool_call list" where
  "do_keygen_family K fname_base =
     (let (r, calls) =
        (case fname_base of
           None \<Rightarrow> (-1, [])
         | Some base \<Rightarrow>
             let fname_key = base @ ''.secret_family_key'';
                 fname_id = base @ ''.public_family_id'';
                 (c, pk) = create_family_id_key K fname_key;
                 id_contents = ed25519_fmt K pk @ newline
             in require (CreateFamilyIdKey fname_key) (c < 0) (
                require (WriteStrToFile fname_id id_contents) (write_str_to_file K fname_id id_contents < 0)
                  (0, [Print (''# Generated '' @ fname_key @ newline), Print (''FamilyId '' @ ed25519_fmt K pk @ newline)])))
      in (r, calls @ [FreeStrings 3]))"

definition do_keygen_onion_key :: "'p keygen_env \<Rightarrow> string option \<Rightarrow> int \<times> tool_call list" where
  "do_keygen_onion_key K fname =
     (let (result, calls) =
        (case fname of
           None \<Rightarrow> (-1, [])
         | Some f \<Rightarrow>
             require (KeypairGenerate True) (curve25519_keypair_generate K < 0) (
             require (KeypairWriteToFile f ''onion'') (curve25519_keypair_write_to_file K f < 0)
               (0, [Print (''Saved new Onion Key in file: '' @ f @ newline)])))
      in (result, calls @ [WipeKeypair]))"

text \<open>A host name is cut to the buffer; it is not terminated when it fills it, which is left out.\<close>

definition init_addrinfo :: "bool \<Rightarrow> string option \<Rightarrow> string \<Rightarrow> tool_call list" where
  "init_addrinfo server Address hostname =
     (if \<not> server \<or> Address \<noteq> None then [] else [GetHostname, TorAddAddrinfo hostname])"

section \<open>The main loop\<close>

record loop_env =
  client_identity_key_is_set :: bool
  init_keys :: int
  authdir_mode_v3 :: bool
  keypin_load_journal :: int
  keypin_open_journal :: int
  router_reload_consensus_networkstatus :: int
  router_reload_router_list :: int
  cpuworker_init :: int
  sr_init :: int
  dns_init :: int
  ServerDNSAllowBrokenConfig :: bool
  do_main_loop :: int

text \<open>From \<open>dns_init\<close> on nothing returns early.\<close>

definition enter_main_loop :: "main_build \<Rightarrow> loop_env \<Rightarrow> int \<times> loop_call list" where
  "enter_main_loop B E =
     perform [DnsInit] (
     perform (if dns_init E < 0 \<and> \<not> ServerDNSAllowBrokenConfig E then [LogErrDnsExiting] else []) (
     perform (if HAVE_SYSTEMD B then [SdNotifyReady] else []) (
       (do_main_loop E, [DoMainLoop]))))"

definition after_journal :: "main_build \<Rightarrow> loop_env \<Rightarrow> int \<times> loop_call list" where
  "after_journal B E =
     perform [UnlinkKeyPinningEntries, TrustedDirsReloadCerts] (
     require RouterReloadConsensusNetworkstatus (router_reload_consensus_networkstatus E \<noteq> 0) (
     require RouterReloadRouterList (router_reload_router_list E \<noteq> 0) (
     perform [DirectoryInfoHasArrived] (
     require CpuworkerInit (cpuworker_init E = -1) (
     perform [ConsdiffmgrEnableBackgroundCompression] (
       (if authdir_mode_v3 E then require SrInit (sr_init E < 0) (enter_main_loop B E) else enter_main_loop B E)))))))"

definition run_tor_main_loop :: "main_build \<Rightarrow> loop_env \<Rightarrow> int \<times> loop_call list" where
  "run_tor_main_loop B E =
     perform [HandleSignals, TimersInitialize, InitializeMainloopEvents] (
       let keyed =
         perform [ConnectionBucketInit, ControlEventBootstrapStarting] (
           if authdir_mode_v3 E then
             perform [KeypinLoadJournal, KeypinOpenJournal] (
               if keypin_load_journal E < 0 \<or> keypin_open_journal E < 0 then (-1, []) else after_journal B E)
           else after_journal B E)
       in if \<not> client_identity_key_is_set E then require LoopInitKeys (init_keys E < 0) keyed else keyed)"

section \<open>The whole life\<close>

text \<open>
  The answers \<open>tor_run_main\<close> depends on. The options are those in force after the initialisation; the
  argument of a command may be a null pointer, which only the key generators accept.
\<close>

record ('k, 'e, 'p) main_env =
  for_init :: init_env
  for_loop :: loop_env
  for_fingerprint :: "('k, 'e) fingerprint_env"
  for_hash :: hash_env
  for_keygen :: "'p keygen_env"
  options_dump :: "dump_how \<Rightarrow> string"
  nt_service_parse_options :: "string list \<Rightarrow> int \<times> bool"
  subsystems_add_pubsub :: int
  tor_mainloop_connect_pubsub :: int
  Sandbox :: bool
  command :: tor_command
  command_arg :: "string option"
  sandbox_init :: int
  load_ed_keys_answer :: int
  log_cert_expiration :: int

definition pubsub_install :: "('k, 'e, 'p) main_env \<Rightarrow> main_call list checked" where
  "pubsub_install E =
     check (subsystems_add_pubsub E = 0) ''r == 0'' (
     check (tor_mainloop_connect_pubsub E = 0) ''r == 0'' (
       Inr [SubsystemsAddPubsub, TorMainloopConnectPubsub]))"

definition pubsub_connect :: "tor_command \<Rightarrow> main_call list" where
  "pubsub_connect cmd =
     (if cmd = CMD_RUN_TOR
      then [TorMainloopConnectPubsubEvents, SetDeliveryStrategy ''orconn'', SetDeliveryStrategy ''ocirc'']
      else [])"

definition on_loop :: "int \<times> loop_call list \<Rightarrow> int \<times> main_call list" where
  "on_loop x = (fst x, map OnLoop (snd x))"

definition on_tool :: "int \<times> tool_call list \<Rightarrow> int \<times> main_call list" where
  "on_tool x = (fst x, map OnTool (snd x))"

definition with_arg :: "string option \<Rightarrow> (string \<Rightarrow> 'a checked) \<Rightarrow> 'a checked" where
  "with_arg arg f = (case arg of None \<Rightarrow> Inl (CheckFailed ''command_arg'') | Some a \<Rightarrow> f a)"

definition run_command ::
    "main_build \<Rightarrow> ('k, 'e, 'p) main_env \<Rightarrow> quiet_level \<Rightarrow> (int \<times> main_call list) checked" where
  "run_command B E quiet = (case command E of
     CMD_RUN_TOR \<Rightarrow> Inr (perform [NtServiceSetStateRunning] (on_loop (run_tor_main_loop B (for_loop E))))
   | CMD_KEYGEN \<Rightarrow> Inr (on_tool (if load_ed_keys_answer E < 0 then 1 else 0, [LoadEdKeys]))
   | CMD_KEYGEN_FAMILY \<Rightarrow> Inr (on_tool (do_keygen_family (for_keygen E) (command_arg E)))
   | CMD_KEYGEN_ONION \<Rightarrow> Inr (on_tool (do_keygen_onion_key (for_keygen E) (command_arg E)))
   | CMD_KEY_EXPIRATION \<Rightarrow> Inr (on_tool (log_cert_expiration E, [InitKeys, LogCertExpiration]))
   | CMD_LIST_FINGERPRINT \<Rightarrow>
       with_arg (command_arg E) (\<lambda>a. bindE (do_list_fingerprint (for_fingerprint E) a) (\<lambda>r. Inr (on_tool r)))
   | CMD_HASH_PASSWORD \<Rightarrow> with_arg (command_arg E) (\<lambda>a. Inr (on_tool (0, do_hash_password (for_hash E) a)))
   | CMD_VERIFY_CONFIG \<Rightarrow>
       Inr (on_tool (0, if quiet = QUIET_NONE then [Print (''Configuration was valid'' @ newline)] else []))
   | CMD_DUMP_CONFIG \<Rightarrow> with_arg (command_arg E) (\<lambda>a. Inr (on_tool (do_dump_config (options_dump E) a)))
   | _ \<Rightarrow> Inr (-1, []))"

text \<open>The sandbox is entered for the command that runs the router.\<close>

definition sandboxed :: "('k, 'e, 'p) main_env \<Rightarrow> bool" where
  "sandboxed E \<longleftrightarrow> Sandbox E \<and> command E = CMD_RUN_TOR"

definition tor_run_main ::
    "main_build \<Rightarrow> ('k, 'e, 'p) main_env \<Rightarrow> string list \<Rightarrow> string list \<Rightarrow> (int \<times> main_call list) checked" where
  "tor_run_main B E argv0 argv_owned =
     (let argv = argv0 @ argv_owned;
          begun = (if EVENT_SET_MEM_FUNCTIONS_IMPLEMENTED B then [EventSetMemFunctions] else []) @
            [SubsystemsInit, InitProtocolWarningSeverityLevel, NtServiceParseOptions argv];
          (nt_result, done) = nt_service_parse_options E argv
      in if done then Inr (nt_result, begun @ [FreeArgv])
         else bindE (pubsub_install E) (\<lambda>installed.
           let ((init_rv, quiet), inits) = tor_init B (for_init E) argv;
               begun = begun @ installed @ map OnInit inits
           in if init_rv \<noteq> 0 then Inr (if init_rv < 0 then -1 else 0, begun @ [TorFreeAll, FreeArgv])
              else
                let begun = begun @ pubsub_connect (command E) @
                      (if sandboxed E then [SandboxInitFilter, SandboxInit] else [])
                in if sandboxed E \<and> sandbox_init E \<noteq> 0 then Inr (-1, begun @ [FreeArgv, TorFreeAll])
                   else
                     let begun = begun @ (if sandboxed E then MakeGetaddrinfoCacheActive #
                           (if HAVE_EVUTIL_SECURE_RNG_SET_URANDOM_DEVICE_FILE B then [SetUrandomDeviceFile] else []) else [])
                     in bindE (run_command B E quiet) (\<lambda>(result, calls).
                          Inr (result, begun @ calls @ [TorCleanup, FreeArgv]))))"

section \<open>Properties of the main loop\<close>

text \<open>The steps whose failure keeps the router from its main loop; the name service is not among them.\<close>

definition ready_to_loop :: "loop_env \<Rightarrow> bool" where
  "ready_to_loop E \<longleftrightarrow>
     (client_identity_key_is_set E \<or> init_keys E \<ge> 0) \<and>
     (authdir_mode_v3 E \<longrightarrow> keypin_load_journal E \<ge> 0 \<and> keypin_open_journal E \<ge> 0 \<and> sr_init E \<ge> 0) \<and>
     router_reload_consensus_networkstatus E = 0 \<and> router_reload_router_list E = 0 \<and> cpuworker_init E \<noteq> -1"

lemma enter_main_loop_value:
  "fst (enter_main_loop B E) = do_main_loop E" "filter (\<lambda>c. c \<in> {HandleSignals, DoMainLoop}) (snd (enter_main_loop B E)) = [DoMainLoop]"
  by (simp_all add: enter_main_loop_def)

lemma main_loop_value:
  "run_tor_main_loop B E = (r, calls) \<Longrightarrow>
     r = (if ready_to_loop E then do_main_loop E else -1) \<and>
     filter (\<lambda>c. c \<in> {HandleSignals, DoMainLoop}) calls = HandleSignals # (if ready_to_loop E then [DoMainLoop] else []) \<and>
     (LogErrDnsExiting \<in> set calls \<longleftrightarrow> ready_to_loop E \<and> dns_init E < 0 \<and> \<not> ServerDNSAllowBrokenConfig E)"
proof -
  assume "run_tor_main_loop B E = (r, calls)"
  then have r: "r = fst (run_tor_main_loop B E)" and calls: "calls = snd (run_tor_main_loop B E)" by simp_all
  show ?thesis
    unfolding r calls run_tor_main_loop_def after_journal_def enter_main_loop_def ready_to_loop_def Let_def
    by (cases "client_identity_key_is_set E"; cases "init_keys E < 0"; cases "authdir_mode_v3 E";
        cases "router_reload_consensus_networkstatus E = 0"; cases "router_reload_router_list E = 0";
        cases "cpuworker_init E = -1") auto
qed

text \<open>
  C7. The router reaches its main loop exactly when every step it depends on succeeded; it handles signals first and
  returns what the loop returned, or -1. A name service that cannot be set up does not keep it from the loop:
  without the option that allows it, the router announces that it exits and runs on.
\<close>

theorem main_loop_reached_iff_ready:
  assumes "run_tor_main_loop B E = (r, calls)"
  shows "r = (if ready_to_loop E then do_main_loop E else -1) \<and>
    filter (\<lambda>c. c \<in> {HandleSignals, LogErrDnsExiting, DoMainLoop}) calls = [HandleSignals] @
      (if ready_to_loop E
       then (if dns_init E < 0 \<and> \<not> ServerDNSAllowBrokenConfig E then [LogErrDnsExiting] else []) @ [DoMainLoop]
       else [])"
proof
  show "r = (if ready_to_loop E then do_main_loop E else -1)" using main_loop_value [OF assms] by simp
  have calls: "calls = snd (run_tor_main_loop B E)" using assms by simp
  show "filter (\<lambda>c. c \<in> {HandleSignals, LogErrDnsExiting, DoMainLoop}) calls = [HandleSignals] @
      (if ready_to_loop E
       then (if dns_init E < 0 \<and> \<not> ServerDNSAllowBrokenConfig E then [LogErrDnsExiting] else []) @ [DoMainLoop]
       else [])"
    unfolding calls run_tor_main_loop_def after_journal_def enter_main_loop_def ready_to_loop_def Let_def
    by (cases "client_identity_key_is_set E"; cases "init_keys E < 0"; cases "authdir_mode_v3 E";
        cases "router_reload_consensus_networkstatus E = 0"; cases "router_reload_router_list E = 0";
        cases "cpuworker_init E = -1") auto
qed

definition sample_loop :: "int \<Rightarrow> loop_env" where
  "sample_loop dns = \<lparr>client_identity_key_is_set = False, init_keys = 0, authdir_mode_v3 = False,
     keypin_load_journal = 0, keypin_open_journal = 0, router_reload_consensus_networkstatus = 0,
     router_reload_router_list = 0, cpuworker_init = 0, sr_init = 0, dns_init = dns,
     ServerDNSAllowBrokenConfig = False, do_main_loop = 5\<rparr>"

definition sample_build :: main_build where
  "sample_build = \<lparr>LOG_WARN = 4, LOG_NOTICE = 5, HAVE_SYSTEMD = True, EVENT_SET_MEM_FUNCTIONS_IMPLEMENTED = True,
     HAVE_EVUTIL_SECURE_RNG_SET_URANDOM_DEVICE_FILE = True\<rparr>"

theorem main_loop_reached_iff_ready_witness:
  "\<exists>calls. run_tor_main_loop sample_build (sample_loop (-1)) = (5, calls) \<and>
     filter (\<lambda>c. c \<in> {HandleSignals, LogErrDnsExiting, DoMainLoop}) calls = [HandleSignals, LogErrDnsExiting, DoMainLoop]"
proof -
  obtain r calls where run: "run_tor_main_loop sample_build (sample_loop (-1)) = (r, calls)" by fastforce
  from main_loop_reached_iff_ready [OF run] run show ?thesis by (simp add: ready_to_loop_def sample_loop_def)
qed

section \<open>Properties of the whole life\<close>

definition clean_up :: "main_call set" where
  "clean_up = {TorCleanup, TorFreeAll, FreeArgv}"

definition guarded :: "main_call set" where
  "guarded = {SandboxInit, OnLoop HandleSignals, OnLoop DoMainLoop}"

text \<open>Which calls the two sets hold, for the calls of the whole life.\<close>

lemma clean_up_mem [simp]:
  "TorCleanup \<in> clean_up" "TorFreeAll \<in> clean_up" "FreeArgv \<in> clean_up"
  "EventSetMemFunctions \<notin> clean_up" "SubsystemsInit \<notin> clean_up" "InitProtocolWarningSeverityLevel \<notin> clean_up"
  "NtServiceParseOptions a \<notin> clean_up" "SubsystemsAddPubsub \<notin> clean_up" "TorMainloopConnectPubsub \<notin> clean_up"
  "TorMainloopConnectPubsubEvents \<notin> clean_up" "SetDeliveryStrategy n \<notin> clean_up" "SandboxInitFilter \<notin> clean_up"
  "SandboxInit \<notin> clean_up" "MakeGetaddrinfoCacheActive \<notin> clean_up" "SetUrandomDeviceFile \<notin> clean_up"
  "NtServiceSetStateRunning \<notin> clean_up" "OnInit i \<notin> clean_up" "OnTool t \<notin> clean_up" "OnLoop l \<notin> clean_up"
  by (simp_all add: clean_up_def)

lemma guarded_mem [simp]:
  "SandboxInit \<in> guarded" "OnLoop l \<in> guarded \<longleftrightarrow> l \<in> {HandleSignals, DoMainLoop}"
  "TorCleanup \<notin> guarded" "TorFreeAll \<notin> guarded" "FreeArgv \<notin> guarded"
  "EventSetMemFunctions \<notin> guarded" "SubsystemsInit \<notin> guarded" "InitProtocolWarningSeverityLevel \<notin> guarded"
  "NtServiceParseOptions a \<notin> guarded" "SubsystemsAddPubsub \<notin> guarded" "TorMainloopConnectPubsub \<notin> guarded"
  "TorMainloopConnectPubsubEvents \<notin> guarded" "SetDeliveryStrategy n \<notin> guarded" "SandboxInitFilter \<notin> guarded"
  "MakeGetaddrinfoCacheActive \<notin> guarded" "SetUrandomDeviceFile \<notin> guarded"
  "NtServiceSetStateRunning \<notin> guarded" "OnInit i \<notin> guarded" "OnTool t \<notin> guarded"
  by (auto simp: guarded_def)

lemma filter_map_calls [simp]:
  "filter (\<lambda>c. c \<in> clean_up) (map OnLoop ls) = []" "filter (\<lambda>c. c \<in> clean_up) (map OnTool ts) = []"
  "filter (\<lambda>c. c \<in> clean_up) (map OnInit cs) = []"
  "filter (\<lambda>c. c \<in> guarded) (map OnTool ts) = []" "filter (\<lambda>c. c \<in> guarded) (map OnInit cs) = []"
  "filter (\<lambda>c. c \<in> guarded) (map OnLoop ls) = map OnLoop (filter (\<lambda>c. c \<in> {HandleSignals, DoMainLoop}) ls)"
  by (simp_all add: filter_map comp_def)

lemma filter_pubsub_connect [simp]:
  "filter (\<lambda>c. c \<in> clean_up) (pubsub_connect c) = []" "filter (\<lambda>c. c \<in> guarded) (pubsub_connect c) = []"
  by (simp_all add: pubsub_connect_def)

lemma on_tool_calls: "on_tool x = (r, calls) \<Longrightarrow> \<exists>ts. calls = map OnTool ts"
  by (auto simp: on_tool_def)

lemma other_commands_call_tools:
  assumes "run_command B E quiet = Inr (r, calls)" and "command E \<noteq> CMD_RUN_TOR"
  shows "\<exists>ts. calls = map OnTool ts"
  using assms
  by (cases "command E")
    (auto simp: run_command_def with_arg_def bindE_Inr_iff dest: on_tool_calls split: option.splits)

lemma run_command_calls:
  assumes "run_command B E quiet = Inr (r, calls)"
  shows "filter (\<lambda>c. c \<in> clean_up) calls = []"
    and "filter (\<lambda>c. c \<in> guarded) calls =
      (if command E = CMD_RUN_TOR
       then OnLoop HandleSignals # (if ready_to_loop (for_loop E) then [OnLoop DoMainLoop] else []) else [])"
proof -
  have "filter (\<lambda>c. c \<in> clean_up) calls = [] \<and> filter (\<lambda>c. c \<in> guarded) calls =
      (if command E = CMD_RUN_TOR
       then OnLoop HandleSignals # (if ready_to_loop (for_loop E) then [OnLoop DoMainLoop] else []) else [])"
  proof (cases "command E = CMD_RUN_TOR")
    case True
    obtain lr lcalls where l: "run_tor_main_loop B (for_loop E) = (lr, lcalls)" by fastforce
    with assms True have "calls = NtServiceSetStateRunning # map OnLoop lcalls"
      by (simp add: run_command_def perform_def on_loop_def)
    with True main_loop_value [OF l] show ?thesis by (simp del: insert_iff)
  next
    case False
    with other_commands_call_tools [OF assms] show ?thesis by auto
  qed
  then show "filter (\<lambda>c. c \<in> clean_up) calls = []" and "filter (\<lambda>c. c \<in> guarded) calls =
      (if command E = CMD_RUN_TOR
       then OnLoop HandleSignals # (if ready_to_loop (for_loop E) then [OnLoop DoMainLoop] else []) else [])"
    by simp_all
qed

lemma tor_init_result: "fst (fst (tor_init B I argv)) \<noteq> 0 \<longleftrightarrow> options_init_from_torrc I argv \<noteq> 0"
  by (simp add: tor_init_def Let_def)

text \<open>
  C17. Exactly which clean-up each way out makes, and in which order. When the options were for the service of the
  system, the arguments are freed and nothing else: neither \<open>tor_cleanup\<close> nor \<open>tor_free_all\<close> is called. When the
  configuration failed, \<open>tor_free_all\<close> comes first and then the arguments are freed; when the sandbox failed, the other
  way round. In every other case \<open>tor_cleanup\<close> is called and then the arguments are freed. Each of these calls is
  made once.
\<close>

theorem main_cleans_up_once:
  assumes "tor_run_main B E argv0 argv_owned = Inr (r, calls)"
  shows "filter (\<lambda>c. c \<in> clean_up) calls =
    (if snd (nt_service_parse_options E (argv0 @ argv_owned)) then [FreeArgv]
     else if options_init_from_torrc (for_init E) (argv0 @ argv_owned) \<noteq> 0 then [TorFreeAll, FreeArgv]
     else if sandboxed E \<and> sandbox_init E \<noteq> 0 then [FreeArgv, TorFreeAll]
     else [TorCleanup, FreeArgv])"
proof -
  let ?argv = "argv0 @ argv_owned"
  obtain nt_result finished where nt: "nt_service_parse_options E ?argv = (nt_result, finished)" by fastforce
  obtain init_rv quiet inits where init: "tor_init B (for_init E) ?argv = ((init_rv, quiet), inits)"
    by (metis surj_pair)
  have rv: "init_rv \<noteq> 0 \<longleftrightarrow> options_init_from_torrc (for_init E) ?argv \<noteq> 0"
    using tor_init_result [of B "for_init E" ?argv] init by simp
  show ?thesis
    using assms run_command_calls(1) [of B E quiet] unfolding tor_run_main_def nt init Let_def
    by (auto simp: rv bindE_Inr_iff pubsub_install_def check_Inr_iff split: if_splits)
qed

text \<open>An environment for examples: the router is run in a sandbox.\<close>

definition sample_main :: "int \<Rightarrow> (unit, unit, unit) main_env" where
  "sample_main sandbox = \<lparr>for_init = \<lparr>get_version = ''0.4.8'', config_parse_commandline = (\<lambda>_. None),
       options_init_from_torrc = (\<lambda>_. 0)\<rparr>,
     for_loop = sample_loop 0,
     for_fingerprint = \<lparr>fp_server_mode = False, Nickname = None, fp_init_keys = 0, get_server_identity_key = None,
       crypto_pk_get_fingerprint = (\<lambda>_. (0, [])), get_master_identity_key = None, digest256_to_base64 = (\<lambda>_. [])\<rparr>,
     for_hash = \<lparr>S2K_RFC2440_SPECIFIER_LEN = 9, crypto_rand = (\<lambda>n. replicate n 0), secret_to_key_rfc2440 = (\<lambda>_ _. []),
       base16_encode = (\<lambda>_. [])\<rparr>,
     for_keygen = \<lparr>create_family_id_key = (\<lambda>_. (0, ())), ed25519_fmt = (\<lambda>_. []), write_str_to_file = (\<lambda>_ _. 0),
       curve25519_keypair_generate = 0, curve25519_keypair_write_to_file = (\<lambda>_. 0)\<rparr>,
     options_dump = (\<lambda>_. []), nt_service_parse_options = (\<lambda>_. (0, False)), subsystems_add_pubsub = 0,
     tor_mainloop_connect_pubsub = 0, Sandbox = True, command = CMD_RUN_TOR, command_arg = None,
     sandbox_init = sandbox, load_ed_keys_answer = 0, log_cert_expiration = 0\<rparr>"

lemma sample_main_runs: "\<exists>r calls. tor_run_main sample_build (sample_main sandbox) [''tor''] [] = Inr (r, calls)"
  by (simp add: tor_run_main_def sample_main_def pubsub_install_def run_command_def Let_def split: prod.split)

theorem main_cleans_up_once_witness:
  "\<exists>r calls. tor_run_main sample_build (sample_main 1) [''tor''] [] = Inr (r, calls) \<and>
     filter (\<lambda>c. c \<in> clean_up) calls = [FreeArgv, TorFreeAll]"
proof -
  from sample_main_runs [of 1] obtain r calls where run: "tor_run_main sample_build (sample_main 1) [''tor''] [] = Inr (r, calls)"
    by blast
  from main_cleans_up_once [OF run] run show ?thesis by (simp add: sample_main_def sandboxed_def)
qed

text \<open>
  C6. The router handles signals and enters its main loop only when it was asked to run, its configuration was read
  and every step of its start succeeded, and, when a sandbox is configured, only after it entered the sandbox.
\<close>

theorem router_runs_only_in_its_sandbox:
  assumes "tor_run_main B E argv0 argv_owned = Inr (r, calls)"
  shows "filter (\<lambda>c. c \<in> guarded) calls =
    (if snd (nt_service_parse_options E (argv0 @ argv_owned)) \<or> options_init_from_torrc (for_init E) (argv0 @ argv_owned) \<noteq> 0
     then []
     else (if sandboxed E then [SandboxInit] else []) @
          (if command E = CMD_RUN_TOR \<and> (sandboxed E \<longrightarrow> sandbox_init E = 0)
           then OnLoop HandleSignals # (if ready_to_loop (for_loop E) then [OnLoop DoMainLoop] else []) else []))"
proof -
  let ?argv = "argv0 @ argv_owned"
  obtain nt_result finished where nt: "nt_service_parse_options E ?argv = (nt_result, finished)" by fastforce
  obtain init_rv quiet inits where init: "tor_init B (for_init E) ?argv = ((init_rv, quiet), inits)"
    by (metis surj_pair)
  have rv: "init_rv \<noteq> 0 \<longleftrightarrow> options_init_from_torrc (for_init E) ?argv \<noteq> 0"
    using tor_init_result [of B "for_init E" ?argv] init by simp
  have cmd: "sandboxed E \<Longrightarrow> command E = CMD_RUN_TOR" by (simp add: sandboxed_def)
  show ?thesis
    using assms run_command_calls(2) [of B E quiet] cmd unfolding tor_run_main_def nt init Let_def
    by (auto simp: rv bindE_Inr_iff pubsub_install_def check_Inr_iff split: if_splits)
qed

theorem router_runs_only_in_its_sandbox_witness:
  "\<exists>r calls. tor_run_main sample_build (sample_main 0) [''tor''] [] = Inr (r, calls) \<and>
     filter (\<lambda>c. c \<in> guarded) calls = [SandboxInit, OnLoop HandleSignals, OnLoop DoMainLoop]"
proof -
  from sample_main_runs [of 0] obtain r calls where run: "tor_run_main sample_build (sample_main 0) [''tor''] [] = Inr (r, calls)"
    by blast
  from router_runs_only_in_its_sandbox [OF run] run show ?thesis
    by (simp add: sample_main_def sandboxed_def ready_to_loop_def sample_loop_def del: filter.simps)
qed

end
