(* ===== verification/Sandbox_Filter.thy ===== *)
theory Sandbox_Filter
  imports Onion_Start
begin

text \<open>
  \<open>sandbox_init_filter\<close>, \<open>src/app/startup/main.c\<close> lines 679 to 931: the list of what a sandboxed router may do
  with which files. A file is named by the directory it is looked up in, which the options choose, or by its
  path. The lemmas compare what may be renamed with what may be opened.
\<close>

section \<open>Permissions\<close>

datatype sandbox_path =
    DataFile "string option"
  | DataFile2 string string
  | CacheFile string
  | KeyFile string
  | FileAt string

datatype permission =
    AllowOpenat sandbox_path
  | AllowOpen sandbox_path
  | AllowOpendir string
  | AllowStat sandbox_path
  | AllowRename sandbox_path sandbox_path
  | AllowChmod string
  | AllowChown string

text \<open>The macros of the function.\<close>

definition OPEN :: "string \<Rightarrow> permission list" where "OPEN name = [AllowOpen (FileAt name)]"

definition OPENDIR :: "string \<Rightarrow> permission list" where "OPENDIR dir = [AllowOpendir dir]"

definition OPEN_DATADIR :: "string \<Rightarrow> permission list" where "OPEN_DATADIR name = [AllowOpen (DataFile (Some name))]"

definition OPEN_DATADIR2 :: "string \<Rightarrow> string \<Rightarrow> permission list" where
  "OPEN_DATADIR2 name name2 = [AllowOpen (DataFile2 name name2)]"

definition OPEN_DATADIR_SUFFIX :: "string \<Rightarrow> string \<Rightarrow> permission list" where
  "OPEN_DATADIR_SUFFIX name suffix = OPEN_DATADIR name @ OPEN_DATADIR (name @ suffix)"

definition OPEN_DATADIR2_SUFFIX :: "string \<Rightarrow> string \<Rightarrow> string \<Rightarrow> permission list" where
  "OPEN_DATADIR2_SUFFIX name name2 suffix = OPEN_DATADIR2 name name2 @ OPEN_DATADIR2 name (name2 @ suffix)"

definition OPEN_CACHEDIR :: "string \<Rightarrow> permission list" where "OPEN_CACHEDIR name = [AllowOpen (CacheFile name)]"

definition OPEN_CACHEDIR_SUFFIX :: "string \<Rightarrow> string \<Rightarrow> permission list" where
  "OPEN_CACHEDIR_SUFFIX name suffix = OPEN_CACHEDIR name @ OPEN_CACHEDIR (name @ suffix)"

definition OPEN_KEYDIR :: "string \<Rightarrow> permission list" where "OPEN_KEYDIR name = [AllowOpen (KeyFile name)]"

definition OPEN_KEYDIR_SUFFIX :: "string \<Rightarrow> string \<Rightarrow> permission list" where
  "OPEN_KEYDIR_SUFFIX name suffix = OPEN_KEYDIR name @ OPEN_KEYDIR (name @ suffix)"

definition RENAME_SUFFIX :: "string \<Rightarrow> string \<Rightarrow> permission list" where
  "RENAME_SUFFIX name suffix = [AllowRename (DataFile (Some (name @ suffix))) (DataFile (Some name))]"

definition RENAME_SUFFIX2 :: "string \<Rightarrow> string \<Rightarrow> string \<Rightarrow> permission list" where
  "RENAME_SUFFIX2 prefix name suffix = [AllowRename (DataFile2 prefix (name @ suffix)) (DataFile2 prefix name)]"

definition RENAME_CACHEDIR_SUFFIX :: "string \<Rightarrow> string \<Rightarrow> permission list" where
  "RENAME_CACHEDIR_SUFFIX name suffix = [AllowRename (CacheFile (name @ suffix)) (CacheFile name)]"

definition RENAME_KEYDIR_SUFFIX :: "string \<Rightarrow> string \<Rightarrow> permission list" where
  "RENAME_KEYDIR_SUFFIX name suffix = [AllowRename (KeyFile (name @ suffix)) (KeyFile name)]"

definition STAT_DATADIR :: "string option \<Rightarrow> permission list" where "STAT_DATADIR name = [AllowStat (DataFile name)]"

definition STAT_DATADIR2 :: "string \<Rightarrow> string \<Rightarrow> permission list" where
  "STAT_DATADIR2 name name2 = [AllowStat (DataFile2 name name2)]"

definition STAT_CACHEDIR :: "string \<Rightarrow> permission list" where "STAT_CACHEDIR name = [AllowStat (CacheFile name)]"

lemmas filter_macros = OPEN_def OPENDIR_def OPEN_DATADIR_def OPEN_DATADIR2_def OPEN_DATADIR_SUFFIX_def
  OPEN_DATADIR2_SUFFIX_def OPEN_CACHEDIR_def OPEN_CACHEDIR_SUFFIX_def OPEN_KEYDIR_def OPEN_KEYDIR_SUFFIX_def
  RENAME_SUFFIX_def RENAME_SUFFIX2_def RENAME_CACHEDIR_SUFFIX_def RENAME_KEYDIR_SUFFIX_def STAT_DATADIR_def
  STAT_DATADIR2_def STAT_CACHEDIR_def

section \<open>The filter\<close>

text \<open>
  The options and what the function asks elsewhere: names of files of other parts, which paths are
  directories, the parent of a path when it has one, and the permissions \<open>consdiffmgr\<close> adds itself.
\<close>

record sandbox_env =
  HAVE_MODULE_RELAY :: bool
  DataDirectory :: string
  KeyDirectory :: string
  list_family_key_files :: "string list"
  BridgeAuthoritativeDir :: bool
  sb_authdir_mode :: bool
  V3BandwidthsFile :: "string option"
  ServerDNSResolvConfFile :: "string option"
  torrc_defaults_fname :: "string option"
  torrc_fname :: "string option"
  CONFIG_BACKUP_PATTERN :: string
  FilesOpenedByIncludes :: "string list"
  is_dir :: "string \<Rightarrow> bool"
  tor_log_get_logfile_names :: "string list"
  hs_files :: "string list"
  hs_dirs :: "string list"
  controller_cookie_file_name :: "string option"
  ext_or_auth_cookie_file_name :: "string option"
  get_configured_ports :: "(bool \<times> string) list"
  get_parent_directory :: "string \<Rightarrow> string option"
  DirPortFrontPage :: "string option"
  sb_server_mode :: bool
  consdiffmgr_permissions :: "permission list"

definition for_some :: "'a option \<Rightarrow> ('a \<Rightarrow> 'b list) \<Rightarrow> 'b list" where
  "for_some x f = (case x of None \<Rightarrow> [] | Some a \<Rightarrow> f a)"

definition for_each :: "'a list \<Rightarrow> ('a \<Rightarrow> 'b list) \<Rightarrow> 'b list" where
  "for_each xs f = concat (map f xs)"

definition common_files :: "permission list" where
  "common_files = concat [
     OPEN_CACHEDIR_SUFFIX ''cached-certs'' ''.tmp'',
     OPEN_CACHEDIR_SUFFIX ''cached-consensus'' ''.tmp'',
     OPEN_CACHEDIR_SUFFIX ''unverified-consensus'' ''.tmp'',
     OPEN_CACHEDIR_SUFFIX ''unverified-microdesc-consensus'' ''.tmp'',
     OPEN_CACHEDIR_SUFFIX ''cached-microdesc-consensus'' ''.tmp'',
     OPEN_CACHEDIR_SUFFIX ''cached-microdescs'' ''.tmp'',
     OPEN_CACHEDIR_SUFFIX ''cached-microdescs.new'' ''.tmp'',
     OPEN_CACHEDIR_SUFFIX ''cached-descriptors'' ''.tmp'',
     OPEN_CACHEDIR_SUFFIX ''cached-descriptors.new'' ''.tmp'',
     OPEN_CACHEDIR ''cached-descriptors.tmp.tmp'',
     OPEN_CACHEDIR_SUFFIX ''cached-extrainfo'' ''.tmp'',
     OPEN_CACHEDIR_SUFFIX ''cached-extrainfo.new'' ''.tmp'',
     OPEN_CACHEDIR ''cached-extrainfo.tmp.tmp'',
     OPEN_DATADIR_SUFFIX ''state'' ''.tmp'',
     OPEN_DATADIR_SUFFIX ''sr-state'' ''.tmp'',
     OPEN_DATADIR_SUFFIX ''unparseable-desc'' ''.tmp'',
     OPEN_DATADIR_SUFFIX ''v3-status-votes'' ''.tmp'',
     OPEN_DATADIR ''key-pinning-journal'',
     OPEN ''/dev/srandom'',
     OPEN ''/dev/urandom'',
     OPEN ''/dev/random'',
     OPEN ''/etc/hosts'',
     OPEN ''/proc/meminfo'']"

definition common_renames :: "permission list" where
  "common_renames = concat [
     RENAME_CACHEDIR_SUFFIX ''cached-certs'' ''.tmp'',
     RENAME_CACHEDIR_SUFFIX ''cached-consensus'' ''.tmp'',
     RENAME_CACHEDIR_SUFFIX ''unverified-consensus'' ''.tmp'',
     RENAME_CACHEDIR_SUFFIX ''unverified-microdesc-consensus'' ''.tmp'',
     RENAME_CACHEDIR_SUFFIX ''cached-microdesc-consensus'' ''.tmp'',
     RENAME_CACHEDIR_SUFFIX ''cached-microdescs'' ''.tmp'',
     RENAME_CACHEDIR_SUFFIX ''cached-microdescs'' ''.new'',
     RENAME_CACHEDIR_SUFFIX ''cached-microdescs.new'' ''.tmp'',
     RENAME_CACHEDIR_SUFFIX ''cached-descriptors'' ''.tmp'',
     RENAME_CACHEDIR_SUFFIX ''cached-descriptors'' ''.new'',
     RENAME_CACHEDIR_SUFFIX ''cached-descriptors.new'' ''.tmp'',
     RENAME_CACHEDIR_SUFFIX ''cached-extrainfo'' ''.tmp'',
     RENAME_CACHEDIR_SUFFIX ''cached-extrainfo'' ''.new'',
     RENAME_CACHEDIR_SUFFIX ''cached-extrainfo.new'' ''.tmp'',
     RENAME_SUFFIX ''state'' ''.tmp'',
     RENAME_SUFFIX ''sr-state'' ''.tmp'',
     RENAME_SUFFIX ''unparseable-desc'' ''.tmp'',
     RENAME_SUFFIX ''v3-status-votes'' ''.tmp'']"

definition server_files :: "permission list" where
  "server_files = concat [
     OPEN_KEYDIR_SUFFIX ''secret_id_key'' ''.tmp'',
     OPEN_KEYDIR_SUFFIX ''secret_onion_key'' ''.tmp'',
     OPEN_KEYDIR_SUFFIX ''secret_onion_key_ntor'' ''.tmp'',
     OPEN_KEYDIR ''secret_id_key.old'',
     OPEN_KEYDIR ''secret_onion_key.old'',
     OPEN_KEYDIR ''secret_onion_key_ntor.old'',
     OPEN_KEYDIR_SUFFIX ''ed25519_master_id_secret_key'' ''.tmp'',
     OPEN_KEYDIR_SUFFIX ''ed25519_master_id_secret_key_encrypted'' ''.tmp'',
     OPEN_KEYDIR_SUFFIX ''ed25519_master_id_public_key'' ''.tmp'',
     OPEN_KEYDIR_SUFFIX ''ed25519_signing_secret_key'' ''.tmp'',
     OPEN_KEYDIR_SUFFIX ''ed25519_signing_secret_key_encrypted'' ''.tmp'',
     OPEN_KEYDIR_SUFFIX ''ed25519_signing_public_key'' ''.tmp'',
     OPEN_KEYDIR_SUFFIX ''ed25519_signing_cert'' ''.tmp'',
     OPEN_DATADIR2_SUFFIX ''stats'' ''bridge-stats'' ''.tmp'',
     OPEN_DATADIR2_SUFFIX ''stats'' ''dirreq-stats'' ''.tmp'',
     OPEN_DATADIR2_SUFFIX ''stats'' ''entry-stats'' ''.tmp'',
     OPEN_DATADIR2_SUFFIX ''stats'' ''exit-stats'' ''.tmp'',
     OPEN_DATADIR2_SUFFIX ''stats'' ''buffer-stats'' ''.tmp'',
     OPEN_DATADIR2_SUFFIX ''stats'' ''conn-stats'' ''.tmp'',
     OPEN_DATADIR2_SUFFIX ''stats'' ''hidserv-stats'' ''.tmp'',
     OPEN_DATADIR2_SUFFIX ''stats'' ''hidserv-v3-stats'' ''.tmp'',
     OPEN_DATADIR ''approved-routers'',
     OPEN_DATADIR_SUFFIX ''fingerprint'' ''.tmp'',
     OPEN_DATADIR_SUFFIX ''fingerprint-ed25519'' ''.tmp'',
     OPEN_DATADIR_SUFFIX ''hashed-fingerprint'' ''.tmp'',
     OPEN_DATADIR_SUFFIX ''router-stability'' ''.tmp'',
     OPEN ''/etc/resolv.conf'']"

definition server_renames :: "permission list" where
  "server_renames = concat [
     RENAME_SUFFIX ''fingerprint'' ''.tmp'',
     RENAME_SUFFIX ''fingerprint-ed25519'' ''.tmp'',
     RENAME_KEYDIR_SUFFIX ''secret_onion_key_ntor'' ''.tmp'',
     RENAME_KEYDIR_SUFFIX ''secret_id_key'' ''.tmp'',
     RENAME_KEYDIR_SUFFIX ''secret_id_key.old'' ''.tmp'',
     RENAME_KEYDIR_SUFFIX ''secret_onion_key'' ''.tmp'',
     RENAME_KEYDIR_SUFFIX ''secret_onion_key.old'' ''.tmp'',
     RENAME_SUFFIX2 ''stats'' ''bridge-stats'' ''.tmp'',
     RENAME_SUFFIX2 ''stats'' ''dirreq-stats'' ''.tmp'',
     RENAME_SUFFIX2 ''stats'' ''entry-stats'' ''.tmp'',
     RENAME_SUFFIX2 ''stats'' ''exit-stats'' ''.tmp'',
     RENAME_SUFFIX2 ''stats'' ''buffer-stats'' ''.tmp'',
     RENAME_SUFFIX2 ''stats'' ''conn-stats'' ''.tmp'',
     RENAME_SUFFIX2 ''stats'' ''hidserv-stats'' ''.tmp'',
     RENAME_SUFFIX2 ''stats'' ''hidserv-v3-stats'' ''.tmp'',
     RENAME_SUFFIX ''hashed-fingerprint'' ''.tmp'',
     RENAME_SUFFIX ''router-stability'' ''.tmp'',
     RENAME_KEYDIR_SUFFIX ''ed25519_master_id_secret_key'' ''.tmp'',
     RENAME_KEYDIR_SUFFIX ''ed25519_master_id_secret_key_encrypted'' ''.tmp'',
     RENAME_KEYDIR_SUFFIX ''ed25519_master_id_public_key'' ''.tmp'',
     RENAME_KEYDIR_SUFFIX ''ed25519_signing_secret_key'' ''.tmp'',
     RENAME_KEYDIR_SUFFIX ''ed25519_signing_cert'' ''.tmp''] @
   [AllowRename (KeyFile ''secret_onion_key'') (KeyFile ''secret_onion_key.old''),
    AllowRename (KeyFile ''secret_onion_key_ntor'') (KeyFile ''secret_onion_key_ntor.old'')]"

text \<open>\<open>tor_asprintf\<close> with one string for the \<open>%s\<close> of a format.\<close>

fun asprintf_name :: "string \<Rightarrow> string \<Rightarrow> string" where
  "asprintf_name (c # d # cs) name =
     (if c = CHR ''%'' \<and> d = CHR ''s'' then name @ asprintf_name cs name else c # asprintf_name (d # cs) name)"
| "asprintf_name cs name = cs"

text \<open>The configuration file, its backup and its temporary copy.\<close>

definition torrc_permissions :: "string \<Rightarrow> string \<Rightarrow> permission list" where
  "torrc_permissions backup_pattern torrc =
     (let torrc_bck = asprintf_name backup_pattern torrc;
          torrc_tmp = torrc @ ''.tmp''
      in [AllowOpen (FileAt torrc), AllowRename (FileAt torrc) (FileAt torrc_bck),
          AllowRename (FileAt torrc_tmp) (FileAt torrc), AllowOpen (FileAt torrc_tmp),
          AllowStat (FileAt torrc_bck)])"

definition hs_file_permissions :: "string \<Rightarrow> permission list" where
  "hs_file_permissions file =
     [AllowRename (FileAt (file @ ''.tmp'')) (FileAt file), AllowOpen (FileAt file), AllowOpen (FileAt (file @ ''.tmp''))]"

definition port_permissions :: "sandbox_env \<Rightarrow> string \<Rightarrow> permission list" where
  "port_permissions E addr =
     for_some (get_parent_directory E addr) OPENDIR @ [AllowChmod addr, AllowChown addr]"

text \<open>Lines 684 to 767.\<close>

definition opened_files :: "sandbox_env \<Rightarrow> permission list" where
  "opened_files E =
     [AllowOpenat (CacheFile ''cached-status'')] @
     OPEN (DataDirectory E) @
     OPEN (KeyDirectory E) @
     common_files @
     (if HAVE_MODULE_RELAY E then for_each (list_family_key_files E) OPEN else []) @
     (if BridgeAuthoritativeDir E then OPEN_DATADIR_SUFFIX ''networkstatus-bridges'' ''.tmp'' else []) @
     (if sb_authdir_mode E then
        OPEN_DATADIR ''approved-routers'' @
        OPEN_DATADIR_SUFFIX ''my-consensus-microdesc'' ''.tmp'' @
        OPEN_DATADIR_SUFFIX ''my-consensus-ns'' ''.tmp'' @
        for_some (V3BandwidthsFile E) OPEN
      else []) @
     OPEN (case ServerDNSResolvConfFile E of Some f \<Rightarrow> f | None \<Rightarrow> ''/etc/resolv.conf'') @
     for_some (torrc_defaults_fname E) OPEN @
     for_some (torrc_fname E) (torrc_permissions (CONFIG_BACKUP_PATTERN E)) @
     for_each (FilesOpenedByIncludes E) (\<lambda>f. if is_dir E f then OPENDIR f else OPEN f)"

text \<open>Lines 776 to 804.\<close>

definition authdir_renames :: "permission list" where
  "authdir_renames =
     RENAME_SUFFIX ''my-consensus-microdesc'' ''.tmp'' @
     RENAME_SUFFIX ''my-consensus-ns'' ''.tmp'' @
     [AllowRename (DataFile (Some ''my-consensus-microdesc'')) (DataFile (Some ''consensus-transparency-microdesc'')),
      AllowRename (DataFile (Some ''my-consensus-ns'')) (DataFile (Some ''consensus-transparency-ns''))]"

definition renamed_files :: "sandbox_env \<Rightarrow> permission list" where
  "renamed_files E =
     common_renames @
     (if BridgeAuthoritativeDir E then RENAME_SUFFIX ''networkstatus-bridges'' ''.tmp'' else []) @
     (if sb_authdir_mode E then authdir_renames else [])"

text \<open>Lines 814 to 868.\<close>

definition other_files :: "sandbox_env \<Rightarrow> permission list" where
  "other_files E =
     STAT_DATADIR None @
     STAT_DATADIR (Some ''lock'') @
     STAT_DATADIR (Some ''state'') @
     STAT_DATADIR (Some ''router-stability'') @
     STAT_CACHEDIR ''cached-extrainfo.new'' @
     for_each (tor_log_get_logfile_names E) OPEN @
     for_each (hs_files E) hs_file_permissions @
     for_each (hs_dirs E) (\<lambda>dir. [AllowStat (FileAt dir)]) @
     for_some (controller_cookie_file_name E) OPEN @
     for_some (ext_or_auth_cookie_file_name E) OPEN @
     for_each (get_configured_ports E) (\<lambda>(is_unix_addr, addr). if is_unix_addr then port_permissions E addr else []) @
     for_some (DirPortFrontPage E) OPEN"

text \<open>Lines 869 to 926.\<close>

definition server_part :: "sandbox_env \<Rightarrow> permission list" where
  "server_part E =
     (if sb_server_mode E then
        server_files @ server_renames @
        [AllowStat (FileAt (KeyDirectory E))] @
        OPEN_DATADIR ''stats'' @
        STAT_DATADIR (Some ''stats'') @
        STAT_DATADIR2 ''stats'' ''dirreq-stats'' @
        consdiffmgr_permissions E
      else [])"

text \<open>The function also looks up its own host name at the end, \<open>init_addrinfo\<close> of \<open>Onion_Start\<close>.\<close>

definition sandbox_init_filter :: "sandbox_env \<Rightarrow> permission list" where
  "sandbox_init_filter E = opened_files E @ renamed_files E @ other_files E @ server_part E"

lemmas filter_parts = sandbox_init_filter_def opened_files_def renamed_files_def other_files_def server_part_def

section \<open>Renaming and opening\<close>

definition renames_of :: "permission list \<Rightarrow> (sandbox_path \<times> sandbox_path) set" where
  "renames_of ps = {(a, b). AllowRename a b \<in> set ps}"

lemma renames_of_simps [simp]:
  "renames_of [] = {}" "renames_of (AllowRename a b # ps) = insert (a, b) (renames_of ps)"
  "renames_of (AllowOpenat f # ps) = renames_of ps" "renames_of (AllowOpen f # ps) = renames_of ps"
  "renames_of (AllowOpendir d # ps) = renames_of ps" "renames_of (AllowStat f # ps) = renames_of ps"
  "renames_of (AllowChmod d # ps) = renames_of ps" "renames_of (AllowChown d # ps) = renames_of ps"
  "renames_of (ps @ qs) = renames_of ps \<union> renames_of qs"
  "renames_of (if c then ps else qs) = (if c then renames_of ps else renames_of qs)"
  by (auto simp: renames_of_def)

lemma renames_of_each [simp]:
  "renames_of (for_each xs f) = (\<Union>x\<in>set xs. renames_of (f x))"
  "renames_of (for_some x g) = (case x of None \<Rightarrow> {} | Some a \<Rightarrow> renames_of (g a))"
  by (auto simp: renames_of_def for_each_def for_some_def split: option.split)

text \<open>The fixed lists are compared by evaluation.\<close>

definition opens_only :: "permission list \<Rightarrow> bool" where
  "opens_only ps = list_all (\<lambda>p. case p of AllowOpen f \<Rightarrow> True | _ \<Rightarrow> False) ps"

lemma fixed_files_open: "opens_only common_files" "opens_only server_files"
  by code_simp+

lemma opens_only_renames: "opens_only ps \<Longrightarrow> renames_of ps = {}"
  by (induction ps) (auto simp: opens_only_def split: permission.splits)

text \<open>
  The directory a file is in: the part of its path up to the last separator, below the directory that its name is
  looked up in, or as it stands for a file given by its path.
\<close>

definition directory_part :: "string \<Rightarrow> string" where
  "directory_part path = rev (dropWhile (\<lambda>c. c \<noteq> CHR ''/'') (rev path))"

datatype sandbox_place =
    InDataDirectory string
  | InCacheDirectory string
  | InKeyDirectory string
  | InDirectory string
  | AboveDataDirectory

fun place :: "sandbox_path \<Rightarrow> sandbox_place" where
  "place (DataFile (Some f)) = InDataDirectory (directory_part f)"
| "place (DataFile None) = AboveDataDirectory"
| "place (DataFile2 d f) = InDataDirectory (directory_part (d @ ''/'' @ f))"
| "place (CacheFile f) = InCacheDirectory (directory_part f)"
| "place (KeyFile f) = InKeyDirectory (directory_part f)"
| "place (FileAt f) = InDirectory (directory_part f)"

lemma directory_part_append [simp]:
  assumes "CHR ''/'' \<notin> set e"
  shows "directory_part (f @ e) = directory_part f"
proof -
  have "dropWhile (\<lambda>c. c \<noteq> CHR ''/'') (rev e @ rev f) = dropWhile (\<lambda>c. c \<noteq> CHR ''/'') (rev f)"
    using assms by (intro dropWhile_append2) auto
  then show ?thesis by (simp add: directory_part_def)
qed

text \<open>
  The pattern for the backup of the configuration file is a constant of another file; its documentation says that
  the backup is the file with a suffix.
\<close>

definition backup_adds_suffix :: "string \<Rightarrow> bool" where
  "backup_adds_suffix pattern \<longleftrightarrow>
     take 2 pattern = ''%s'' \<and> CHR ''/'' \<notin> set pattern \<and> CHR ''%'' \<notin> set (drop 2 pattern)"

lemma asprintf_plain: "CHR ''%'' \<notin> set cs \<Longrightarrow> asprintf_name cs name = cs"
  by (induction cs name rule: asprintf_name.induct) auto

lemma backup_place: "backup_adds_suffix pattern \<Longrightarrow> place (FileAt (asprintf_name pattern t)) = place (FileAt t)"
proof -
  assume ok: "backup_adds_suffix pattern"
  then have "pattern = ''%s'' @ drop 2 pattern" using append_take_drop_id [of 2 pattern] by (simp add: backup_adds_suffix_def)
  then obtain e where e: "pattern = CHR ''%'' # CHR ''s'' # e" by auto
  with ok show ?thesis by (simp add: backup_adds_suffix_def asprintf_plain)
qed

definition renames_within :: "sandbox_path list \<Rightarrow> permission list \<Rightarrow> permission list \<Rightarrow> bool" where
  "renames_within extra files ps = list_all (\<lambda>p. case p of
     AllowRename a b \<Rightarrow> place a = place b \<and> (AllowOpen a \<in> set files \<or> a \<in> set extra)
   | _ \<Rightarrow> False) ps"

definition old_key_copies :: "sandbox_path list" where
  "old_key_copies = [KeyFile ''secret_id_key.old.tmp'', KeyFile ''secret_onion_key.old.tmp'']"

definition authdir_files :: "permission list" where
  "authdir_files = OPEN_DATADIR_SUFFIX ''my-consensus-microdesc'' ''.tmp'' @ OPEN_DATADIR_SUFFIX ''my-consensus-ns'' ''.tmp''"

lemma fixed_renames: "renames_within [] common_files common_renames" "renames_within old_key_copies server_files server_renames"
  "renames_within [] authdir_files authdir_renames"
  by code_simp+

lemma renames_withinD:
  "renames_within extra files ps \<Longrightarrow> (a, b) \<in> renames_of ps \<Longrightarrow>
     place a = place b \<and> (AllowOpen a \<in> set files \<or> a \<in> set extra)"
  by (auto simp: renames_within_def renames_of_def list_all_iff)

lemma filter_holds:
  "set common_files \<subseteq> set (sandbox_init_filter E)"
  "sb_server_mode E \<Longrightarrow> set server_files \<subseteq> set (sandbox_init_filter E)"
  "f \<in> set (hs_files E) \<Longrightarrow> set (hs_file_permissions f) \<subseteq> set (sandbox_init_filter E)"
  "torrc_fname E = Some t \<Longrightarrow> set (torrc_permissions (CONFIG_BACKUP_PATTERN E) t) \<subseteq> set (sandbox_init_filter E)"
  "BridgeAuthoritativeDir E \<Longrightarrow>
     set (OPEN_DATADIR_SUFFIX ''networkstatus-bridges'' ''.tmp'') \<subseteq> set (sandbox_init_filter E)"
  "sb_authdir_mode E \<Longrightarrow> set authdir_files \<subseteq> set (sandbox_init_filter E)"
  unfolding filter_parts authdir_files_def set_append for_each_def for_some_def by auto

text \<open>Where a rename of the filter comes from.\<close>

lemma renames_of_filter:
  "renames_of (sandbox_init_filter E) =
     (case torrc_fname E of None \<Rightarrow> {} | Some t \<Rightarrow> renames_of (torrc_permissions (CONFIG_BACKUP_PATTERN E) t)) \<union>
     renames_of common_renames \<union>
     (if BridgeAuthoritativeDir E then renames_of (RENAME_SUFFIX ''networkstatus-bridges'' ''.tmp'') else {}) \<union>
     (if sb_authdir_mode E then renames_of authdir_renames else {}) \<union>
     (\<Union>f\<in>set (hs_files E). renames_of (hs_file_permissions f)) \<union>
     (if sb_server_mode E then renames_of server_renames \<union> renames_of (consdiffmgr_permissions E) else {})"
proof -
  have none: "renames_of (OPEN n) = {}" "renames_of (OPENDIR n) = {}" "renames_of (OPEN_DATADIR n) = {}"
    "renames_of (OPEN_DATADIR_SUFFIX n m) = {}" "renames_of (STAT_DATADIR x) = {}" "renames_of (STAT_DATADIR2 n m) = {}"
    "renames_of (STAT_CACHEDIR n) = {}" "renames_of (port_permissions E n) = {}" for n m x
    by (simp_all add: filter_macros port_permissions_def split: option.split)
  have each: "(\<Union>x\<in>set xs. renames_of (case x of (u, a) \<Rightarrow> if u then port_permissions E a else [])) = {}" for xs
    by (auto simp: none split: prod.splits if_splits)
  show ?thesis
    unfolding filter_parts
    by (simp add: none each opens_only_renames fixed_files_open Un_ac split: option.split cong: if_cong)
qed

text \<open>
  C23. A rename that the filter allows, unless \<open>consdiffmgr\<close> registered it itself, stays in its directory, and the
  file that is renamed may be opened, unless it is the temporary copy of one of two old keys. The directory is that
  of the path as text, the backup of the configuration file included, whose pattern adds a suffix.
\<close>

theorem renamed_files_can_be_opened:
  assumes "AllowRename a b \<in> set (sandbox_init_filter E)" and "AllowRename a b \<notin> set (consdiffmgr_permissions E)"
    and "backup_adds_suffix (CONFIG_BACKUP_PATTERN E)"
  shows "place a = place b \<and> (AllowOpen a \<in> set (sandbox_init_filter E) \<or> a \<in> set old_key_copies)"
proof -
  have "(a, b) \<in> renames_of (sandbox_init_filter E)" using assms(1) by (simp add: renames_of_def)
  then consider
      (torrc) t where "torrc_fname E = Some t" "(a, b) \<in> renames_of (torrc_permissions (CONFIG_BACKUP_PATTERN E) t)"
    | (common) "(a, b) \<in> renames_of common_renames"
    | (bridge) "BridgeAuthoritativeDir E" "(a, b) \<in> renames_of (RENAME_SUFFIX ''networkstatus-bridges'' ''.tmp'')"
    | (authdir) "sb_authdir_mode E" "(a, b) \<in> renames_of authdir_renames"
    | (hs) f where "f \<in> set (hs_files E)" "(a, b) \<in> renames_of (hs_file_permissions f)"
    | (server) "sb_server_mode E" "(a, b) \<in> renames_of server_renames"
    using assms(2) unfolding renames_of_filter by (auto simp: renames_of_def split: option.splits if_splits)
  then show ?thesis
  proof cases
    case torrc
    with filter_holds(4) [OF torrc(1)] backup_place [OF assms(3), of t] show ?thesis
      by (auto simp: torrc_permissions_def Let_def)
  next
    case common
    with renames_withinD [OF fixed_renames(1) common] filter_holds(1) show ?thesis by auto
  next
    case bridge
    with filter_holds(5) [OF bridge(1)] show ?thesis by (auto simp: filter_macros directory_part_def)
  next
    case authdir
    with renames_withinD [OF fixed_renames(3) authdir(2)] filter_holds(6) [OF authdir(1)] show ?thesis by auto
  next
    case hs
    with filter_holds(3) [OF hs(1)] show ?thesis by (auto simp: hs_file_permissions_def)
  next
    case server
    with renames_withinD [OF fixed_renames(2) server(2)] filter_holds(2) [OF server(1)] show ?thesis by auto
  qed
qed

definition sample_sandbox :: "bool \<Rightarrow> sandbox_env" where
  "sample_sandbox server = \<lparr>HAVE_MODULE_RELAY = True, DataDirectory = ''/d'', KeyDirectory = ''/k'', list_family_key_files = [''/k/f.secret_family_key''],
     BridgeAuthoritativeDir = False, sb_authdir_mode = False, V3BandwidthsFile = None, ServerDNSResolvConfFile = None,
     torrc_defaults_fname = None, torrc_fname = Some ''/etc/t'', CONFIG_BACKUP_PATTERN = ''%s.orig.1'',
     FilesOpenedByIncludes = [], is_dir = (\<lambda>_. False), tor_log_get_logfile_names = [], hs_files = [], hs_dirs = [],
     controller_cookie_file_name = None, ext_or_auth_cookie_file_name = None, get_configured_ports = [],
     get_parent_directory = (\<lambda>_. None), DirPortFrontPage = None, sb_server_mode = server, consdiffmgr_permissions = []\<rparr>"

theorem renamed_files_can_be_opened_witness:
  "AllowOpen (FileAt ''/etc/t'') \<in> set (sandbox_init_filter (sample_sandbox True)) \<and>
   place (FileAt ''/etc/t.orig.1'') = InDirectory ''/etc/''"
proof -
  let ?E = "sample_sandbox True"
  have "AllowRename (FileAt ''/etc/t'') (FileAt ''/etc/t.orig.1'') \<in> set (sandbox_init_filter ?E)"
    using filter_holds(4) [of ?E "''/etc/t''"] by (simp add: sample_sandbox_def torrc_permissions_def Let_def)
  moreover have "AllowRename (FileAt ''/etc/t'') (FileAt ''/etc/t.orig.1'') \<notin> set (consdiffmgr_permissions ?E)"
    "backup_adds_suffix (CONFIG_BACKUP_PATTERN ?E)"
    by (simp_all add: sample_sandbox_def backup_adds_suffix_def)
  ultimately show ?thesis using renamed_files_can_be_opened [of "FileAt ''/etc/t''" "FileAt ''/etc/t.orig.1''" ?E]
    by (simp add: old_key_copies_def directory_part_def)
qed

section \<open>The keys a filter names\<close>

fun names :: "permission \<Rightarrow> sandbox_path list" where
  "names (AllowOpenat f) = [f]"
| "names (AllowOpen f) = [f]"
| "names (AllowOpendir d) = [FileAt d]"
| "names (AllowStat f) = [f]"
| "names (AllowRename a b) = [a, b]"
| "names (AllowChmod f) = [FileAt f]"
| "names (AllowChown f) = [FileAt f]"

text \<open>
  The key files of a server: the files looked up in the directory of its keys and, where the relay module is built
  in, the secret keys of its families, which are found by their paths.
\<close>

fun is_key_file :: "sandbox_env \<Rightarrow> sandbox_path \<Rightarrow> bool" where
  "is_key_file E (KeyFile f) \<longleftrightarrow> True"
| "is_key_file E (FileAt f) \<longleftrightarrow> HAVE_MODULE_RELAY E \<and> f \<in> set (list_family_key_files E)"
| "is_key_file E _ \<longleftrightarrow> False"

definition key_files_named :: "sandbox_env \<Rightarrow> permission list \<Rightarrow> sandbox_path set" where
  "key_files_named E ps = {f \<in> \<Union>(set ` names ` set ps). is_key_file E f}"

text \<open>A filter without names of the key directory names no other keys than those of the families.\<close>

definition keyless :: "permission list \<Rightarrow> bool" where
  "keyless ps = list_all (\<lambda>p. list_all (\<lambda>f. case f of KeyFile _ \<Rightarrow> False | _ \<Rightarrow> True) (names p)) ps"

lemma keyless_simps [simp]:
  "keyless []" "keyless (p # ps) \<longleftrightarrow> list_all (\<lambda>f. case f of KeyFile _ \<Rightarrow> False | _ \<Rightarrow> True) (names p) \<and> keyless ps"
  "keyless (ps @ qs) \<longleftrightarrow> keyless ps \<and> keyless qs"
  by (simp_all add: keyless_def)

lemma keyless_each: "(\<And>x. keyless (f x)) \<Longrightarrow> keyless (for_each xs f)" "(\<And>x. keyless (g x)) \<Longrightarrow> keyless (for_some y g)"
  by (induction xs) (auto simp: for_each_def for_some_def split: option.split)

lemma fixed_keyless: "keyless common_files" "keyless common_renames" "keyless authdir_renames"
  by code_simp+

lemma keyless_names:
  assumes "keyless ps"
  shows "key_files_named E ps \<subseteq> (if HAVE_MODULE_RELAY E then FileAt ` set (list_family_key_files E) else {})"
proof
  fix f
  assume "f \<in> key_files_named E ps"
  then obtain p where "p \<in> set ps" "f \<in> set (names p)" and key: "is_key_file E f" by (auto simp: key_files_named_def)
  with assms have "case f of KeyFile _ \<Rightarrow> False | _ \<Rightarrow> True" by (auto simp: keyless_def list_all_iff)
  with key show "f \<in> (if HAVE_MODULE_RELAY E then FileAt ` set (list_family_key_files E) else {})" by (cases f) auto
qed

text \<open>
  C24. The key files in the filter of a router that is not a server are exactly the secret keys of the families that
  are found, which are opened by their paths for every router where the relay module is built in. No rule looks up a file
  in the directory of the keys, though that directory itself may be opened. A server has every permission of a client
  with the same options, and more. (Any other path that the options give, of a log or an included file, is taken as it is
  written, wherever it leads.)
\<close>

theorem client_names_only_family_keys:
  "key_files_named E (sandbox_init_filter (E\<lparr>sb_server_mode := False\<rparr>)) =
     (if HAVE_MODULE_RELAY E then FileAt ` set (list_family_key_files E) else {}) \<and>
   set (sandbox_init_filter (E\<lparr>sb_server_mode := False\<rparr>)) \<subset> set (sandbox_init_filter (E\<lparr>sb_server_mode := True\<rparr>))"
proof
  let ?client = "sandbox_init_filter (E\<lparr>sb_server_mode := False\<rparr>)"
    and ?server = "sandbox_init_filter (E\<lparr>sb_server_mode := True\<rparr>)"
    and ?families = "if HAVE_MODULE_RELAY E then FileAt ` set (list_family_key_files E) else {}"
  have port: "port_permissions (E\<lparr>sb_server_mode := m\<rparr>) = port_permissions E" for m
    by (simp add: port_permissions_def [abs_def])
  have keyless: "keyless ?client"
    unfolding filter_parts port
    by (auto simp: fixed_keyless filter_macros hs_file_permissions_def torrc_permissions_def port_permissions_def Let_def
        intro!: keyless_each)
  have "AllowOpen f \<in> set ?client \<and> is_key_file E f" if "f \<in> ?families" for f
    using that unfolding filter_parts by (auto simp: for_each_def OPEN_def split: if_splits)
  then have "?families \<subseteq> key_files_named E ?client" unfolding key_files_named_def by force
  with keyless_names [OF keyless, of E] show "key_files_named E ?client = ?families" by (rule subset_antisym)
  have "AllowOpen (KeyFile ''secret_id_key'') \<in> set server_files" by code_simp
  then have "AllowOpen (KeyFile ''secret_id_key'') \<in> set ?server"
    using filter_holds(2) [of "E\<lparr>sb_server_mode := True\<rparr>"] by auto
  moreover have "AllowOpen (KeyFile ''secret_id_key'') \<notin> set ?client"
    using keyless by (auto simp: keyless_def list_all_iff)
  moreover have "set ?client \<subseteq> set ?server"
    unfolding filter_parts port by simp blast
  ultimately show "set ?client \<subset> set ?server" by blast
qed

end
