(* ===== verification/Android_Main.thy ===== *)
theory Android_Main
  imports Prelude
begin

text \<open>
  \<open>src/networking/android/main_delg.cpp\<close>: the delegate that the start-up code of a web view asks at each stage:
  the switches and features of its command line, the crash keys, and the objects it creates. What it calls is
  recorded in its order. The lemmas show in which order the stages may come and what they decide.
\<close>

section \<open>Command line and features\<close>

datatype aw_switch =
    kDisableOverscrollEdgeEffect | kDisablePullToRefreshEffect | kDisableSharedWorkers | kDisableFileSystem
  | kDisableNotifications | kCheckDamageEarly | kEnableThreadedTextureMailboxes | kDisableScreenOrientationLock
  | kDisableSpeechSynthesisAPI | kEnableAggressiveDOMStorageFlushing | kDisablePresentationAPI
  | kDisableRemotePlaybackAPI | kDisableMediaSessionAPI | kDisableOoprDebugCrashDump | kDataUrlInSvgUseEnabled
  | kSuppressEventfdUpgradeForWebview | kProcessType | kLang | kWebViewDrawFunctorUsesVulkan
  | kWebViewSandboxedRenderer | kInProcessGPU | kWebViewLogJsConsoleMessages | kWebViewFencedFrames

type_synonym aw_command_line = "aw_switch \<rightharpoonup> string"

definition aw_HasSwitch :: "aw_command_line \<Rightarrow> aw_switch \<Rightarrow> bool" where
  "aw_HasSwitch cl sw \<longleftrightarrow> cl sw \<noteq> None"

definition aw_GetSwitchValueASCII :: "aw_command_line \<Rightarrow> aw_switch \<Rightarrow> string" where
  "aw_GetSwitchValueASCII cl sw = (case cl sw of Some v \<Rightarrow> v | None \<Rightarrow> [])"

definition append_switches :: "aw_switch list \<Rightarrow> aw_command_line \<Rightarrow> aw_command_line" where
  "append_switches sws cl = fold (\<lambda>sw cl. cl(sw \<mapsto> [])) sws cl"

datatype aw_feature =
    kLogJsConsoleMessages | kDefaultANGLEVulkan | kFencedFrames | kFencedFramesAPIChanges | kFencedFramesDefaultMode
  | kFencedFramesEnforceFocus | kPrivacySandboxAdsAPIsOverride | kRecordLastUnsentLogMetadataMetrics
  | kWebViewThreadSafeMediaDefault

section \<open>The delegate\<close>

record aw_build =
  V8_USE_EXTERNAL_STARTUP_DATA :: bool
  USE_V8_CONTEXT_SNAPSHOT :: bool
  INCLUDE_BOTH_V8_SNAPSHOTS :: bool

record aw_env =
  IsUsingVulkan :: bool
  kRendererProcess :: string
  host_package_name :: string
  host_version_code :: string
  sdk_int_text :: string
  browser_initialize :: int
  is_canary_dev :: bool
  ShouldInitTracingDuringBrowserMain :: bool
  gpu_service_exists :: bool

datatype aw_call =
    EnableIfNotSet aw_feature | DisableIfNotSet aw_feature
  | RegisterV8Asset bool bool
  | RegisterPathProvider | SetRecordHostAppPackageName bool | InitTLSSlot | ForceInProcessNetworkService
  | SetICUDefaultLocale string | InitResourceBundleRendererSide | EnableCrashReporter string
  | SetCrashKey string string
  | CreateBrowserRunner | InitializeBrowserRunner | CloseLogFile | WaitForBackgroundTracingInit
  | InitIcuAndResourceBundleBrowserSide | CreateFeatureListAndFieldTrials | InitializeMojoCore
  | InitializeMemorySystemFor bool string | InitializeLockFeatures
  | CreateFeatureListCreator | CreateBrowserClient | CreateGpuClient | CreateRendererClient

text \<open>The members, each there or not, and the command line of the process.\<close>

record aw_delegate =
  aw_command :: aw_command_line
  browser_runner :: bool
  aw_feature_list_creator :: bool
  content_browser_client :: bool
  content_gpu_client :: bool
  content_renderer_client :: bool

definition AwMainDelegate :: "aw_command_line \<Rightarrow> aw_delegate" where
  "AwMainDelegate cl = \<lparr>aw_command = cl, browser_runner = False, aw_feature_list_creator = False,
     content_browser_client = False, content_gpu_client = False, content_renderer_client = False\<rparr>"

definition startup_switches :: "aw_switch list" where
  "startup_switches = [kDisableOverscrollEdgeEffect, kDisablePullToRefreshEffect, kDisableSharedWorkers, kDisableFileSystem,
     kDisableNotifications, kCheckDamageEarly, kEnableThreadedTextureMailboxes, kDisableScreenOrientationLock,
     kDisableSpeechSynthesisAPI, kEnableAggressiveDOMStorageFlushing, kDisablePresentationAPI,
     kDisableRemotePlaybackAPI, kDisableMediaSessionAPI, kDisableOoprDebugCrashDump, kDataUrlInSvgUseEnabled,
     kSuppressEventfdUpgradeForWebview]"

text \<open>An asset is for 32 bit or not, and with the additional context or not.\<close>

definition register_assets :: "aw_build \<Rightarrow> aw_call list" where
  "register_assets B =
     (if V8_USE_EXTERNAL_STARTUP_DATA B then
        (if \<not> USE_V8_CONTEXT_SNAPSHOT B \<or> INCLUDE_BOTH_V8_SNAPSHOTS B
         then [RegisterV8Asset True False, RegisterV8Asset False False] else []) @
        (if USE_V8_CONTEXT_SNAPSHOT B then [RegisterV8Asset True True, RegisterV8Asset False True] else [])
      else [])"

definition feature_flags :: "aw_command_line \<Rightarrow> aw_call list" where
  "feature_flags cl =
     (if aw_HasSwitch cl kWebViewLogJsConsoleMessages then [EnableIfNotSet kLogJsConsoleMessages] else []) @
     (if \<not> aw_HasSwitch cl kWebViewDrawFunctorUsesVulkan then [DisableIfNotSet kDefaultANGLEVulkan] else []) @
     (if aw_HasSwitch cl kWebViewFencedFrames
      then [EnableIfNotSet kFencedFrames, EnableIfNotSet kFencedFramesAPIChanges, EnableIfNotSet kFencedFramesDefaultMode,
        EnableIfNotSet kFencedFramesEnforceFocus, EnableIfNotSet kPrivacySandboxAdsAPIsOverride] else []) @
     [EnableIfNotSet kRecordLastUnsentLogMetadataMetrics, EnableIfNotSet kWebViewThreadSafeMediaDefault]"

definition BasicStartupComplete :: "aw_build \<Rightarrow> aw_env \<Rightarrow> aw_delegate \<Rightarrow> aw_delegate \<times> aw_call list" where
  "BasicStartupComplete B E d =
     (let cl = append_switches startup_switches (aw_command d);
          browser = (aw_GetSwitchValueASCII cl kProcessType = []);
          cl = (if browser \<and> IsUsingVulkan E then append_switches [kWebViewDrawFunctorUsesVulkan] cl else cl);
          assets = (if browser then register_assets B else []);
          cl = (if aw_HasSwitch cl kWebViewSandboxedRenderer then append_switches [kInProcessGPU] cl else cl)
      in (d\<lparr>aw_command := cl\<rparr>, assets @ feature_flags cl @
           [RegisterPathProvider, SetRecordHostAppPackageName True, InitTLSSlot, ForceInProcessNetworkService]))"

definition PreSandboxStartup :: "aw_env \<Rightarrow> aw_delegate \<Rightarrow> aw_delegate \<times> aw_call list" where
  "PreSandboxStartup E d =
     (let process_type = aw_GetSwitchValueASCII (aw_command d) kProcessType
      in (d, (if process_type \<noteq> [] then [SetICUDefaultLocale (aw_GetSwitchValueASCII (aw_command d) kLang)] else []) @
             (if process_type = kRendererProcess E then [InitResourceBundleRendererSide] else []) @
             [EnableCrashReporter process_type, SetCrashKey ''kAppPackageName'' (host_package_name E),
              SetCrashKey ''kAppPackageVersionCode'' (host_version_code E), SetCrashKey ''kAndroidSdkInt'' (sdk_int_text E)]))"

text \<open>\<open>None\<close> when the parameters are handed back to be run by the caller.\<close>

definition RunProcess :: "aw_env \<Rightarrow> string \<Rightarrow> aw_delegate \<Rightarrow> (aw_delegate \<times> int option \<times> aw_call list) checked" where
  "RunProcess E process_type d =
     (if process_type \<noteq> [] then Inr (d, None, [])
      else dcheck (browser_initialize E < 0) ''exit_code < 0''
             (Inr (d\<lparr>browser_runner := True\<rparr>, Some 0, [CreateBrowserRunner, InitializeBrowserRunner])))"

definition ProcessExiting :: "aw_call list" where "ProcessExiting = [CloseLogFile]"

definition PreBrowserMain :: "aw_call list" where "PreBrowserMain = [WaitForBackgroundTracingInit]"

datatype invoked_in = InvokedInBrowserProcess | InvokedInChildProcess

definition ShouldCreateFeatureList :: "invoked_in \<Rightarrow> bool" where
  "ShouldCreateFeatureList i \<longleftrightarrow> i = InvokedInChildProcess"

definition ShouldInitializeMojo :: "invoked_in \<Rightarrow> bool" where
  "ShouldInitializeMojo i = ShouldCreateFeatureList i"

definition ShouldInitializePerfetto :: "aw_env \<Rightarrow> invoked_in \<Rightarrow> bool" where
  "ShouldInitializePerfetto E i =
     (if i \<noteq> InvokedInBrowserProcess then True else ShouldInitTracingDuringBrowserMain E)"

definition InitializeMemorySystem :: "aw_env \<Rightarrow> aw_delegate \<Rightarrow> bool \<Rightarrow> aw_call list" where
  "InitializeMemorySystem E d is_browser_process =
     (let process_type = aw_GetSwitchValueASCII (aw_command d) kProcessType;
          gwp_asan_boost_sampling = (is_canary_dev E \<or> is_browser_process)
      in [InitializeMemorySystemFor gwp_asan_boost_sampling process_type])"

text \<open>The pointer to the creator of feature lists must be there.\<close>

definition PostEarlyInitialization :: "aw_env \<Rightarrow> invoked_in \<Rightarrow> aw_delegate \<Rightarrow> (aw_delegate \<times> aw_call list) checked" where
  "PostEarlyInitialization E i d =
     (let is_browser_process = (i = InvokedInBrowserProcess);
          rest = InitializeMemorySystem E d is_browser_process @ [InitializeLockFeatures]
      in if is_browser_process
         then check (aw_feature_list_creator d) ''aw_feature_list_creator_'' (Inr (d,
                [InitIcuAndResourceBundleBrowserSide, CreateFeatureListAndFieldTrials, InitializeMojoCore] @ rest))
         else Inr (d, rest))"

definition CreateContentBrowserClient :: "aw_delegate \<Rightarrow> (aw_delegate \<times> aw_call list) checked" where
  "CreateContentBrowserClient d =
     dcheck (\<not> aw_feature_list_creator d) ''!aw_feature_list_creator_'' (Inr
       (d\<lparr>aw_feature_list_creator := True, content_browser_client := True\<rparr>, [CreateFeatureListCreator, CreateBrowserClient]))"

definition CreateContentGpuClient :: "aw_delegate \<Rightarrow> aw_delegate \<times> aw_call list" where
  "CreateContentGpuClient d = (d\<lparr>content_gpu_client := True\<rparr>, [CreateGpuClient])"

definition CreateContentRendererClient :: "aw_delegate \<Rightarrow> aw_delegate \<times> aw_call list" where
  "CreateContentRendererClient d = (d\<lparr>content_renderer_client := True\<rparr>, [CreateRendererClient])"

text \<open>The three accessors the GPU client is given, which need the GPU service; \<open>None\<close> for its member.\<close>

definition gpu_service_member :: "aw_env \<Rightarrow> 'm \<Rightarrow> 'm checked" where
  "gpu_service_member E m = dcheck (gpu_service_exists E) ''GpuServiceWebView::GetInstance()'' (Inr m)"

section \<open>The stages\<close>

datatype aw_stage =
    OnBasicStartupComplete
  | OnPreSandboxStartup
  | OnRunProcess string
  | OnProcessExiting
  | OnPreBrowserMain
  | OnPostEarlyInitialization invoked_in
  | OnCreateContentBrowserClient
  | OnCreateContentGpuClient
  | OnCreateContentRendererClient

definition aw_step :: "aw_build \<Rightarrow> aw_env \<Rightarrow> aw_delegate \<Rightarrow> aw_stage \<Rightarrow> (aw_delegate \<times> aw_call list) checked" where
  "aw_step B E d e = (case e of
     OnBasicStartupComplete \<Rightarrow> Inr (BasicStartupComplete B E d)
   | OnPreSandboxStartup \<Rightarrow> Inr (PreSandboxStartup E d)
   | OnRunProcess t \<Rightarrow> bindE (RunProcess E t d) (\<lambda>(d', r, calls). Inr (d', calls))
   | OnProcessExiting \<Rightarrow> Inr (d, ProcessExiting)
   | OnPreBrowserMain \<Rightarrow> Inr (d, PreBrowserMain)
   | OnPostEarlyInitialization i \<Rightarrow> PostEarlyInitialization E i d
   | OnCreateContentBrowserClient \<Rightarrow> CreateContentBrowserClient d
   | OnCreateContentGpuClient \<Rightarrow> Inr (CreateContentGpuClient d)
   | OnCreateContentRendererClient \<Rightarrow> Inr (CreateContentRendererClient d))"

text \<open>The order the stages must come in: one browser client, and before the browser's early initialisation.\<close>

fun stages_ordered :: "bool \<Rightarrow> aw_stage list \<Rightarrow> bool" where
  "stages_ordered created [] = True"
| "stages_ordered created (OnCreateContentBrowserClient # es) = (\<not> created \<and> stages_ordered True es)"
| "stages_ordered created (OnPostEarlyInitialization InvokedInBrowserProcess # es) = (created \<and> stages_ordered created es)"
| "stages_ordered created (e # es) = stages_ordered created es"

definition browser_starts :: "aw_env \<Rightarrow> aw_stage list \<Rightarrow> bool" where
  "browser_starts E es \<longleftrightarrow> browser_initialize E < 0 \<or> OnRunProcess [] \<notin> set es"

lemma aw_step_Inr:
  "(\<exists>d' out. aw_step B E d e = Inr (d', out)) \<longleftrightarrow>
     stages_ordered (aw_feature_list_creator d) [e] \<and> browser_starts E [e]"
  "aw_step B E d e = Inr (d', out) \<Longrightarrow>
     aw_feature_list_creator d' \<longleftrightarrow> aw_feature_list_creator d \<or> e = OnCreateContentBrowserClient"
proof -
  show "(\<exists>d' out. aw_step B E d e = Inr (d', out)) \<longleftrightarrow>
      stages_ordered (aw_feature_list_creator d) [e] \<and> browser_starts E [e]"
  proof (cases e)
    case (OnPostEarlyInitialization i)
    then show ?thesis by (cases i) (simp_all add: aw_step_def PostEarlyInitialization_def check_def Let_def browser_starts_def)
  qed (auto simp: aw_step_def RunProcess_def CreateContentBrowserClient_def dcheck_def browser_starts_def)
  show "aw_feature_list_creator d' \<longleftrightarrow> aw_feature_list_creator d \<or> e = OnCreateContentBrowserClient"
    if "aw_step B E d e = Inr (d', out)"
    using that
    by (cases e) (auto simp: aw_step_def BasicStartupComplete_def PreSandboxStartup_def RunProcess_def CreateContentBrowserClient_def
      CreateContentGpuClient_def CreateContentRendererClient_def PostEarlyInitialization_def Let_def checked_iffs split: if_splits)
qed

lemma stages_ordered_Cons:
  "stages_ordered c (e # es) \<longleftrightarrow> stages_ordered c [e] \<and> stages_ordered (c \<or> e = OnCreateContentBrowserClient) es"
  by (cases "(c, e # es)" rule: stages_ordered.cases) auto

text \<open>
  The delegate passes its checks exactly when the stages come in order, the browser's runner starts, and the
  creator of feature lists is made once and before it is used. Nothing else depends on the order.
\<close>

theorem stages_come_in_order:
  "(\<exists>d out. run (aw_step B E) (AwMainDelegate cl) es = Inr (d, out)) \<longleftrightarrow> stages_ordered False es \<and> browser_starts E es"
proof -
  have "(\<exists>d' out. run (aw_step B E) d es = Inr (d', out)) \<longleftrightarrow>
      stages_ordered (aw_feature_list_creator d) es \<and> browser_starts E es" for d
  proof (induction es arbitrary: d)
    case Nil
    show ?case by (simp add: browser_starts_def)
  next
    case (Cons e es)
    have split: "browser_starts E (e # es) \<longleftrightarrow> browser_starts E [e] \<and> browser_starts E es"
      by (auto simp: browser_starts_def)
    show ?case
    proof (cases "\<exists>d1 o1. aw_step B E d e = Inr (d1, o1)")
      case True
      then obtain d1 o1 where st: "aw_step B E d e = Inr (d1, o1)" by blast
      from aw_step_Inr(2) [OF st] Cons.IH [of d1] True aw_step_Inr(1) [of B E d e] st
      show ?thesis by (subst stages_ordered_Cons) (auto simp: split bindE_Inr_iff)
    next
      case False
      with aw_step_Inr(1) [of B E d e] show ?thesis
        by (subst stages_ordered_Cons) (auto simp: split bindE_Inr_iff)
    qed
  qed
  from this [of "AwMainDelegate cl"] show ?thesis by (simp add: AwMainDelegate_def)
qed

text \<open>The switches and features of the first stage.\<close>

lemma append_switches_value: "append_switches sws cl sw = (if sw \<in> set sws then Some [] else cl sw)"
  by (induction sws arbitrary: cl) (auto simp: append_switches_def)

text \<open>
  Start-up decides alike however often it runs: a second run changes no switch. Vulkan is disabled for ANGLE
  exactly when the functor does not draw with it, which in a browser process is what the draw functor says.
\<close>

theorem startup_decisions:
  assumes "BasicStartupComplete B E d = (d1, calls)"
  shows "BasicStartupComplete B E d1 = (d1, calls) \<and>
    (DisableIfNotSet kDefaultANGLEVulkan \<in> set calls \<longleftrightarrow>
      \<not> aw_HasSwitch (aw_command d) kWebViewDrawFunctorUsesVulkan \<and>
      (aw_GetSwitchValueASCII (aw_command d) kProcessType \<noteq> [] \<or> \<not> IsUsingVulkan E))"
proof
  let ?cl = "aw_command d1"
  have cl: "?cl sw = (if sw \<in> set startup_switches then Some []
      else if sw = kWebViewDrawFunctorUsesVulkan \<and> aw_GetSwitchValueASCII (aw_command d) kProcessType = [] \<and> IsUsingVulkan E
      then Some []
      else if sw = kInProcessGPU \<and> aw_HasSwitch (aw_command d) kWebViewSandboxedRenderer then Some [] else aw_command d sw)" for sw
    using assms by (auto simp: BasicStartupComplete_def Let_def append_switches_value startup_switches_def aw_HasSwitch_def
        aw_GetSwitchValueASCII_def)
  have same: "aw_GetSwitchValueASCII ?cl kProcessType = aw_GetSwitchValueASCII (aw_command d) kProcessType"
    "aw_HasSwitch ?cl kWebViewSandboxedRenderer = aw_HasSwitch (aw_command d) kWebViewSandboxedRenderer"
    by (simp_all add: aw_GetSwitchValueASCII_def aw_HasSwitch_def cl startup_switches_def)
  have d1: "d1 = d\<lparr>aw_command := ?cl\<rparr>" and calls: "calls =
      (if aw_GetSwitchValueASCII (aw_command d) kProcessType = [] then register_assets B else []) @ feature_flags ?cl @
      [RegisterPathProvider, SetRecordHostAppPackageName True, InitTLSSlot, ForceInProcessNetworkService]"
    using assms by (auto simp: BasicStartupComplete_def Let_def append_switches_value startup_switches_def
        aw_GetSwitchValueASCII_def)
  have again: "aw_command (fst (BasicStartupComplete B E d1)) = ?cl"
    by (rule ext) (auto simp: BasicStartupComplete_def Let_def append_switches_value cl aw_HasSwitch_def
        aw_GetSwitchValueASCII_def startup_switches_def)
  then show "BasicStartupComplete B E d1 = (d1, calls)"
    unfolding calls by (auto simp: BasicStartupComplete_def Let_def append_switches_value startup_switches_def
        aw_GetSwitchValueASCII_def cl)
  show "DisableIfNotSet kDefaultANGLEVulkan \<in> set calls \<longleftrightarrow>
      \<not> aw_HasSwitch (aw_command d) kWebViewDrawFunctorUsesVulkan \<and>
      (aw_GetSwitchValueASCII (aw_command d) kProcessType \<noteq> [] \<or> \<not> IsUsingVulkan E)"
    unfolding calls by (auto simp: feature_flags_def register_assets_def aw_HasSwitch_def cl startup_switches_def)
qed

definition sample_aw :: "bool \<Rightarrow> aw_env" where
  "sample_aw vulkan = \<lparr>IsUsingVulkan = vulkan, kRendererProcess = ''renderer'', host_package_name = [], host_version_code = [],
     sdk_int_text = ''34'', browser_initialize = -1, is_canary_dev = False, ShouldInitTracingDuringBrowserMain = True,
     gpu_service_exists = False\<rparr>"

theorem startup_decisions_witness:
  "\<exists>d1 calls. BasicStartupComplete \<lparr>V8_USE_EXTERNAL_STARTUP_DATA = True, USE_V8_CONTEXT_SNAPSHOT = True, INCLUDE_BOTH_V8_SNAPSHOTS = False\<rparr>
      (sample_aw False) (AwMainDelegate Map.empty) = (d1, calls) \<and> DisableIfNotSet kDefaultANGLEVulkan \<in> set calls"
proof -
  obtain d1 calls where run: "BasicStartupComplete
      \<lparr>V8_USE_EXTERNAL_STARTUP_DATA = True, USE_V8_CONTEXT_SNAPSHOT = True, INCLUDE_BOTH_V8_SNAPSHOTS = False\<rparr>
      (sample_aw False) (AwMainDelegate Map.empty) = (d1, calls)" by fastforce
  from startup_decisions [OF run] run show ?thesis by (simp add: AwMainDelegate_def aw_HasSwitch_def sample_aw_def)
qed

end
