(* ===== verification/Browser_Services.thy ===== *)
theory Browser_Services
  imports Net_Error
begin

text \<open>
  Three small services of the browser: the factory of the media service of the GPU process
  (\<open>src/app/gpu/service.cpp\<close>), the loader of \<open>about:\<close> addresses (\<open>src/muim/loader.cpp\<close>) and the helper that
  marks start-up as complete (\<open>src/muim/after_util.cpp\<close>).
\<close>

section \<open>The media service\<close>

text \<open>
  A task runner is the one the factory was made on or a new one of the thread pool. What the factory keeps of its
  arguments is one value \<open>'p\<close>; a receiver is \<open>'r\<close>.
\<close>

datatype pool_runner = Sequenced | SingleThread

datatype runner = DefaultRunner nat | PoolRunner pool_runner nat

record media_build =
  ENABLE_MOJO_MEDIA_IN_GPU_PROCESS :: bool
  gpu_is_win :: bool

text \<open>Answers at the time of a call; \<open>dawn\<close> is what the chain of the channel manager and its state gives.\<close>

record media_env =
  shared_context_is_dawn_d3d :: "bool option"
  IsDedicatedMediaServiceThreadEnabled :: bool
  kUseSequencedTaskRunnerForMediaService :: bool

text \<open>
  The state: the runner of the constructor, how many runners were made, the tasks that wait on their runners in
  the order they were posted, and the static service of the posted lambda, with what it was made of.
\<close>

record ('p, 'r) media_state =
  preferences :: 'p
  task_runner :: runner
  runners_made :: nat
  posted :: "(runner \<times> 'p \<times> 'r) list"
  media_service :: "('p \<times> 'r) option"

definition GpuServiceFactory :: "nat \<Rightarrow> 'p \<Rightarrow> ('p, 'r) media_state" where
  "GpuServiceFactory current p =
     \<lparr>preferences = p, task_runner = DefaultRunner current, runners_made = 0, posted = [], media_service = None\<rparr>"

text \<open>The lambda: on Windows only with Dawn on D3D.\<close>

definition use_dedicated_media_service_thread :: "media_build \<Rightarrow> media_env \<Rightarrow> bool" where
  "use_dedicated_media_service_thread B E =
     (let is_dawn_d3d_enabled = (shared_context_is_dawn_d3d E = Some True)
      in if gpu_is_win B \<and> \<not> is_dawn_d3d_enabled then False else IsDedicatedMediaServiceThreadEnabled E)"

definition RunMediaService :: "media_build \<Rightarrow> media_env \<Rightarrow> 'r \<Rightarrow> ('p, 'r) media_state \<Rightarrow> ('p, 'r) media_state" where
  "RunMediaService B E receiver s =
     (if \<not> ENABLE_MOJO_MEDIA_IN_GPU_PROCESS B then s
      else
        let (tr, made) =
              (if use_dedicated_media_service_thread B E
               then (PoolRunner (if kUseSequencedTaskRunnerForMediaService E then Sequenced else SingleThread) (runners_made s),
                     runners_made s + 1)
               else (task_runner s, runners_made s))
        in s\<lparr>runners_made := made, posted := posted s @ [(tr, preferences s, receiver)]\<rparr>)"

text \<open>
  A posted task runs: the static variable is initialised by the first, and the factories of the others are
  dropped with their receivers.
\<close>

definition run_posted :: "runner \<times> 'p \<times> 'r \<Rightarrow> ('p, 'r) media_state \<Rightarrow> ('p, 'r) media_state" where
  "run_posted t s = (case media_service s of
     None \<Rightarrow> s\<lparr>media_service := Some (snd t)\<rparr>
   | Some _ \<Rightarrow> s)"

datatype 'r media_event = RunMedia media_env 'r | RunnerTurn nat

datatype 'r media_output = ServiceCreated 'r | ReceiverDropped 'r

text \<open>A turn of the \<open>i\<close>-th waiting task, which must be the first of its runner.\<close>

definition media_step ::
    "media_build \<Rightarrow> ('p, 'r) media_state \<Rightarrow> 'r media_event \<Rightarrow> (('p, 'r) media_state \<times> 'r media_output list) checked" where
  "media_step B s e = Inr (case e of
     RunMedia E r \<Rightarrow> (RunMediaService B E r s, [])
   | RunnerTurn i \<Rightarrow>
       if i < length (posted s) \<and> fst (posted s ! i) \<notin> set (map fst (take i (posted s)))
       then let t = posted s ! i
            in (run_posted t (s\<lparr>posted := take i (posted s) @ drop (i + 1) (posted s)\<rparr>),
                [if media_service s = None then ServiceCreated (snd (snd t)) else ReceiverDropped (snd (snd t))])
       else (s, []))"

definition waiting_receivers :: "('p, 'r) media_state \<Rightarrow> 'r multiset" where
  "waiting_receivers s = mset (map (\<lambda>t. snd (snd t)) (posted s))"

definition receivers_out :: "'r media_output list \<Rightarrow> 'r multiset" where
  "receivers_out out = mset (map (\<lambda>c. case c of ServiceCreated r \<Rightarrow> r | ReceiverDropped r \<Rightarrow> r) out)"

definition handed_receivers :: "media_build \<Rightarrow> 'r media_event \<Rightarrow> 'r multiset" where
  "handed_receivers B e = (case e of RunMedia E r \<Rightarrow> if ENABLE_MOJO_MEDIA_IN_GPU_PROCESS B then {#r#} else {#} | _ \<Rightarrow> {#})"

lemma nth_take_drop_mset: "i < length xs \<Longrightarrow> mset xs = add_mset (xs ! i) (mset (take i xs @ drop (Suc i) xs))"
  by (subst id_take_nth_drop [of i xs]) simp_all

interpretation media: balanced_machine "media_step B" "\<lambda>_ _. True" "\<lambda>_. True" waiting_receivers "handed_receivers B"
  "\<lambda>_. {#}" receivers_out
proof (unfold_locales, goal_cases)
  case (1 s e)
  show ?case by (auto simp: media_step_def split: media_event.split)
next
  case (6 s e s' out)
  show ?case
  proof (cases e)
    case (RunMedia E r)
    with 6 show ?thesis
      by (auto simp: media_step_def RunMediaService_def handed_receivers_def receivers_out_def waiting_receivers_def Let_def)
  next
    case (RunnerTurn i)
    show ?thesis
    proof (cases "i < length (posted s) \<and> fst (posted s ! i) \<notin> set (map fst (take i (posted s)))")
      case True
      have "waiting_receivers s = add_mset (snd (snd (posted s ! i))) (mset (map (\<lambda>t. snd (snd t)) (take i (posted s) @ drop (Suc i) (posted s))))"
        using True by (subst nth_take_drop_mset [of i "map (\<lambda>t. snd (snd t)) (posted s)", folded waiting_receivers_def])
          (simp_all add: take_map drop_map)
      with True RunnerTurn 6(3) show ?thesis
        by (auto simp: media_step_def run_posted_def Let_def handed_receivers_def receivers_out_def waiting_receivers_def split: option.splits)
    next
      case False
      from 6(3) have "s' = s \<and> out = []"
        unfolding RunnerTurn media_step_def media_event.case if_not_P [OF False] by simp
      with RunnerTurn show ?thesis by (simp add: handed_receivers_def receivers_out_def)
    qed
  qed
qed (auto simp: receivers_out_def)

lemma all_media_events: "admissible (media_step B) (\<lambda>_ _. True) s es"
  by (induction es arbitrary: s) (auto split: sum.split)

text \<open>Once there is a service every receiver whose turn comes is dropped.\<close>

lemma media_step_outputs:
  assumes "media_step B s e = Inr (s', out)"
  shows "if media_service s = None
    then (out = [] \<and> media_service s' = None) \<or> (\<exists>r. out = [ServiceCreated r] \<and> media_service s' \<noteq> None)
    else media_service s' = media_service s \<and> (\<exists>rs. out = map ReceiverDropped rs)"
proof (cases e)
  case (RunMedia E r)
  with assms show ?thesis by (auto simp: media_step_def RunMediaService_def Let_def)
next
  case (RunnerTurn i)
  show ?thesis
  proof (cases "i < length (posted s) \<and> fst (posted s ! i) \<notin> set (map fst (take i (posted s)))")
    case True
    have "out = [ReceiverDropped (snd (snd (posted s ! i)))] \<Longrightarrow> \<exists>rs. out = map ReceiverDropped rs"
      by (rule exI [of _ "[snd (snd (posted s ! i))]"]) simp
    with assms show ?thesis unfolding RunnerTurn media_step_def media_event.case if_P [OF True]
      by (auto simp: run_posted_def Let_def)
  next
    case False
    with assms show ?thesis unfolding RunnerTurn media_step_def media_event.case if_not_P [OF False] by simp
  qed
qed

lemma dropped_once_there:
  "run (media_step B) s es = Inr (t, out) \<Longrightarrow> media_service s \<noteq> None \<Longrightarrow> \<exists>rs. out = map ReceiverDropped rs"
proof (induction es arbitrary: s out)
  case (Cons e es)
  from Cons.prems(1) obtain s1 o1 o2 where st: "media_step B s e = Inr (s1, o1)" and rest: "run (media_step B) s1 es = Inr (t, o2)"
    and out: "out = o1 @ o2" unfolding run_Cons_Inr by blast
  from media_step_outputs [OF st] Cons.prems(2) obtain rs where "o1 = map ReceiverDropped rs" "media_service s1 \<noteq> None"
    by auto
  with Cons.IH [OF rest] obtain rs' where "out = map ReceiverDropped (rs @ rs')" by (auto simp: out)
  then show ?case by blast
qed simp

text \<open>
  C26. At most one media service is made, by the first task that gets its turn; every other receiver is dropped when
  its turn comes. No receiver is lost before: each was passed on, dropped, or still waits.
\<close>

theorem one_media_service:
  assumes "run (media_step B) (GpuServiceFactory current p) es = Inr (s, out)"
  shows "(out = [] \<or> (\<exists>r rs. out = ServiceCreated r # map ReceiverDropped rs)) \<and>
    sum_list (map (handed_receivers B) es) = receivers_out out + waiting_receivers s"
proof
  have "out = [] \<or> (\<exists>r rs. out = ServiceCreated r # map ReceiverDropped rs)"
    if "run (media_step B) s0 es = Inr (s, out)" "media_service s0 = None" for s0 :: "('a, 'b) media_state"
    using that
  proof (induction es arbitrary: s0 out)
    case (Cons e es)
    from Cons.prems(1) obtain s1 o1 o2 where st: "media_step B s0 e = Inr (s1, o1)" and rest: "run (media_step B) s1 es = Inr (s, o2)"
      and out: "out = o1 @ o2" unfolding run_Cons_Inr by blast
    from media_step_outputs [OF st] Cons.prems(2)
    consider (none) "o1 = []" "media_service s1 = None" | (made) r where "o1 = [ServiceCreated r]" "media_service s1 \<noteq> None" by auto
    then show ?case
    proof cases
      case none
      with Cons.IH [OF rest] out show ?thesis by simp
    next
      case made
      with dropped_once_there [OF rest] out show ?thesis by auto
    qed
  qed simp
  from this [OF assms] show "out = [] \<or> (\<exists>r rs. out = ServiceCreated r # map ReceiverDropped rs)"
    by (simp add: GpuServiceFactory_def)
  show "sum_list (map (handed_receivers B) es) = receivers_out out + waiting_receivers s"
    using media.run_balance [OF TrueI all_media_events assms] by (simp add: waiting_receivers_def GpuServiceFactory_def)
qed

theorem one_media_service_witness:
  "\<exists>s out. run (media_step \<lparr>ENABLE_MOJO_MEDIA_IN_GPU_PROCESS = True, gpu_is_win = False\<rparr>) (GpuServiceFactory 0 ())
      [RunMedia \<lparr>shared_context_is_dawn_d3d = None, IsDedicatedMediaServiceThreadEnabled = True, kUseSequencedTaskRunnerForMediaService = True\<rparr> 1,
       RunMedia \<lparr>shared_context_is_dawn_d3d = None, IsDedicatedMediaServiceThreadEnabled = False, kUseSequencedTaskRunnerForMediaService = True\<rparr> 2,
       RunnerTurn 1, RunnerTurn 0] = Inr (s, out) \<and>
     out = [ServiceCreated 2, ReceiverDropped (1 :: nat)] \<and> {#1, 2#} = receivers_out out"
proof -
  let ?B = "\<lparr>ENABLE_MOJO_MEDIA_IN_GPU_PROCESS = True, gpu_is_win = False\<rparr>"
  let ?es = "[RunMedia \<lparr>shared_context_is_dawn_d3d = None, IsDedicatedMediaServiceThreadEnabled = True, kUseSequencedTaskRunnerForMediaService = True\<rparr> 1,
       RunMedia \<lparr>shared_context_is_dawn_d3d = None, IsDedicatedMediaServiceThreadEnabled = False, kUseSequencedTaskRunnerForMediaService = True\<rparr> (2 :: nat),
       RunnerTurn 1, RunnerTurn 0]"
  obtain s out where run: "run (media_step ?B) (GpuServiceFactory 0 ()) ?es = Inr (s, out)" and "out = [ServiceCreated 2, ReceiverDropped 1]"
      "waiting_receivers s = {#}"
    by (simp add: media_step_def RunMediaService_def GpuServiceFactory_def use_dedicated_media_service_thread_def run_posted_def
        waiting_receivers_def Let_def)
  moreover from this have "{#1, 2#} = receivers_out out"
    using one_media_service [OF run] by (simp add: handed_receivers_def add_mset_commute)
  ultimately show ?thesis using run by blast
qed

section \<open>The loader of about: addresses\<close>

text \<open>\<open>CreateDataPipe\<close> succeeds or not; the client is told of the response, then of the end.\<close>

datatype loader_call = OnReceiveResponse string | OnComplete net_error

definition CreateLoaderAndStart :: "bool \<Rightarrow> loader_call list" where
  "CreateLoaderAndStart pipe_created =
     (if \<not> pipe_created then [OnComplete ERR_INSUFFICIENT_RESOURCES]
      else [OnReceiveResponse ''text/html'', OnComplete NET_OK])"

section \<open>Start-up is complete\<close>

datatype startup_call = OnStartupComplete | ClientStartupIsComplete

text \<open>The content client, and its browser client, may be null.\<close>

definition SetBrowserStartupIsCompleteForTesting :: "bool option \<Rightarrow> startup_call list" where
  "SetBrowserStartupIsCompleteForTesting content_client =
     OnStartupComplete # (case content_client of
       None \<Rightarrow> []
     | Some has_browser \<Rightarrow> if has_browser then [ClientStartupIsComplete] else [])"

end
